(* ===== verification/Prelude.thy ===== *)
theory Prelude
  imports Main "HOL-Library.Word"
begin

text \<open>
  What every component shares.  Go values: a Go \<open>string\<close> and a Go \<open>[]byte\<close> are both a list of
  bytes (a HOL \<open>string\<close>: \<open>char\<close> is one byte); \<open>uint16\<close> and \<open>uint64\<close> are words of that width.
  A call ends in one of three ways, \<open>'a go\<close>: it returns a value, it returns a non-nil error, or it
  panics (a nil dereference, an index out of range, a library precondition).  \<open>traverse\<close> and
  \<open>traverse_w\<close> are the two shapes of the source's loops with an early return: over pure calls, and
  over calls that change a world (the network, a service) that is threaded through.
\<close>

type_synonym bytes = string
type_synonym u16 = "16 word"
type_synonym u64 = "64 word"

named_theorems go_simps \<open>unfolding rules of the operations that only combine results\<close>

subsection \<open>Errors\<close>

text \<open>
  \<open>Msg t\<close> is an error with text \<open>t\<close>; \<open>Wrap c e\<close> is \<open>fmt.Errorf("c: %w", e)\<close>.
\<close>

datatype error = Msg string | Wrap string error

fun err_text :: "error \<Rightarrow> string" where
  "err_text (Msg t) = t"
| "err_text (Wrap c e) = c @ '': '' @ err_text e"

fun root_cause :: "error \<Rightarrow> error" where
  "root_cause (Msg t) = Msg t"
| "root_cause (Wrap c e) = root_cause e"

subsection \<open>Outcomes\<close>

datatype 'a go = Ret 'a | Err error | Panic

fun bind_go :: "'a go \<Rightarrow> ('a \<Rightarrow> 'b go) \<Rightarrow> 'b go" where
  "bind_go (Ret x) k = k x"
| "bind_go (Err e) k = Err e"
| "bind_go Panic k = Panic"

fun wrap_err :: "string \<Rightarrow> 'a go \<Rightarrow> 'a go" where
  "wrap_err c (Err e) = Err (Wrap c e)"
| "wrap_err c r = r"

fun is_ret :: "'a go \<Rightarrow> bool" where
  "is_ret (Ret x) = True"
| "is_ret _ = False"

text \<open>\<open>xs[i]\<close> of the source: an index out of range panics.\<close>

definition index :: "'a list \<Rightarrow> int \<Rightarrow> 'a go" where
  "index xs i = (if 0 \<le> i \<and> i < int (length xs) then Ret (xs ! nat i) else Panic)"

definition of_opt :: "error \<Rightarrow> 'a option \<Rightarrow> 'a go" where
  "of_opt e x = (case x of None \<Rightarrow> Err e | Some y \<Rightarrow> Ret y)"

lemma of_opt_simps [simp]:
  "of_opt e (Some y) = Ret y" "of_opt e None = Err e"
  by (simp_all add: of_opt_def)

lemma bind_go_Ret [simp]: "bind_go m Ret = m"
  by (cases m) auto

lemma bind_go_assoc: "bind_go (bind_go m f) g = bind_go m (\<lambda>x. bind_go (f x) g)"
  by (cases m) auto

lemma bind_go_eq_Ret: "bind_go m k = Ret y \<longleftrightarrow> (\<exists>x. m = Ret x \<and> k x = Ret y)"
  by (cases m) auto

lemma bind_go_eq_Err: "bind_go m k = Err e \<longleftrightarrow> m = Err e \<or> (\<exists>x. m = Ret x \<and> k x = Err e)"
  by (cases m) auto

lemma bind_go_eq_Panic: "bind_go m k = Panic \<longleftrightarrow> m = Panic \<or> (\<exists>x. m = Ret x \<and> k x = Panic)"
  by (cases m) auto

lemmas bind_go_cases = bind_go_eq_Ret bind_go_eq_Err bind_go_eq_Panic

lemma wrap_err_eq_Ret [simp]: "wrap_err c m = Ret y \<longleftrightarrow> m = Ret y"
  by (cases m) auto

lemma wrap_err_eq_Panic [simp]: "wrap_err c m = Panic \<longleftrightarrow> m = Panic"
  by (cases m) auto

lemma wrap_err_eq_Err: "wrap_err c m = Err e \<longleftrightarrow> (\<exists>e'. m = Err e' \<and> e = Wrap c e')"
  by (cases m) auto

lemma index_in [simp]: "i < length xs \<Longrightarrow> index xs (int i) = Ret (xs ! i)"
  by (simp add: index_def)

lemma index_eq_Panic: "index xs i = Panic \<longleftrightarrow> i < 0 \<or> int (length xs) \<le> i"
  by (auto simp: index_def)

lemma index_not_Err [simp]: "index xs i \<noteq> Err e"
  by (simp add: index_def)

lemma is_ret_iff: "is_ret m \<longleftrightarrow> (\<exists>x. m = Ret x)"
  by (cases m) auto

subsection \<open>Loops with an early return\<close>

fun traverse :: "('a \<Rightarrow> 'b go) \<Rightarrow> 'a list \<Rightarrow> 'b list go" where
  "traverse f [] = Ret []"
| "traverse f (x # xs) = bind_go (f x) (\<lambda>y. bind_go (traverse f xs) (\<lambda>ys. Ret (y # ys)))"

lemma traverse_eq_Ret: "traverse f xs = Ret ys \<longleftrightarrow> list_all2 (\<lambda>x y. f x = Ret y) xs ys"
proof (induction xs arbitrary: ys)
  case Nil
  show ?case by auto
next
  case (Cons x xs)
  show ?case
    by (cases ys) (auto simp: bind_go_eq_Ret Cons.IH)
qed

lemma traverse_length: "traverse f xs = Ret ys \<Longrightarrow> length ys = length xs"
  by (auto simp: traverse_eq_Ret dest: list_all2_lengthD)

lemma traverse_map: "traverse f (map g xs) = traverse (\<lambda>x. f (g x)) xs"
  by (induction xs) simp_all

lemma traverse_map_inverse:
  "(\<And>x. x \<in> set xs \<Longrightarrow> f (g x) = Ret x) \<Longrightarrow> traverse f (map g xs) = Ret xs"
  by (induction xs) auto

lemma traverse_map_Ret:
  "(\<And>x. x \<in> set xs \<Longrightarrow> f x = Ret (g x)) \<Longrightarrow> traverse f xs = Ret (map g xs)"
  by (induction xs) auto

lemma traverse_cong [fundef_cong]:
  "xs = ys \<Longrightarrow> (\<And>x. x \<in> set ys \<Longrightarrow> f x = g x) \<Longrightarrow> traverse f xs = traverse g ys"
  by (induction ys arbitrary: xs) auto

text \<open>The loop stops at the first call that does not return a value, with that call's outcome.\<close>

lemma traverse_first_error:
  "\<forall>x \<in> set xs. is_ret (f x) \<Longrightarrow> f y = Err e \<Longrightarrow> traverse f (xs @ y # ys) = Err e"
  by (induction xs) (auto simp: is_ret_iff)

lemma traverse_ret_all: "is_ret (traverse f xs) \<longleftrightarrow> (\<forall>x \<in> set xs. is_ret (f x))"
  by (induction xs) (auto simp: is_ret_iff bind_go_eq_Ret)

fun traverse_w :: "('w \<Rightarrow> 'a \<Rightarrow> 'b go \<times> 'w) \<Rightarrow> 'w \<Rightarrow> 'a list \<Rightarrow> 'b list go \<times> 'w" where
  "traverse_w f w [] = (Ret [], w)"
| "traverse_w f w (x # xs) =
     (case f w x of
        (Ret y, w') \<Rightarrow>
          (case traverse_w f w' xs of
             (Ret ys, w'') \<Rightarrow> (Ret (y # ys), w'')
           | (Err e, w'') \<Rightarrow> (Err e, w'')
           | (Panic, w'') \<Rightarrow> (Panic, w''))
      | (Err e, w') \<Rightarrow> (Err e, w')
      | (Panic, w') \<Rightarrow> (Panic, w'))"

text \<open>One call after another, with the world threaded through; \<open>bind_w\<close> stops at the first failure.\<close>

fun bind_w :: "'a go \<times> 'w \<Rightarrow> ('a \<Rightarrow> 'w \<Rightarrow> 'b go \<times> 'w) \<Rightarrow> 'b go \<times> 'w" where
  "bind_w (Ret x, w) k = k x w"
| "bind_w (Err e, w) k = (Err e, w)"
| "bind_w (Panic, w) k = (Panic, w)"

lemma bind_w_eq_Ret: "bind_w m k = (Ret y, w') \<longleftrightarrow> (\<exists>x w. m = (Ret x, w) \<and> k x w = (Ret y, w'))"
  by (cases "(m, k)" rule: bind_w.cases) auto

lemma bind_w_always: "(\<And>x v. is_ret (fst (k x v))) \<Longrightarrow> is_ret (fst (bind_w m k)) \<longleftrightarrow> is_ret (fst m)"
  by (cases "(m, k)" rule: bind_w.cases) auto

lemma traverse_w_Cons_Ret:
  "traverse_w f w (x # xs) = (Ret zs, w') \<longleftrightarrow>
     (\<exists>y ys v. f w x = (Ret y, v) \<and> traverse_w f v xs = (Ret ys, w') \<and> zs = y # ys)"
  by (auto split: prod.splits go.splits)

lemma traverse_w_pure:
  "(\<And>w x. f w x = (g x, w)) \<Longrightarrow> traverse_w f w xs = (traverse g xs, w)"
proof (induction xs)
  case Nil
  then show ?case by simp
next
  case (Cons x xs)
  then show ?case by (cases "g x"; cases "traverse g xs") auto
qed

lemma traverse_w_length: "traverse_w f w xs = (Ret ys, w') \<Longrightarrow> length ys = length xs"
  by (induction xs arbitrary: w ys w') (auto split: go.splits prod.splits)

lemma traverse_w_all:
  assumes "traverse_w f w xs = (Ret ys, w')" and "y \<in> set ys"
  shows "\<exists>v x v'. x \<in> set xs \<and> f v x = (Ret y, v')"
  using assms by (induction xs arbitrary: w ys) (fastforce split: go.splits prod.splits)+

subsection \<open>Codecs\<close>

text \<open>
  The interface between whoever writes a value out (as hex, as base64, as JSON, as an encrypted
  file) and whoever reads it back.  \<open>dom\<close> are the values the writer can be given.
\<close>

locale codec =
  fixes enc :: "'a \<Rightarrow> bytes"
    and dec :: "bytes \<Rightarrow> 'a go"
    and wf :: "'a \<Rightarrow> bool"
  assumes dec_enc: "wf x \<Longrightarrow> dec (enc x) = Ret x"
begin

lemma enc_inj: "wf x \<Longrightarrow> wf y \<Longrightarrow> enc x = enc y \<Longrightarrow> x = y"
  by (metis dec_enc go.inject(1))

lemma dec_all: "list_all wf xs \<Longrightarrow> traverse dec (map enc xs) = Ret xs"
  by (rule traverse_map_inverse) (auto simp: list_all_iff dec_enc)

lemma dec_enc_not_err: "wf x \<Longrightarrow> dec (enc x) \<noteq> Err e"
  by (simp add: dec_enc)

end

subsection \<open>Generic list lemmas\<close>

lemma of_char_less_256 [simp]: "(of_char c :: nat) < 256"
proof -
  have "(of_char c :: nat) = of_char c mod 256" by simp
  also have "\<dots> < 256" by (rule mod_less_divisor) simp
  finally show ?thesis .
qed

lemma take_filter_prefix: "\<exists>ys. filter P xs = take n (filter P xs) @ ys"
  by (metis append_take_drop_id)

lemma length_filter_eq_all: "length (filter P xs) = length xs \<longleftrightarrow> (\<forall>x \<in> set xs. P x)"
  by (metis filter_True length_filter_less nat_neq_iff)

end
