(* ===== verification/Go_Strconv.thy ===== *)
theory Go_Strconv
  imports Prelude
begin

text \<open>
  The part of Go's \<open>strconv\<close> and of \<open>fmt\<close>'s \<open>%d\<close> that the program uses: decimal printing,
  \<open>ParseUint(s, 10, bits)\<close> and \<open>Atoi\<close> on a 64-bit platform, with their results on malformed and on
  out-of-range text.  The signer takes its own identity (\<open>SIGNER_ID\<close>) and the receiver of a key
  share (the last part of \<open>/dkg/round2/N\<close>) through these functions.
\<close>

definition digit :: "nat \<Rightarrow> char" where
  "digit d = char_of (48 + d)"

definition digit_val :: "char \<Rightarrow> nat option" where
  "digit_val c = (let n = of_char c :: nat in if 48 \<le> n \<and> n \<le> 57 then Some (n - 48) else None)"

fun show_nat :: "nat \<Rightarrow> string" where
  "show_nat n = (if n < 10 then [digit n] else show_nat (n div 10) @ [digit (n mod 10)])"

declare show_nat.simps [simp del]

definition show_int :: "int \<Rightarrow> string" where
  "show_int i = (if i < 0 then CHR ''-'' # show_nat (nat (- i)) else show_nat (nat i))"

subsection \<open>ParseUint\<close>

text \<open>
  The loop of \<open>ParseUint\<close>: a byte that is no digit is a syntax error, and the first digit that
  takes the value past \<open>2^bits - 1\<close> is a range error, whichever comes first.
\<close>

datatype num_error = BadSyntax | OutOfRange

fun parse_digits :: "nat \<Rightarrow> nat \<Rightarrow> string \<Rightarrow> num_error + nat" where
  "parse_digits mx n [] = Inr n"
| "parse_digits mx n (c # cs) =
     (case digit_val c of
        None \<Rightarrow> Inl BadSyntax
      | Some d \<Rightarrow> (if mx < n * 10 + d then Inl OutOfRange else parse_digits mx (n * 10 + d) cs))"

definition ParseUint :: "nat \<Rightarrow> string \<Rightarrow> num_error + nat" where
  "ParseUint bits s = (if s = [] then Inl BadSyntax else parse_digits (2 ^ bits - 1) 0 s)"

subsection \<open>Atoi\<close>

text \<open>
  \<open>Atoi\<close> returns a value and an error: 0 with a syntax error, the nearest \<open>int64\<close> with a range error.
\<close>

definition Atoi :: "string \<Rightarrow> int \<times> num_error option" where
  "Atoi s =
     (let neg = (s \<noteq> [] \<and> hd s = CHR ''-'');
          body = (if s \<noteq> [] \<and> (hd s = CHR ''-'' \<or> hd s = CHR ''+'') then tl s else s)
      in case ParseUint 64 body of
           Inl BadSyntax \<Rightarrow> (0, Some BadSyntax)
         | Inl OutOfRange \<Rightarrow> (if neg then - (2 ^ 63) else 2 ^ 63 - 1, Some OutOfRange)
         | Inr n \<Rightarrow>
             (if \<not> neg \<and> 2 ^ 63 \<le> n then (2 ^ 63 - 1, Some OutOfRange)
              else if neg \<and> 2 ^ 63 < n then (- (2 ^ 63), Some OutOfRange)
              else (if neg then - int n else int n, None)))"

definition num_error_text :: "string \<Rightarrow> string \<Rightarrow> num_error \<Rightarrow> string" where
  "num_error_text fn s e =
     ''strconv.'' @ fn @ '': parsing '' @ [CHR 0x22] @ s @ [CHR 0x22] @ '': '' @
     (case e of BadSyntax \<Rightarrow> ''invalid syntax'' | OutOfRange \<Rightarrow> ''value out of range'')"

subsection \<open>Laws\<close>

lemma digit_val_digit [simp]: "d < 10 \<Longrightarrow> digit_val (digit d) = Some d"
  by (simp add: digit_val_def digit_def Let_def)

lemma digit_val_less: "digit_val c = Some d \<Longrightarrow> d < 10"
  by (auto simp: digit_val_def Let_def split: if_splits)

lemma digit_digit_val: "digit_val c = Some d \<Longrightarrow> c = digit d"
  by (auto simp: digit_val_def digit_def Let_def split: if_splits)

lemma show_nat_nonempty [simp]: "show_nat n \<noteq> []"
  by (subst show_nat.simps) simp

lemma show_nat_digits: "c \<in> set (show_nat n) \<Longrightarrow> \<exists>d < 10. c = digit d"
proof (induction n rule: show_nat.induct)
  case (1 n)
  show ?case
  proof (cases "n < 10")
    case True
    with 1 show ?thesis by (auto simp: show_nat.simps [of n])
  next
    case False
    have "n mod 10 < 10" by simp
    with False 1 show ?thesis by (fastforce simp: show_nat.simps [of n])
  qed
qed

lemma parse_digits_append:
  "parse_digits mx n (xs @ ys) =
     (case parse_digits mx n xs of Inl e \<Rightarrow> Inl e | Inr m \<Rightarrow> parse_digits mx m ys)"
  by (induction xs arbitrary: n) (auto split: option.splits)

lemma parse_digits_show: "n \<le> mx \<Longrightarrow> parse_digits mx 0 (show_nat n) = Inr n"
proof (induction n rule: show_nat.induct)
  case (1 n)
  show ?case
  proof (cases "n < 10")
    case True
    with 1 show ?thesis by (simp add: show_nat.simps [of n])
  next
    case False
    have "n div 10 \<le> mx" using "1.prems" by (meson div_le_dividend le_trans)
    with False 1 show ?thesis
      by (simp add: show_nat.simps [of n] parse_digits_append)
  qed
qed

lemma parse_digits_too_big: "mx < n \<Longrightarrow> parse_digits mx 0 (show_nat n) = Inl OutOfRange"
proof (induction n rule: show_nat.induct)
  case (1 n)
  show ?case
  proof (cases "n < 10")
    case True
    with 1 show ?thesis by (simp add: show_nat.simps [of n])
  next
    case False
    show ?thesis
    proof (cases "mx < n div 10")
      case True
      with False 1 show ?thesis by (simp add: show_nat.simps [of n] parse_digits_append)
    next
      case nlt: False
      then have "parse_digits mx 0 (show_nat (n div 10)) = Inr (n div 10)"
        by (simp add: parse_digits_show)
      with False "1.prems" show ?thesis
        by (simp add: show_nat.simps [of n] parse_digits_append)
    qed
  qed
qed

lemma parse_digits_bound: "parse_digits mx n s = Inr m \<Longrightarrow> n \<le> mx \<Longrightarrow> m \<le> mx"
  by (induction s arbitrary: n) (auto split: option.splits if_splits)

lemma ParseUint_show:
  "ParseUint bits (show_nat n) = (if n < 2 ^ bits then Inr n else Inl OutOfRange)"
proof -
  have "n \<le> 2 ^ bits - 1 \<longleftrightarrow> n < 2 ^ bits"
    using zero_less_power [of "2::nat" bits] by linarith
  then show ?thesis
    by (auto simp: ParseUint_def parse_digits_show parse_digits_too_big not_less)
qed

lemma ParseUint_bound: "ParseUint bits s = Inr n \<Longrightarrow> n < 2 ^ bits"
proof -
  assume "ParseUint bits s = Inr n"
  then have "parse_digits (2 ^ bits - 1) 0 s = Inr n"
    by (simp add: ParseUint_def split: if_splits)
  then have "n \<le> 2 ^ bits - 1" by (rule parse_digits_bound) simp
  moreover have "(0::nat) < 2 ^ bits" by simp
  ultimately show "n < 2 ^ bits" by linarith
qed

lemma hd_show_nat: "hd (show_nat n) \<noteq> CHR ''-''" "hd (show_nat n) \<noteq> CHR ''+''"
proof -
  obtain d where "hd (show_nat n) = digit d" "d < 10"
    using show_nat_digits [of "hd (show_nat n)" n] by auto
  moreover have "digit d \<noteq> CHR ''-''" "digit d \<noteq> CHR ''+''" if "d < 10" for d
    using digit_val_digit [OF that] by (auto simp: digit_val_def)
  ultimately show "hd (show_nat n) \<noteq> CHR ''-''" "hd (show_nat n) \<noteq> CHR ''+''" by auto
qed

lemma Atoi_show: "n < 2 ^ 63 \<Longrightarrow> Atoi (show_nat n) = (int n, None)"
proof -
  assume n: "n < 2 ^ 63"
  then have "ParseUint 64 (show_nat n) = Inr n" by (simp add: ParseUint_show)
  with n show ?thesis
    unfolding Atoi_def Let_def by (simp only: hd_show_nat show_nat_nonempty) (simp add: not_le)
qed

lemma Atoi_not_a_number:
  "digit_val c = None \<Longrightarrow> c \<noteq> CHR ''-'' \<Longrightarrow> c \<noteq> CHR ''+'' \<Longrightarrow>
     Atoi (c # s) = (0, Some BadSyntax)"
  by (simp add: Atoi_def ParseUint_def)

lemma Atoi_BadSyntax: "Atoi s = (n, Some BadSyntax) \<Longrightarrow> n = 0"
  by (auto simp: Atoi_def Let_def split: sum.splits num_error.splits if_splits)

lemma Atoi_empty: "Atoi [] = (0, Some BadSyntax)"
  by (simp add: Atoi_def ParseUint_def)

end
