(* ===== verification/Go_Encoding.thy ===== *)
theory Go_Encoding
  imports Prelude
begin

text \<open>
  \<open>encoding/hex\<close> and the unpadded URL alphabet of \<open>encoding/base64\<close>, byte for byte.  Hex carries
  scalars, group elements, nonces and ciphertexts between the components; base64 makes the three
  parts of a JWT.
\<close>

subsection \<open>Hexadecimal\<close>

definition hex_digit :: "nat \<Rightarrow> char" where
  "hex_digit n = (if n < 10 then char_of (48 + n) else char_of (87 + n))"

definition hex_val :: "char \<Rightarrow> nat option" where
  "hex_val c =
     (let n = of_char c :: nat in
      if 48 \<le> n \<and> n \<le> 57 then Some (n - 48)
      else if 97 \<le> n \<and> n \<le> 102 then Some (n - 87)
      else if 65 \<le> n \<and> n \<le> 70 then Some (n - 55)
      else None)"

fun hex_EncodeToString :: "bytes \<Rightarrow> string" where
  "hex_EncodeToString [] = []"
| "hex_EncodeToString (b # bs) =
     hex_digit (of_char b div 16) # hex_digit (of_char b mod 16) # hex_EncodeToString bs"

definition hex_bad_byte :: error where
  "hex_bad_byte = Msg ''encoding/hex: invalid byte''"

definition hex_bad_length :: error where
  "hex_bad_length = Msg ''encoding/hex: odd length hex string''"

text \<open>\<open>DecodeString\<close> takes both cases, and looks at a lone last byte before it reports the length.\<close>

fun hex_DecodeString :: "string \<Rightarrow> bytes go" where
  "hex_DecodeString [] = Ret []"
| "hex_DecodeString [c] = (case hex_val c of None \<Rightarrow> Err hex_bad_byte | Some _ \<Rightarrow> Err hex_bad_length)"
| "hex_DecodeString (c # d # cs) =
     (case hex_val c of
        None \<Rightarrow> Err hex_bad_byte
      | Some x \<Rightarrow>
          (case hex_val d of
             None \<Rightarrow> Err hex_bad_byte
           | Some y \<Rightarrow> bind_go (hex_DecodeString cs) (\<lambda>bs. Ret (char_of (16 * x + y) # bs))))"

lemma hex_val_digit [simp]: "n < 16 \<Longrightarrow> hex_val (hex_digit n) = Some n"
  by (auto simp: hex_val_def hex_digit_def Let_def)

lemma byte_split [simp]: "(of_char (c :: char) div 16 :: nat) < 16"
  by (rule less_mult_imp_div_less) simp

lemma hex_decode_encode: "hex_DecodeString (hex_EncodeToString bs) = Ret bs"
  by (induction bs) (simp_all add: mult.commute [of 16])

lemma hex_digit_ascii: "n < 16 \<Longrightarrow> (of_char (hex_digit n) :: nat) < 128"
  by (auto simp: hex_digit_def)

lemma hex_encode_ascii: "\<forall>c \<in> set (hex_EncodeToString bs). (of_char c :: nat) < 128"
  by (induction bs) (auto simp: hex_digit_ascii)

lemma hex_encode_length [simp]: "length (hex_EncodeToString bs) = 2 * length bs"
  by (induction bs) auto

lemma hex_decode_length: "hex_DecodeString s = Ret bs \<Longrightarrow> length s = 2 * length bs"
  by (induction s arbitrary: bs rule: hex_DecodeString.induct)
     (auto split: option.splits simp: bind_go_eq_Ret)

lemma hex_decode_no_panic [simp]: "hex_DecodeString s \<noteq> Panic"
  by (induction s rule: hex_DecodeString.induct)
     (auto split: option.splits simp: bind_go_eq_Panic)

lemma hex_decode_ret_iff:
  "is_ret (hex_DecodeString s) \<longleftrightarrow> even (length s) \<and> (\<forall>c \<in> set s. hex_val c \<noteq> None)"
  by (induction s rule: hex_DecodeString.induct)
     (auto split: option.splits simp: is_ret_iff bind_go_eq_Ret)

interpretation hex: codec hex_EncodeToString hex_DecodeString "\<lambda>_. True"
  by unfold_locales (rule hex_decode_encode)

subsection \<open>Base64, URL alphabet, no padding\<close>

definition b64_char :: "nat \<Rightarrow> char" where
  "b64_char n =
     (if n < 26 then char_of (65 + n)
      else if n < 52 then char_of (71 + n)
      else if n < 62 then char_of (n - 4)
      else if n = 62 then CHR ''-'' else CHR ''_'')"

fun b64_RawURL_encode :: "bytes \<Rightarrow> string" where
  "b64_RawURL_encode (a # b # c # bs) =
     (let n = of_char a * 65536 + of_char b * 256 + of_char c :: nat
      in b64_char (n div 262144) # b64_char (n div 4096 mod 64) # b64_char (n div 64 mod 64) #
         b64_char (n mod 64) # b64_RawURL_encode bs)"
| "b64_RawURL_encode [a, b] =
     (let n = of_char a * 65536 + of_char b * 256 :: nat
      in [b64_char (n div 262144), b64_char (n div 4096 mod 64), b64_char (n div 64 mod 64)])"
| "b64_RawURL_encode [a] =
     (let n = of_char a * 65536 :: nat
      in [b64_char (n div 262144), b64_char (n div 4096 mod 64)])"
| "b64_RawURL_encode [] = []"

text \<open>
  The reader that a verifier of the token applies to each part; no code of the repository decodes
  base64, so this is specification only.
\<close>

definition b64_val :: "char \<Rightarrow> nat option" where
  "b64_val c =
     (let n = of_char c :: nat in
      if 65 \<le> n \<and> n \<le> 90 then Some (n - 65)
      else if 97 \<le> n \<and> n \<le> 122 then Some (n - 71)
      else if 48 \<le> n \<and> n \<le> 57 then Some (n + 4)
      else if c = CHR ''-'' then Some 62
      else if c = CHR ''_'' then Some 63
      else None)"

definition b64_error :: error where
  "b64_error = Msg ''illegal base64 data''"

fun b64_RawURL_decode :: "string \<Rightarrow> bytes go" where
  "b64_RawURL_decode (p # q # r # s # cs) =
     (case (b64_val p, b64_val q, b64_val r, b64_val s) of
        (Some w, Some x, Some y, Some z) \<Rightarrow>
          bind_go (b64_RawURL_decode cs) (\<lambda>bs.
            let n = w * 262144 + x * 4096 + y * 64 + z
            in Ret (char_of (n div 65536) # char_of (n div 256 mod 256) # char_of (n mod 256) # bs))
      | _ \<Rightarrow> Err b64_error)"
| "b64_RawURL_decode [p, q, r] =
     (case (b64_val p, b64_val q, b64_val r) of
        (Some w, Some x, Some y) \<Rightarrow>
          (let n = w * 262144 + x * 4096 + y * 64
           in Ret [char_of (n div 65536), char_of (n div 256 mod 256)])
      | _ \<Rightarrow> Err b64_error)"
| "b64_RawURL_decode [p, q] =
     (case (b64_val p, b64_val q) of
        (Some w, Some x) \<Rightarrow> Ret [char_of ((w * 262144 + x * 4096) div 65536)]
      | _ \<Rightarrow> Err b64_error)"
| "b64_RawURL_decode [p] = Err b64_error"
| "b64_RawURL_decode [] = Ret []"

lemma b64_val_char [simp]: "n < 64 \<Longrightarrow> b64_val (b64_char n) = Some n"
proof -
  assume "n < 64"
  then consider "n < 26" | "26 \<le> n" "n < 52" | "52 \<le> n" "n < 62" | "n = 62" | "n = 63"
    by linarith
  then show ?thesis
    by cases (auto simp: b64_val_def b64_char_def Let_def)
qed

lemma char_of_mod: "(m :: nat) mod 256 = of_char c \<Longrightarrow> char_of m = c"
  by (simp add: char_of_eq_iff take_bit_eq_mod)

lemma recompose:
  "n = q * 64 + a \<Longrightarrow> q = r * 64 + b \<Longrightarrow> r = d * 64 + c \<Longrightarrow>
     d * 262144 + c * 4096 + b * 64 + a = (n :: nat)"
  by simp

lemma sextets:
  fixes n :: nat
  shows "n div 262144 * 262144 + n div 4096 mod 64 * 4096 + n div 64 mod 64 * 64 + n mod 64 = n"
proof (rule recompose)
  show "n = n div 64 * 64 + n mod 64" by simp
  have "n div 4096 = n div 64 div 64" by (simp add: div_mult2_eq [symmetric])
  then show "n div 64 = n div 4096 * 64 + n div 64 mod 64" by simp
  have "n div 262144 = n div 4096 div 64" by (simp add: div_mult2_eq [symmetric])
  then show "n div 4096 = n div 262144 * 64 + n div 4096 mod 64" by simp
qed

lemma three_bytes:
  fixes x y z :: char
  assumes "n = of_char x * 65536 + of_char y * 256 + (of_char z :: nat)"
  shows "n div 262144 < 64"
    and "char_of (n div 65536) = x" and "char_of (n div 256) = y" and "char_of n = z"
proof -
  have b: "(of_char x :: nat) < 256" "(of_char y :: nat) < 256" "(of_char z :: nat) < 256"
    by simp_all
  have n: "n = (of_char x * 256 + of_char y) * 256 + (of_char z :: nat)"
    using assms by simp
  have "n < 64 * 262144" using b assms by linarith
  then show "n div 262144 < 64" by (rule less_mult_imp_div_less)
  have d: "n div 256 = of_char x * 256 + of_char y"
    by (subst n) (simp only: div_mult_self3 div_less b(3) add_0_right add_0 zero_neq_numeral
        not_False_eq_True)
  have "n div 65536 = n div 256 div 256" by (simp add: div_mult2_eq [symmetric])
  then have "n div 65536 = of_char x" using d b by simp
  then show "char_of (n div 65536) = x" by simp
  show "char_of (n div 256) = y" using d b by (intro char_of_mod) simp
  have "n mod 256 = of_char z" by (subst n) (simp only: mod_mult_self3 of_char_mod_256)
  then show "char_of n = z" by (rule char_of_mod)
qed

text \<open>One group of 24 bits, as four, three or two characters.\<close>

lemma b64_decode_group:
  fixes n :: nat
  assumes n: "n = of_char x * 65536 + of_char y * 256 + of_char z"
  shows "b64_RawURL_decode (b64_char (n div 262144) # b64_char (n div 4096 mod 64) #
           b64_char (n div 64 mod 64) # b64_char (n mod 64) # cs) =
         bind_go (b64_RawURL_decode cs) (\<lambda>bs. Ret (x # y # z # bs))"
    and "n mod 64 = 0 \<Longrightarrow> b64_RawURL_decode [b64_char (n div 262144),
           b64_char (n div 4096 mod 64), b64_char (n div 64 mod 64)] = Ret [x, y]"
    and "n mod 4096 = 0 \<Longrightarrow>
         b64_RawURL_decode [b64_char (n div 262144), b64_char (n div 4096 mod 64)] = Ret [x]"
proof -
  note tb = three_bytes [OF n]
  show "b64_RawURL_decode (b64_char (n div 262144) # b64_char (n div 4096 mod 64) #
           b64_char (n div 64 mod 64) # b64_char (n mod 64) # cs) =
         bind_go (b64_RawURL_decode cs) (\<lambda>bs. Ret (x # y # z # bs))"
    by (simp add: Let_def sextets tb)
  show "b64_RawURL_decode [b64_char (n div 262144), b64_char (n div 4096 mod 64),
          b64_char (n div 64 mod 64)] = Ret [x, y]" if "n mod 64 = 0"
    using that sextets [of n] by (simp add: Let_def tb)
  show "b64_RawURL_decode [b64_char (n div 262144), b64_char (n div 4096 mod 64)] = Ret [x]"
    if z: "n mod 4096 = 0"
  proof -
    from z have "n div 4096 * 64 = n div 64" "n mod 64 = 0" "n div 64 mod 64 = 0"
      by (auto elim!: dvdE simp: mod_eq_0_iff_dvd)
    with sextets [of n] have "n div 262144 * 262144 + n div 4096 mod 64 * 4096 = n" by linarith
    then show ?thesis by (simp add: Let_def tb)
  qed
qed

lemma b64_decode_encode: "b64_RawURL_decode (b64_RawURL_encode bs) = Ret bs"
proof (induction bs rule: b64_RawURL_encode.induct)
  case (1 a b c bs)
  then show ?case by (simp only: b64_RawURL_encode.simps Let_def b64_decode_group [OF refl] bind_go.simps)
next
  case (2 a b)
  have n: "of_char a * 65536 + of_char b * 256 =
      of_char a * 65536 + of_char b * 256 + (of_char (CHR 0x00) :: nat)" by simp
  have "(of_char a * 65536 + of_char b * 256) mod 64 = (0 :: nat)"
    by (simp add: mod_add_left_eq [symmetric] mod_eq_0_iff_dvd dvd_add dvd_mult)
  with b64_decode_group(2) [OF n] show ?case by (simp only: b64_RawURL_encode.simps Let_def)
next
  case (3 a)
  have n: "of_char a * 65536 =
      of_char a * 65536 + of_char (CHR 0x00) * 256 + (of_char (CHR 0x00) :: nat)" by simp
  have "of_char a * 65536 mod 4096 = (0 :: nat)" by (simp add: mod_eq_0_iff_dvd dvd_mult)
  with b64_decode_group(3) [OF n] show ?case by (simp only: b64_RawURL_encode.simps Let_def)
next
  case 4
  show ?case by simp
qed

lemma b64_char_no_dot: "b64_char n \<noteq> CHR ''.''"
proof (cases "n < 64")
  case True
  have "b64_val (CHR ''.'') = None" by (simp add: b64_val_def)
  with b64_val_char [OF True] show ?thesis by auto
qed (simp add: b64_char_def)

lemma b64_no_dot: "CHR ''.'' \<notin> set (b64_RawURL_encode bs)"
  by (induction bs rule: b64_RawURL_encode.induct)
     (auto simp: Let_def b64_char_no_dot [symmetric])

lemma b64_char_ascii: "(of_char (b64_char n) :: nat) < 128"
  by (auto simp: b64_char_def)

lemma b64_encode_ascii: "\<forall>c \<in> set (b64_RawURL_encode bs). (of_char c :: nat) < 128"
  by (induction bs rule: b64_RawURL_encode.induct) (auto simp: Let_def b64_char_ascii)

lemma b64_encode_length:
  "length (b64_RawURL_encode bs) = (4 * length bs + 2) div 3"
  by (induction bs rule: b64_RawURL_encode.induct) (auto simp: Let_def)

interpretation b64: codec b64_RawURL_encode b64_RawURL_decode "\<lambda>_. True"
  by unfold_locales (rule b64_decode_encode)

end
