(* ===== verification/Go_Json.thy ===== *)
theory Go_Json
  imports Go_Strconv Go_Encoding
begin

text \<open>
  \<open>encoding/json\<close> as the program uses it: what \<open>Marshal\<close> and \<open>Encoder.Encode\<close> write, and what
  \<open>Decoder.Decode\<close> and \<open>Unmarshal\<close> accept, as text.  Strings are escaped the way the library escapes
  them (the HTML characters, the control characters, U+2028 and U+2029, invalid UTF-8); struct fields
  are matched by name, then ignoring case; \<open>null\<close> leaves a field as it is; unknown fields are
  skipped; nesting deeper than 10000 is an error.  A member of a parsed object keeps the raw text of
  its value, which \<open>json.RawMessage\<close> copies.  The wording of the library's error texts is not
  modelled, only that there is an error; and a struct that names one slice field twice takes the last.
\<close>

subsection \<open>UTF-8\<close>

definition cont_byte :: "char \<Rightarrow> bool" where
  "cont_byte c = (let n = of_char c :: nat in 128 \<le> n \<and> n < 192)"

text \<open>The length of the rune a byte string starts with; 0 when it does not start with one.\<close>

fun rune_len :: "string \<Rightarrow> nat" where
  "rune_len [] = 0"
| "rune_len (c # cs) =
     (let b = of_char c :: nat in
      if b < 128 then 1
      else if 194 \<le> b \<and> b < 224 then
        (case cs of d # _ \<Rightarrow> if cont_byte d then 2 else 0 | _ \<Rightarrow> 0)
      else if 224 \<le> b \<and> b < 240 then
        (case cs of d # e # _ \<Rightarrow>
           if cont_byte d \<and> cont_byte e \<and> (b = 224 \<longrightarrow> 160 \<le> (of_char d :: nat)) \<and>
              (b = 237 \<longrightarrow> (of_char d :: nat) < 160) then 3 else 0
         | _ \<Rightarrow> 0)
      else if 240 \<le> b \<and> b < 245 then
        (case cs of d # e # f # _ \<Rightarrow>
           if cont_byte d \<and> cont_byte e \<and> cont_byte f \<and> (b = 240 \<longrightarrow> 144 \<le> (of_char d :: nat)) \<and>
              (b = 244 \<longrightarrow> (of_char d :: nat) < 144) then 4 else 0
         | _ \<Rightarrow> 0)
      else 0)"

function valid_utf8 :: "string \<Rightarrow> bool" where
  "valid_utf8 [] = True"
| "valid_utf8 (c # cs) =
     (rune_len (c # cs) \<noteq> 0 \<and> valid_utf8 (drop (rune_len (c # cs) - 1) cs))"
  by pat_completeness auto
termination by (relation "measure length") auto

definition replacement :: string where
  "replacement = [CHR 0xEF, CHR 0xBF, CHR 0xBD]"

definition utf8_encode :: "nat \<Rightarrow> string" where
  "utf8_encode n =
     (if n < 128 then [char_of n]
      else if n < 2048 then [char_of (192 + n div 64), char_of (128 + n mod 64)]
      else if 55296 \<le> n \<and> n < 57344 \<or> 1114112 \<le> n then replacement
      else if n < 65536 then
        [char_of (224 + n div 4096), char_of (128 + n div 64 mod 64), char_of (128 + n mod 64)]
      else [char_of (240 + n div 262144), char_of (128 + n div 4096 mod 64),
            char_of (128 + n div 64 mod 64), char_of (128 + n mod 64)])"

subsection \<open>Strings\<close>

abbreviation quote_char :: char where "quote_char \<equiv> CHR 0x22"

text \<open>A string literal as it stands in a JSON text.\<close>

definition dquote :: "string \<Rightarrow> string" where
  "dquote s = [quote_char] @ s @ [quote_char]"
abbreviation backslash :: char where "backslash \<equiv> CHR 0x5C"

definition esc_byte :: "char \<Rightarrow> string" where
  "esc_byte c =
     (if c = quote_char \<or> c = backslash then [backslash, c]
      else if c = CHR 0x08 then [backslash, CHR ''b'']
      else if c = CHR 0x0C then [backslash, CHR ''f'']
      else if c = CHR 0x0A then [backslash, CHR ''n'']
      else if c = CHR 0x0D then [backslash, CHR ''r'']
      else if c = CHR 0x09 then [backslash, CHR ''t'']
      else if (of_char c :: nat) < 32 \<or> c = CHR ''<'' \<or> c = CHR ''>'' \<or> c = CHR ''&'' then
        [backslash, CHR ''u'', CHR ''0'', CHR ''0'',
         hex_digit (of_char c div 16), hex_digit (of_char c mod 16)]
      else [c])"

definition esc_rune :: "string \<Rightarrow> string" where
  "esc_rune r =
     (if r = [CHR 0xE2, CHR 0x80, CHR 0xA8] then backslash # ''u2028''
      else if r = [CHR 0xE2, CHR 0x80, CHR 0xA9] then backslash # ''u2029''
      else r)"

function encode_chars :: "string \<Rightarrow> string" where
  "encode_chars [] = []"
| "encode_chars (c # cs) =
     (let n = rune_len (c # cs) in
      if n = 0 then backslash # ''ufffd'' @ encode_chars cs
      else if n = 1 then esc_byte c @ encode_chars cs
      else esc_rune (take n (c # cs)) @ encode_chars (drop (n - 1) cs))"
  by pat_completeness auto
termination by (relation "measure length") auto

text \<open>\<open>u4 s\<close> reads four hexadecimal digits.\<close>

fun u4 :: "string \<Rightarrow> nat option" where
  "u4 (a # b # c # d # _) =
     (case (hex_val a, hex_val b, hex_val c, hex_val d) of
        (Some w, Some x, Some y, Some z) \<Rightarrow> Some (4096 * w + 256 * x + 16 * y + z)
      | _ \<Rightarrow> None)"
| "u4 _ = None"

definition unescape :: "char \<Rightarrow> char option" where
  "unescape e =
     (if e = quote_char \<or> e = backslash \<or> e = CHR ''/'' then Some e
      else if e = CHR ''b'' then Some (CHR 0x08)
      else if e = CHR ''f'' then Some (CHR 0x0C)
      else if e = CHR ''n'' then Some (CHR 0x0A)
      else if e = CHR ''r'' then Some (CHR 0x0D)
      else if e = CHR ''t'' then Some (CHR 0x09)
      else None)"

text \<open>The low surrogate that may follow a high one, as \<open>\uXXXX\<close>.\<close>

fun low_surrogate :: "string \<Rightarrow> nat option" where
  "low_surrogate (a # b # r) =
     (if a = backslash \<and> b = CHR ''u'' then
        (case u4 r of Some n \<Rightarrow> if 56320 \<le> n \<and> n < 57344 then Some n else None | None \<Rightarrow> None)
      else None)"
| "low_surrogate _ = None"

abbreviation push :: "string \<Rightarrow> (string \<times> string) option \<Rightarrow> (string \<times> string) option" where
  "push x \<equiv> map_option (\<lambda>(s, r). (x @ s, r))"

text \<open>
  The body of a string after its opening quote: the bytes it denotes and the text after the
  closing quote.
\<close>

function decode_chars :: "string \<Rightarrow> (string \<times> string) option" where
  "decode_chars [] = None"
| "decode_chars (c # cs) =
     (if c = quote_char then Some ([], cs)
      else if c = backslash then
        (case cs of
           [] \<Rightarrow> None
         | e # r \<Rightarrow>
             (if e = CHR ''u'' then
                (case u4 r of
                   None \<Rightarrow> None
                 | Some n \<Rightarrow>
                     (if 55296 \<le> n \<and> n < 57344 then
                        (case (if n < 56320 then low_surrogate (drop 4 r) else None) of
                           Some m \<Rightarrow>
                             push (utf8_encode (65536 + (n - 55296) * 1024 + (m - 56320)))
                               (decode_chars (drop 10 r))
                         | None \<Rightarrow> push replacement (decode_chars (drop 4 r)))
                      else push (utf8_encode n) (decode_chars (drop 4 r))))
              else (case unescape e of
                      None \<Rightarrow> None
                    | Some x \<Rightarrow> push [x] (decode_chars r))))
      else if (of_char c :: nat) < 32 then None
      else (let n = rune_len (c # cs) in
            if n = 0 then push replacement (decode_chars cs)
            else push (take n (c # cs)) (decode_chars (drop (n - 1) cs))))"
  by pat_completeness auto
termination by (relation "measure length") auto

declare encode_chars.simps [simp del] decode_chars.simps [simp del]

subsection \<open>Numbers\<close>

definition is_digit :: "char \<Rightarrow> bool" where
  "is_digit c = (digit_val c \<noteq> None)"

fun int_part :: "string \<Rightarrow> (string \<times> string) option" where
  "int_part [] = None"
| "int_part (c # r) =
     (if c = CHR ''0'' then Some ([c], r)
      else if is_digit c then Some (c # takeWhile is_digit r, dropWhile is_digit r)
      else None)"

fun frac_part :: "string \<Rightarrow> (string \<times> string) option" where
  "frac_part [] = Some ([], [])"
| "frac_part (c # r) =
     (if c = CHR ''.'' then
        (if takeWhile is_digit r = [] then None
         else Some (c # takeWhile is_digit r, dropWhile is_digit r))
      else Some ([], c # r))"

fun exp_part :: "string \<Rightarrow> (string \<times> string) option" where
  "exp_part [] = Some ([], [])"
| "exp_part (c # r) =
     (if c = CHR ''e'' \<or> c = CHR ''E'' then
        (let (sg, r1) = (case r of x # y \<Rightarrow> if x = CHR ''+'' \<or> x = CHR ''-'' then ([x], y) else ([], r)
                         | [] \<Rightarrow> ([], r))
         in if takeWhile is_digit r1 = [] then None
            else Some (c # sg @ takeWhile is_digit r1, dropWhile is_digit r1))
      else Some ([], c # r))"

definition parse_number :: "string \<Rightarrow> (string \<times> string) option" where
  "parse_number s =
     (let (sg, s1) = (case s of c # r \<Rightarrow> if c = CHR ''-'' then ([c], r) else ([], s) | [] \<Rightarrow> ([], s))
      in case int_part s1 of
           None \<Rightarrow> None
         | Some (ip, s2) \<Rightarrow>
             (case frac_part s2 of
                None \<Rightarrow> None
              | Some (fp, s3) \<Rightarrow>
                  (case exp_part s3 of
                     None \<Rightarrow> None
                   | Some (ep, s4) \<Rightarrow> Some (sg @ ip @ fp @ ep, s4))))"

subsection \<open>Values\<close>

datatype json =
    JNull
  | JBool bool
  | JNum string
  | JStr string
  | JArr "json list"
  | JObj "(string \<times> string \<times> json) list"

definition quoted :: "string \<Rightarrow> string" where
  "quoted s = quote_char # encode_chars s @ [quote_char]"

fun print_json :: "json \<Rightarrow> string"
  and print_elems :: "json list \<Rightarrow> string"
  and print_members :: "(string \<times> string \<times> json) list \<Rightarrow> string" where
  "print_json JNull = ''null''"
| "print_json (JBool b) = (if b then ''true'' else ''false'')"
| "print_json (JNum t) = t"
| "print_json (JStr s) = quoted s"
| "print_json (JArr js) = CHR ''['' # print_elems js @ '']''"
| "print_json (JObj ms) = CHR ''{'' # print_members ms @ ''}''"
| "print_elems [] = []"
| "print_elems (j # js) = print_json j @ (if js = [] then [] else CHR '','' # print_elems js)"
| "print_members [] = []"
| "print_members ((k, _, v) # ms) =
     quoted k @ CHR '':'' # print_json v @ (if ms = [] then [] else CHR '','' # print_members ms)"

definition is_space :: "char \<Rightarrow> bool" where
  "is_space c = (c = CHR '' '' \<or> c = CHR 0x09 \<or> c = CHR 0x0A \<or> c = CHR 0x0D)"

abbreviation skip_ws :: "string \<Rightarrow> string" where
  "skip_ws \<equiv> dropWhile is_space"

definition strip :: "string \<Rightarrow> string \<Rightarrow> string option" where
  "strip p s = (if take (length p) s = p then Some (drop (length p) s) else None)"

definition literal :: "string \<Rightarrow> (json \<times> string) option" where
  "literal s =
     (case strip ''true'' s of
        Some r \<Rightarrow> Some (JBool True, r)
      | None \<Rightarrow>
          (case strip ''false'' s of
             Some r \<Rightarrow> Some (JBool False, r)
           | None \<Rightarrow>
               (case strip ''null'' s of
                  Some r \<Rightarrow> Some (JNull, r)
                | None \<Rightarrow> map_option (\<lambda>(t, r). (JNum t, r)) (parse_number s))))"

text \<open>
  The parser: the first argument is fuel, the second the nesting that is left.  Each text it is
  called on has no leading white space.
\<close>

fun parse_value :: "nat \<Rightarrow> nat \<Rightarrow> string \<Rightarrow> (json \<times> string) option"
  and parse_elems :: "nat \<Rightarrow> nat \<Rightarrow> string \<Rightarrow> (json list \<times> string) option"
  and parse_members :: "nat \<Rightarrow> nat \<Rightarrow> string \<Rightarrow> ((string \<times> string \<times> json) list \<times> string) option" where
  "parse_value 0 d s = None"
| "parse_value (Suc k) d s =
     (case s of
        [] \<Rightarrow> None
      | c # r \<Rightarrow>
          (if c = CHR ''{'' then
             (if d = 0 then None
              else (case skip_ws r of
                      [] \<Rightarrow> None
                    | x # y \<Rightarrow>
                        (if x = CHR ''}'' then Some (JObj [], y)
                         else map_option (\<lambda>(ms, t). (JObj ms, t)) (parse_members k (d - 1) (x # y)))))
           else if c = CHR ''['' then
             (if d = 0 then None
              else (case skip_ws r of
                      [] \<Rightarrow> None
                    | x # y \<Rightarrow>
                        (if x = CHR '']'' then Some (JArr [], y)
                         else map_option (\<lambda>(js, t). (JArr js, t)) (parse_elems k (d - 1) (x # y)))))
           else if c = quote_char then map_option (\<lambda>(x, t). (JStr x, t)) (decode_chars r)
           else literal s))"
| "parse_elems 0 d s = None"
| "parse_elems (Suc k) d s =
     (case parse_value k d s of
        None \<Rightarrow> None
      | Some (j, r) \<Rightarrow>
          (case skip_ws r of
             [] \<Rightarrow> None
           | c # t \<Rightarrow>
               (if c = CHR '']'' then Some ([j], t)
                else if c = CHR '','' then
                  map_option (\<lambda>(js, u). (j # js, u)) (parse_elems k d (skip_ws t))
                else None)))"
| "parse_members 0 d s = None"
| "parse_members (Suc k) d s =
     (case s of
        [] \<Rightarrow> None
      | q # r \<Rightarrow>
          (if q \<noteq> quote_char then None
           else (case decode_chars r of
                   None \<Rightarrow> None
                 | Some (key, r1) \<Rightarrow>
                     (case skip_ws r1 of
                        [] \<Rightarrow> None
                      | col # r2 \<Rightarrow>
                          (if col \<noteq> CHR '':'' then None
                           else (let v = skip_ws r2 in
                             (case parse_value k d v of
                                None \<Rightarrow> None
                              | Some (j, r3) \<Rightarrow>
                                  (let raw = take (length v - length r3) v in
                                   (case skip_ws r3 of
                                      [] \<Rightarrow> None
                                    | c # t \<Rightarrow>
                                        (if c = CHR ''}'' then Some ([(key, raw, j)], t)
                                         else if c = CHR '','' then
                                           map_option (\<lambda>(ms, u). ((key, raw, j) # ms, u))
                                             (parse_members k d (skip_ws t))
                                         else None)))))))))) "

declare parse_value.simps(2) [simp del] parse_elems.simps(2) [simp del] parse_members.simps(2) [simp del]

end
