(* ===== verification/Go_Json_Laws.thy ===== *)
theory Go_Json_Laws
  imports Go_Json
begin

text \<open>
  The laws of the JSON text: a valid UTF-8 string survives escaping and unescaping, and a value
  whose numbers were printed from naturals survives printing and parsing, whatever follows it in the
  stream.  The fuel bound that the entry points use is enough.
\<close>

subsection \<open>Strings\<close>

lemma rune_len_le: "rune_len s \<le> length s"
  by (cases s) (auto simp: Let_def split: list.splits)

lemma rune_len_le_4: "rune_len s \<le> 4"
  by (cases s) (auto simp: Let_def split: list.splits)

lemma rune_len_prefix:
  "rune_len s \<noteq> 0 \<Longrightarrow> rune_len (take (rune_len s) s @ t) = rune_len s"
  by (cases s) (auto simp: Let_def split: list.splits if_splits)

lemma rune_len_1: "rune_len (c # cs) = 1 \<longleftrightarrow> (of_char c :: nat) < 128"
  by (auto simp: Let_def split: list.splits if_splits)

lemma rune_len_ge_2: "2 \<le> rune_len (c # cs) \<Longrightarrow> 194 \<le> (of_char c :: nat)"
  by (auto simp: Let_def split: list.splits if_splits)

lemma decode_esc_byte:
  assumes "(of_char c :: nat) < 128"
  shows "decode_chars (esc_byte c @ t) = push [c] (decode_chars t)"
proof -
  have hv: "hex_val (CHR ''0'') = Some 0" by (simp add: hex_val_def)
  have u: "decode_chars (backslash # CHR ''u'' # CHR ''0'' # CHR ''0'' #
      hex_digit (of_char c div 16) # hex_digit (of_char c mod 16) # t) = push [c] (decode_chars t)"
    if "(of_char c :: nat) < 128"
    using that by (simp add: decode_chars.simps hv mult.commute [of 16] utf8_encode_def
        div_mult_mod_eq)
  have p: "decode_chars (c # t) = push [c] (decode_chars t)"
    if "c \<noteq> quote_char" "c \<noteq> backslash" "32 \<le> (of_char c :: nat)"
    using that assms by (simp add: decode_chars.simps)
  have e: "decode_chars (backslash # x # t) = push [c] (decode_chars t)"
    if "x \<noteq> CHR ''u''" "unescape x = Some c" for x
    using that by (simp add: decode_chars.simps)
  show ?thesis
    unfolding esc_byte_def
    by (auto simp: u assms p e unescape_def)
qed

lemma decode_esc_rune:
  assumes "2 \<le> rune_len s"
  shows "decode_chars (esc_rune (take (rune_len s) s) @ t) =
         push (take (rune_len s) s) (decode_chars t)"
proof -
  let ?n = "rune_len s"
  obtain c cs where s: "s = c # cs" using assms by (cases s) auto
  have c: "194 \<le> (of_char c :: nat)" using assms rune_len_ge_2 unfolding s by simp
  then have nc: "c \<noteq> quote_char" "c \<noteq> backslash" "\<not> (of_char c :: nat) < 32" by auto
  have len: "length (take ?n s) = ?n" by (simp add: min_absorb2 rune_len_le)
  obtain r where r: "take ?n s = c # r" "Suc (length r) = ?n"
    using assms len unfolding s by (cases "rune_len (c # cs)") auto
  have pre: "rune_len ((c # r) @ t) = ?n"
    using rune_len_prefix [of s t] assms r by simp
  have plain: "decode_chars ((c # r) @ t) = push (c # r) (decode_chars t)"
  proof -
    have "drop (?n - 1) (r @ t) = t" "take ?n ((c # r) @ t) = c # r"
      by (simp_all add: r(2) [symmetric])
    with nc pre assms show ?thesis by (simp add: decode_chars.simps Let_def)
  qed
  have u2028: "utf8_encode 8232 = [CHR 0xE2, CHR 0x80, CHR 0xA8]"
    "utf8_encode 8233 = [CHR 0xE2, CHR 0x80, CHR 0xA9]"
    by (simp_all add: utf8_encode_def char_of_eq_iff)
  have hv: "hex_val (CHR ''2'') = Some 2" "hex_val (CHR ''0'') = Some 0"
    "hex_val (CHR ''8'') = Some 8" "hex_val (CHR ''9'') = Some 9"
    by (simp_all add: hex_val_def)
  show ?thesis
    using plain unfolding r esc_rune_def
    by (auto simp: decode_chars.simps(2) [of backslash] hv u2028)
qed

lemma decode_encode_chars:
  "valid_utf8 s \<Longrightarrow> decode_chars (encode_chars s @ quote_char # t) = Some (s, t)"
proof (induction s rule: encode_chars.induct)
  case 1
  show ?case by (simp add: encode_chars.simps decode_chars.simps)
next
  case (2 c cs)
  let ?n = "rune_len (c # cs)"
  have v: "?n \<noteq> 0" "valid_utf8 (drop (?n - 1) cs)" using "2.prems" by auto
  show ?case
  proof (cases "?n = 1")
    case True
    with v have "valid_utf8 cs" by simp
    with 2 True have "decode_chars (encode_chars cs @ quote_char # t) = Some (cs, t)" by simp
    moreover have "(of_char c :: nat) < 128" using True rune_len_1 by blast
    ultimately show ?thesis
      using True by (simp add: encode_chars.simps(2) Let_def decode_esc_byte)
  next
    case False
    with v have n: "2 \<le> ?n" by linarith
    with 2 v False have IH:
      "decode_chars (encode_chars (drop (?n - 1) cs) @ quote_char # t) = Some (drop (?n - 1) cs, t)"
      by simp
    have "take ?n (c # cs) @ drop (?n - 1) cs = c # cs"
      using v by (metis append_take_drop_id drop_Cons' One_nat_def diff_is_0_eq' neq0_conv)
    with n v False IH decode_esc_rune [OF n] show ?thesis
      by (simp only: encode_chars.simps(2) Let_def if_False append_assoc) simp
  qed
qed

lemma push_eq_Some: "push x m = Some (y, t) \<longleftrightarrow> (\<exists>z. m = Some (z, t) \<and> y = x @ z)"
  by auto

lemma decode_chars_shorter: "decode_chars s = Some (x, t) \<Longrightarrow> length t < length s"
proof (induction s arbitrary: x rule: length_induct)
  case (1 s)
  show ?case
  proof (cases s)
    case Nil
    with 1 show ?thesis by (simp add: decode_chars.simps)
  next
    case (Cons c cs)
    have dec: "length t < Suc (length cs)"
      if "decode_chars (drop m u) = Some (z, t)" "length u \<le> length cs" for z m u
    proof -
      have "length (drop m u) < length s" using that(2) Cons by simp
      with "1.IH" that(1) have "length t < length (drop m u)" by blast
      with that(2) show ?thesis by simp
    qed
    note dec0 = dec [of 0, simplified]
    from "1.prems" show ?thesis
      unfolding Cons decode_chars.simps(2) Let_def
      by (auto split: if_splits list.splits option.splits simp del: rune_len.simps
          dest!: dec dec0 simp: Cons)
  qed
qed

lemma ascii_valid_utf8: "\<forall>c \<in> set s. (of_char c :: nat) < 128 \<Longrightarrow> valid_utf8 s"
proof (induction s)
  case Nil
  show ?case by simp
next
  case (Cons c cs)
  then have "rune_len (c # cs) = 1" by (simp add: rune_len_1)
  with Cons show ?case by simp
qed

lemma b64_valid_utf8 [simp]: "valid_utf8 (b64_RawURL_encode bs)"
  by (rule ascii_valid_utf8 [OF b64_encode_ascii])

lemma hex_valid_utf8 [simp]: "valid_utf8 (hex_EncodeToString bs)"
  by (rule ascii_valid_utf8 [OF hex_encode_ascii])

subsection \<open>Numbers\<close>

text \<open>What may follow a number without becoming part of it.\<close>

definition stops :: "string \<Rightarrow> bool" where
  "stops t = (case t of [] \<Rightarrow> True
              | c # _ \<Rightarrow> \<not> is_digit c \<and> c \<noteq> CHR ''.'' \<and> c \<noteq> CHR ''e'' \<and> c \<noteq> CHR ''E'')"

lemma is_digit_digit [simp]: "d < 10 \<Longrightarrow> is_digit (digit d)"
  by (simp add: is_digit_def)

lemma show_nat_all_digits: "\<forall>c \<in> set (show_nat n). is_digit c"
  using show_nat_digits by fastforce

lemma hd_show_nat_zero: "n \<noteq> 0 \<Longrightarrow> hd (show_nat n) \<noteq> CHR ''0''"
proof (induction n rule: show_nat.induct)
  case (1 n)
  have "digit n \<noteq> CHR ''0''" if "n < 10"
    using digit_val_digit [OF that] "1.prems" by (auto simp: digit_val_def)
  then show ?case
    using 1 by (subst show_nat.simps) (auto simp: hd_append)
qed

lemma show_nat_0: "show_nat 0 = ''0''"
  by (subst show_nat.simps) (simp add: digit_def char_of_eq_iff)

lemma parse_number_show:
  assumes "stops t"
  shows "parse_number (show_nat n @ t) = Some (show_nat n, t)"
proof -
  obtain c cs where c: "show_nat n = c # cs" by (cases "show_nat n") auto
  have digits: "is_digit c" "\<forall>x \<in> set cs. is_digit x"
    using show_nat_all_digits [of n] unfolding c by auto
  have nt: "takeWhile is_digit t = []" "dropWhile is_digit t = t"
    "frac_part t = Some ([], t)" "exp_part t = Some ([], t)"
    using assms by (auto simp: stops_def split: list.splits)
  have nm: "c \<noteq> CHR ''-''" using hd_show_nat(1) [of n] unfolding c by simp
  have ip: "int_part (show_nat n @ t) = Some (show_nat n, t)"
  proof (cases "n = 0")
    case True
    then show ?thesis by (simp add: show_nat_0)
  next
    case False
    then have "c \<noteq> CHR ''0''" using hd_show_nat_zero [of n] unfolding c by simp
    with digits nt show ?thesis unfolding c
      by (auto simp: takeWhile_append2 dropWhile_append2)
  qed
  show ?thesis
    using ip nm nt by (simp add: parse_number_def c)
qed

lemma literal_show:
  assumes "stops t"
  shows "literal (show_nat n @ t) = Some (JNum (show_nat n), t)"
proof -
  obtain c cs where c: "show_nat n = c # cs" by (cases "show_nat n") auto
  have "is_digit c" using show_nat_all_digits [of n] unfolding c by auto
  then have "c \<noteq> CHR ''t''" "c \<noteq> CHR ''f''" "c \<noteq> CHR ''n''"
    by (auto simp: is_digit_def digit_val_def)
  then show ?thesis
    using parse_number_show [OF assms, of n] by (simp add: literal_def strip_def c)
qed

subsection \<open>Values\<close>

text \<open>
  The values the program writes: numbers are printed naturals, strings are UTF-8, and the raw text
  kept with a member is the text of its value.
\<close>

fun canonical :: "json \<Rightarrow> bool"
  and canonical_elems :: "json list \<Rightarrow> bool"
  and canonical_members :: "(string \<times> string \<times> json) list \<Rightarrow> bool" where
  "canonical JNull = True"
| "canonical (JBool b) = True"
| "canonical (JNum t) = (case ParseUint 64 t of Inr n \<Rightarrow> t = show_nat n | _ \<Rightarrow> False)"
| "canonical (JStr s) = valid_utf8 s"
| "canonical (JArr js) = canonical_elems js"
| "canonical (JObj ms) = canonical_members ms"
| "canonical_elems [] = True"
| "canonical_elems (j # js) = (canonical j \<and> canonical_elems js)"
| "canonical_members [] = True"
| "canonical_members ((k, raw, v) # ms) =
     (valid_utf8 k \<and> raw = print_json v \<and> canonical v \<and> canonical_members ms)"

fun depth :: "json \<Rightarrow> nat"
  and depth_elems :: "json list \<Rightarrow> nat"
  and depth_members :: "(string \<times> string \<times> json) list \<Rightarrow> nat" where
  "depth JNull = 0"
| "depth (JBool b) = 0"
| "depth (JNum t) = 0"
| "depth (JStr s) = 0"
| "depth (JArr js) = Suc (depth_elems js)"
| "depth (JObj ms) = Suc (depth_members ms)"
| "depth_elems [] = 0"
| "depth_elems (j # js) = max (depth j) (depth_elems js)"
| "depth_members [] = 0"
| "depth_members ((k, raw, v) # ms) = max (depth v) (depth_members ms)"

lemma parse_string: "valid_utf8 x \<Longrightarrow> parse_value (Suc k) d (quoted x @ t) = Some (JStr x, t)"
  by (simp add: parse_value.simps(2) quoted_def decode_encode_chars)

lemma print_json_start:
  "canonical j \<Longrightarrow> \<exists>c r. print_json j = c # r \<and> \<not> is_space c \<and> c \<noteq> CHR '']'' \<and> c \<noteq> CHR ''}''"
proof (cases j)
  case (JNum t)
  assume "canonical j"
  then obtain n where t: "t = show_nat n" using JNum by (auto split: sum.splits)
  obtain c r where c: "show_nat n = c # r" by (cases "show_nat n") auto
  have "is_digit c" using show_nat_all_digits [of n] unfolding c by auto
  then have "\<not> is_space c \<and> c \<noteq> CHR '']'' \<and> c \<noteq> CHR ''}''"
    by (auto simp: is_digit_def digit_val_def is_space_def)
  with JNum t c show ?thesis by auto
qed (auto simp: is_space_def quoted_def)

lemma stops_simps [simp]:
  "stops []" "stops (CHR '','' # t)" "stops (CHR '']'' # t)" "stops (CHR ''}'' # t)"
  "stops (CHR 0x0A # t)"
  by (simp_all add: stops_def is_digit_def digit_val_def)

lemma skip_ws_start: "\<not> is_space c \<Longrightarrow> skip_ws (c # r) = c # r"
  by simp

lemma is_space_simps [simp]:
  "\<not> is_space (CHR '','')" "\<not> is_space (CHR '']'')" "\<not> is_space (CHR ''}'')"
  "\<not> is_space (CHR '':'')" "\<not> is_space quote_char"
  by (simp_all add: is_space_def)

lemma parse_number_value:
  assumes "canonical (JNum t)" "stops r"
  shows "parse_value (Suc k) d (t @ r) = Some (JNum t, r)"
proof -
  obtain n where t: "t = show_nat n" using assms by (auto split: sum.splits)
  obtain c cs where c: "show_nat n = c # cs" by (cases "show_nat n") auto
  have "is_digit c" using show_nat_all_digits [of n] unfolding c by auto
  then have "c \<noteq> CHR ''{''" "c \<noteq> CHR ''[''" "c \<noteq> quote_char"
    by (auto simp: is_digit_def digit_val_def)
  then show ?thesis
    using literal_show [OF assms(2), of n] by (simp add: parse_value.simps(2) t c)
qed

text \<open>One step of the parser on each kind of compound value, given what it does on the parts.\<close>

lemma parse_array_value:
  assumes "js \<noteq> [] \<Longrightarrow> parse_elems k d (print_elems js @ CHR '']'' # t) = Some (js, t)" "canonical_elems js"
  shows "parse_value (Suc k) (Suc d) (print_json (JArr js) @ t) = Some (JArr js, t)"
proof (cases js)
  case Nil
  then show ?thesis by (simp add: parse_value.simps(2))
next
  case (Cons j js')
  with assms(2) have "canonical j" by simp
  from print_json_start [OF this] obtain c r
    where c: "print_json j = c # r" "\<not> is_space c" "c \<noteq> CHR '']''" by blast
  then show ?thesis using assms(1) by (simp add: parse_value.simps(2) Cons)
qed

lemma parse_object_value:
  assumes "ms \<noteq> [] \<Longrightarrow> parse_members k d (print_members ms @ CHR ''}'' # t) = Some (ms, t)"
  shows "parse_value (Suc k) (Suc d) (print_json (JObj ms) @ t) = Some (JObj ms, t)"
proof (cases ms)
  case Nil
  then show ?thesis by (simp add: parse_value.simps(2))
next
  case (Cons m ms')
  then show ?thesis using assms by (cases m) (simp add: parse_value.simps(2) quoted_def)
qed

lemma parse_elems_step:
  assumes v: "\<And>u. stops u \<Longrightarrow> (js = [] \<longrightarrow> u = CHR '']'' # t) \<Longrightarrow>
      (js \<noteq> [] \<longrightarrow> u = CHR '','' # print_elems js @ CHR '']'' # t) \<Longrightarrow>
      parse_value k d (print_json j @ u) = Some (j, u)"
    and e: "js \<noteq> [] \<Longrightarrow> parse_elems k d (print_elems js @ CHR '']'' # t) = Some (js, t)"
    and c: "canonical_elems js"
  shows "parse_elems (Suc k) d (print_elems (j # js) @ CHR '']'' # t) = Some (j # js, t)"
proof (cases js)
  case Nil
  then show ?thesis using v [of "CHR '']'' # t"] by (simp add: parse_elems.simps(2))
next
  case (Cons i js2)
  with c have "canonical i" by simp
  from print_json_start [OF this] obtain x y where "print_json i = x # y" "\<not> is_space x" by blast
  then have "skip_ws (print_elems js @ CHR '']'' # t) = print_elems js @ CHR '']'' # t"
    by (simp add: Cons)
  then show ?thesis
    using v [of "CHR '','' # print_elems js @ CHR '']'' # t"] e by (simp add: parse_elems.simps(2) Cons)
qed

lemma parse_members_step:
  assumes v: "\<And>u. stops u \<Longrightarrow> (ms = [] \<longrightarrow> u = CHR ''}'' # t) \<Longrightarrow>
      (ms \<noteq> [] \<longrightarrow> u = CHR '','' # print_members ms @ CHR ''}'' # t) \<Longrightarrow>
      parse_value k d (print_json v @ u) = Some (v, u)"
    and e: "ms \<noteq> [] \<Longrightarrow> parse_members k d (print_members ms @ CHR ''}'' # t) = Some (ms, t)"
    and c: "canonical v" "valid_utf8 n" "r = print_json v"
  shows "parse_members (Suc k) d (print_members ((n, r, v) # ms) @ CHR ''}'' # t) = Some ((n, r, v) # ms, t)"
proof -
  from print_json_start [OF c(1)] obtain x y where x: "print_json v = x # y" "\<not> is_space x"
    by blast
  have q: "decode_chars (encode_chars n @ quote_char # z) = Some (n, z)" for z
    using c(2) by (rule decode_encode_chars)
  have raw: "take (length (print_json v @ z) - length z) (print_json v @ z) = print_json v" for z
    by simp
  have ws: "skip_ws (print_json v @ z) = print_json v @ z" for z
    using x by simp
  show ?thesis
  proof (cases ms)
    case Nil
    then show ?thesis
      using v [of "CHR ''}'' # t"] c(3) by (simp add: parse_members.simps(2) quoted_def q ws raw Let_def)
  next
    case (Cons m ms')
    have "skip_ws (print_members ms @ CHR ''}'' # t) = print_members ms @ CHR ''}'' # t"
      by (cases m) (simp add: Cons quoted_def)
    then show ?thesis
      using v [of "CHR '','' # print_members ms @ CHR ''}'' # t"] e c(3)
      by (simp add: parse_members.simps(2) Cons quoted_def q ws raw Let_def)
  qed
qed

lemma parse_print:
  "canonical j \<Longrightarrow> depth j \<le> d \<Longrightarrow> stops t \<Longrightarrow> 2 * length (print_json j) \<le> k \<Longrightarrow>
     parse_value k d (print_json j @ t) = Some (j, t)"
  "canonical_elems js \<Longrightarrow> js \<noteq> [] \<Longrightarrow> depth_elems js \<le> d \<Longrightarrow>
     2 * length (print_elems js) < k \<Longrightarrow>
     parse_elems k d (print_elems js @ CHR '']'' # t) = Some (js, t)"
  "canonical_members ms \<Longrightarrow> ms \<noteq> [] \<Longrightarrow> depth_members ms \<le> d \<Longrightarrow>
     2 * length (print_members ms) < k \<Longrightarrow>
     parse_members k d (print_members ms @ CHR ''}'' # t) = Some (ms, t)"
proof (induction j and js and ms arbitrary: k d t and k d t and k d t
    rule: print_json_print_elems_print_members.induct)
  case 1
  then obtain k' where "k = Suc k'" by (cases k) auto
  then show ?case by (simp add: parse_value.simps(2) literal_def strip_def)
next
  case (2 b)
  then obtain k' where "k = Suc k'" by (cases k) (auto split: if_splits)
  then show ?case by (simp add: parse_value.simps(2) literal_def strip_def)
next
  case (3 x)
  have "x \<noteq> []" using 3(1) by (auto split: sum.splits simp: ParseUint_def)
  with 3 obtain k' where "k = Suc k'" by (cases k) auto
  then show ?case using parse_number_value [OF 3(1) 3(3)] by simp
next
  case (4 x)
  then obtain k' where "k = Suc k'" by (cases k) (auto simp: quoted_def)
  with 4 show ?case by (simp add: parse_string)
next
  case (5 js)
  from 5(5) obtain k' where k: "k = Suc k'" by (cases k) auto
  from 5(3) obtain d' where d: "d = Suc d'" by (cases d) auto
  show ?case unfolding k d
    by (rule parse_array_value) (use 5 k d in simp_all)
next
  case (6 ms)
  from 6(5) obtain k' where k: "k = Suc k'" by (cases k) auto
  from 6(3) obtain d' where d: "d = Suc d'" by (cases d) auto
  show ?case unfolding k d
    by (rule parse_object_value) (use 6 k d in simp_all)
next
  case (8 j js)
  from 8(6) obtain k' where k: "k = Suc k'" by (cases k) auto
  show ?case unfolding k
  proof (rule parse_elems_step)
    fix u assume "stops u"
    then show "parse_value k' d (print_json j @ u) = Some (j, u)"
      using 8(1) [of d u k'] 8(3-6) k by (simp split: if_splits)
  qed (use 8 k in \<open>auto split: if_splits\<close>)
next
  case (10 n r v ms)
  from 10(6) obtain k' where k: "k = Suc k'" by (cases k) auto
  show ?case unfolding k
  proof (rule parse_members_step)
    fix u assume "stops u"
    then show "parse_value k' d (print_json v @ u) = Some (v, u)"
      using 10(1) [of d u k'] 10(3-6) k by (simp split: if_splits)
  qed (use 10 k in \<open>auto split: if_splits\<close>)
qed simp_all

end
