(* ===== verification/Go_Json_Struct.thy ===== *)
theory Go_Json_Struct
  imports Go_Json_Laws
begin

text \<open>
  From JSON values to Go values and back: how \<open>Decode\<close> and \<open>Unmarshal\<close> fill strings, unsigned
  integers, slices, pointers and structs, and the two entry points on text.  \<open>into\<close> functions take
  the value the target holds before the call, because \<open>null\<close> keeps it; \<open>None\<close> is a type error.
\<close>

type_synonym 'a into = "'a \<Rightarrow> json \<Rightarrow> 'a option"

definition into_string :: "string into" where
  "into_string old j = (case j of JNull \<Rightarrow> Some old | JStr s \<Rightarrow> Some s | _ \<Rightarrow> None)"

definition into_uint :: "'w::len word into" where
  "into_uint old j =
     (case j of
        JNull \<Rightarrow> Some old
      | JNum t \<Rightarrow>
          (case ParseUint 64 t of
             Inr n \<Rightarrow> if n < 2 ^ LENGTH('w) then Some (of_nat n) else None
           | Inl _ \<Rightarrow> None)
      | _ \<Rightarrow> None)"

text \<open>A nil slice and an empty one are both \<open>[]\<close>: the program only ranges over them and appends.\<close>

definition into_slice :: "'a into \<Rightarrow> 'a \<Rightarrow> 'a list into" where
  "into_slice into zero old j =
     (case j of JNull \<Rightarrow> Some [] | JArr js \<Rightarrow> those (map (into zero) js) | _ \<Rightarrow> None)"

definition into_ptr :: "'a into \<Rightarrow> 'a \<Rightarrow> 'a option into" where
  "into_ptr into zero old j =
     (case j of
        JNull \<Rightarrow> Some None
      | _ \<Rightarrow> map_option Some (into (case old of None \<Rightarrow> zero | Some x \<Rightarrow> x) j))"

subsection \<open>Structs\<close>

text \<open>
  Names are matched exactly or else under Go's case folding, in which the long s (U+017F) folds to
  \<open>S\<close> and the Kelvin sign (U+212A) to \<open>K\<close>.
\<close>

definition upper :: "char \<Rightarrow> char" where
  "upper c = (let n = of_char c :: nat in if 97 \<le> n \<and> n \<le> 122 then char_of (n - 32) else c)"

fun fold_name :: "string \<Rightarrow> string" where
  "fold_name (a # b # c # s) =
     (if a = CHR 0xC5 \<and> b = CHR 0xBF then CHR ''S'' # fold_name (c # s)
      else if a = CHR 0xE2 \<and> b = CHR 0x84 \<and> c = CHR 0xAA then CHR ''K'' # fold_name s
      else upper a # fold_name (b # c # s))"
| "fold_name [a, b] = (if a = CHR 0xC5 \<and> b = CHR 0xBF then ''S'' else [upper a, upper b])"
| "fold_name [a] = [upper a]"
| "fold_name [] = []"

text \<open>A field: its name and what a member with that name does, given its raw text and its value.\<close>

type_synonym 'a field = "string \<times> (string \<Rightarrow> json \<Rightarrow> 'a \<Rightarrow> 'a option)"

definition find_field :: "'a field list \<Rightarrow> string \<Rightarrow> (string \<Rightarrow> json \<Rightarrow> 'a \<Rightarrow> 'a option) option" where
  "find_field fs key =
     (case map_of fs key of
        Some f \<Rightarrow> Some f
      | None \<Rightarrow> map_option snd (find (\<lambda>(n, f). fold_name n = fold_name key) fs))"

fun set_members :: "'a field list \<Rightarrow> (string \<times> string \<times> json) list \<Rightarrow> 'a \<Rightarrow> 'a option" where
  "set_members fs [] x = Some x"
| "set_members fs ((key, raw, v) # ms) x =
     (case find_field fs key of
        None \<Rightarrow> set_members fs ms x
      | Some f \<Rightarrow> (case f raw v x of None \<Rightarrow> None | Some y \<Rightarrow> set_members fs ms y))"

definition into_struct :: "'a field list \<Rightarrow> 'a into" where
  "into_struct fs x j =
     (case j of JNull \<Rightarrow> Some x | JObj ms \<Rightarrow> set_members fs ms x | _ \<Rightarrow> None)"

definition fld :: "string \<Rightarrow> 'b into \<Rightarrow> ('a \<Rightarrow> 'b) \<Rightarrow> ('b \<Rightarrow> 'a \<Rightarrow> 'a) \<Rightarrow> 'a field" where
  "fld name into get put = (name, \<lambda>raw v x. map_option (\<lambda>b. put b x) (into (get x) v))"

definition raw_fld :: "string \<Rightarrow> (string \<Rightarrow> 'a \<Rightarrow> 'a) \<Rightarrow> 'a field" where
  "raw_fld name put = (name, \<lambda>raw v x. Some (put raw x))"

definition obj :: "(string \<times> json) list \<Rightarrow> json" where
  "obj kvs = JObj (map (\<lambda>(k, v). (k, print_json v, v)) kvs)"

definition uint_json :: "'w::len word \<Rightarrow> json" where
  "uint_json w = JNum (show_nat (unat w))"

text \<open>A nil slice prints as \<open>null\<close>; the slices the program marshals are nil exactly when empty.\<close>

definition slice_json :: "('a \<Rightarrow> json) \<Rightarrow> 'a list \<Rightarrow> json" where
  "slice_json f xs = (if xs = [] then JNull else JArr (map f xs))"

subsection \<open>Entry points\<close>

definition json_max_depth :: nat where
  "json_max_depth = 10000"

definition io_EOF :: error where "io_EOF = Msg ''EOF''"
definition json_syntax :: error where "json_syntax = Msg ''invalid JSON text''"
definition json_type :: error where "json_type = Msg ''json: cannot unmarshal''"

definition parse_first :: "string \<Rightarrow> (json \<times> string) go" where
  "parse_first s =
     (let v = skip_ws s in
      if v = [] then Err io_EOF
      else of_opt json_syntax (parse_value (2 * length v) json_max_depth v))"

text \<open>\<open>json.NewDecoder(r).Decode(&x)\<close>: the first value of the stream; what follows is not read.\<close>

definition json_Decode :: "'a into \<Rightarrow> 'a \<Rightarrow> string \<Rightarrow> 'a go" where
  "json_Decode into x s = bind_go (parse_first s) (\<lambda>(j, r). of_opt json_type (into x j))"

text \<open>\<open>json.Unmarshal(data, &x)\<close>: the whole text is one value.\<close>

definition json_Unmarshal :: "'a into \<Rightarrow> 'a \<Rightarrow> string \<Rightarrow> 'a go" where
  "json_Unmarshal into x s =
     bind_go (parse_first s) (\<lambda>(j, r).
       if skip_ws r = [] then of_opt json_type (into x j) else Err json_syntax)"

definition json_Marshal :: "json \<Rightarrow> bytes" where
  "json_Marshal j = print_json j"

text \<open>\<open>json.NewEncoder(w).Encode(x)\<close>: the value and a newline.\<close>

definition json_Encode :: "json \<Rightarrow> bytes" where
  "json_Encode j = print_json j @ [CHR 0x0A]"

subsection \<open>Laws\<close>

lemma json_Decode_no_panic [simp]: "json_Decode into x s \<noteq> Panic"
  by (auto simp: json_Decode_def parse_first_def bind_go_eq_Panic of_opt_def Let_def
      split: option.splits if_splits)

lemma json_Unmarshal_no_panic [simp]: "json_Unmarshal into x s \<noteq> Panic"
  by (auto simp: json_Unmarshal_def parse_first_def bind_go_eq_Panic of_opt_def Let_def
      split: option.splits if_splits)

lemma parse_first_print:
  assumes "canonical j" "depth j \<le> json_max_depth" "stops t"
  shows "parse_first (print_json j @ t) = Ret (j, t)"
proof -
  from print_json_start [OF assms(1)] obtain c r where c: "print_json j = c # r" "\<not> is_space c"
    by blast
  have "parse_value (2 * length (print_json j @ t)) json_max_depth (print_json j @ t) = Some (j, t)"
    by (rule parse_print(1)) (use assms in auto)
  then show ?thesis using c by (simp add: parse_first_def)
qed

lemma json_Decode_print:
  "canonical j \<Longrightarrow> depth j \<le> json_max_depth \<Longrightarrow> stops t \<Longrightarrow> into x j = Some y \<Longrightarrow>
     json_Decode into x (print_json j @ t) = Ret y"
  by (simp add: json_Decode_def parse_first_print)

lemma json_Decode_Marshal:
  "canonical j \<Longrightarrow> depth j \<le> json_max_depth \<Longrightarrow> into x j = Some y \<Longrightarrow>
     json_Decode into x (json_Marshal j) = Ret y"
  using json_Decode_print [of j "[]"] by (simp add: json_Marshal_def)

lemma json_Decode_Encode:
  "canonical j \<Longrightarrow> depth j \<le> json_max_depth \<Longrightarrow> into x j = Some y \<Longrightarrow>
     json_Decode into x (json_Encode j) = Ret y"
  using json_Decode_print [of j "[CHR 0x0A]"] by (simp add: json_Encode_def)

lemma json_Unmarshal_Marshal:
  "canonical j \<Longrightarrow> depth j \<le> json_max_depth \<Longrightarrow> into x j = Some y \<Longrightarrow>
     json_Unmarshal into x (json_Marshal j) = Ret y"
  using parse_first_print [of j "[]"] by (simp add: json_Unmarshal_def json_Marshal_def)

lemma json_Unmarshal_Encode:
  "canonical j \<Longrightarrow> depth j \<le> json_max_depth \<Longrightarrow> into x j = Some y \<Longrightarrow>
     json_Unmarshal into x (json_Encode j) = Ret y"
  using parse_first_print [of j "[CHR 0x0A]"]
  by (simp add: json_Unmarshal_def json_Encode_def is_space_def)

text \<open>Decoding the text of a value is filling the target from the value, also when that fails.\<close>

lemma json_Decode_object:
  assumes "canonical j" "depth j \<le> json_max_depth"
  shows "json_Decode into x (json_Encode j) = of_opt json_type (into x j)"
  using parse_first_print [OF assms, of "[CHR 0x0A]"] by (simp add: json_Decode_def json_Encode_def)

lemma json_Decode_empty: "json_Decode into x [] = Err io_EOF"
  by (simp add: json_Decode_def parse_first_def)

text \<open>
  A text that starts with none of the characters a JSON value can start with: every such body, an
  error page for instance, is a syntax error.
\<close>

definition json_start :: "char \<Rightarrow> bool" where
  "json_start c = (c = CHR ''{'' \<or> c = CHR ''['' \<or> c = quote_char \<or> c = CHR ''t'' \<or> c = CHR ''f'' \<or>
     c = CHR ''n'' \<or> c = CHR ''-'' \<or> is_digit c)"

lemma literal_bad_start:
  assumes "\<not> json_start c"
  shows "literal (c # s) = None"
proof -
  have n: "c \<noteq> CHR ''t''" "c \<noteq> CHR ''f''" "c \<noteq> CHR ''n''" "c \<noteq> CHR ''-''" "\<not> is_digit c"
    using assms by (simp_all add: json_start_def)
  moreover have "c \<noteq> CHR ''0''" using n(5) by (auto simp: is_digit_def digit_val_def)
  ultimately show ?thesis by (simp add: literal_def strip_def parse_number_def)
qed

lemma parse_value_bad_start:
  "\<not> json_start c \<Longrightarrow> parse_value k d (c # s) = None"
  by (cases k) (simp_all add: parse_value.simps(2) literal_bad_start, simp add: json_start_def)

lemma parse_first_bad_start:
  "\<not> json_start c \<Longrightarrow> \<not> is_space c \<Longrightarrow> parse_first (c # s) = Err json_syntax"
  by (simp add: parse_first_def parse_value_bad_start)

lemma into_uint_json:
  fixes w :: "'w::len word"
  assumes "LENGTH('w) \<le> 64"
  shows "into_uint old (uint_json w) = Some w"
proof -
  have "unat w < 2 ^ LENGTH('w)" by (rule unsigned_less)
  moreover have "(2 :: nat) ^ LENGTH('w) \<le> 2 ^ 64" using assms by (rule power_increasing) simp
  ultimately have "unat w < 2 ^ 64" by linarith
  then show ?thesis
    using \<open>unat w < 2 ^ LENGTH('w)\<close> by (simp add: into_uint_def uint_json_def ParseUint_show)
qed

lemma canonical_uint_json:
  fixes w :: "'w::len word"
  assumes "LENGTH('w) \<le> 64"
  shows "canonical (uint_json w)"
proof -
  have "unat w < 2 ^ LENGTH('w)" by (rule unsigned_less)
  moreover have "(2 :: nat) ^ LENGTH('w) \<le> 2 ^ 64" using assms by (rule power_increasing) simp
  ultimately have "unat w < 2 ^ 64" by linarith
  then show ?thesis by (simp add: uint_json_def ParseUint_show)
qed

lemma depth_uint_json [simp]: "depth (uint_json w) = 0"
  by (simp add: uint_json_def)

lemma into_string_JStr [simp]: "into_string old (JStr s) = Some s"
  by (simp add: into_string_def)

lemma into_slice_json:
  assumes "\<And>x. x \<in> set xs \<Longrightarrow> into zero (f x) = Some x"
  shows "into_slice into zero old (slice_json f xs) = Some xs"
proof -
  have "those (map (into zero) (map f xs)) = Some xs"
    using assms by (induction xs) auto
  then show ?thesis by (simp add: into_slice_def slice_json_def)
qed

lemma into_slice_ptr_json:
  assumes "\<And>x. x \<in> set xs \<Longrightarrow> into zero (f x) = Some x" "\<And>x. x \<in> set xs \<Longrightarrow> f x \<noteq> JNull"
  shows "into_slice (into_ptr into zero) None old (slice_json f xs) = Some (map Some xs)"
proof -
  have "into_ptr into zero None (f x) = Some (Some x)" if "x \<in> set xs" for x
    using assms(1) [OF that] assms(2) [OF that] by (cases "f x") (simp_all add: into_ptr_def)
  then have "those (map (into_ptr into zero None) (map f xs)) = Some (map Some xs)"
    by (induction xs) auto
  then show ?thesis by (simp add: into_slice_def slice_json_def)
qed

lemma obj_not_null [simp]: "obj kvs \<noteq> JNull"
  by (simp add: obj_def)

lemma canonical_elems_map: "canonical_elems (map f xs) \<longleftrightarrow> (\<forall>x \<in> set xs. canonical (f x))"
  by (induction xs) auto

lemma depth_elems_map: "(\<And>x. x \<in> set xs \<Longrightarrow> depth (f x) \<le> n) \<Longrightarrow> depth_elems (map f xs) \<le> n"
  by (induction xs) auto

lemma canonical_slice_json:
  "(\<And>x. x \<in> set xs \<Longrightarrow> canonical (f x)) \<Longrightarrow> canonical (slice_json f xs)"
  by (simp add: slice_json_def canonical_elems_map)

lemma depth_slice_json:
  "(\<And>x. x \<in> set xs \<Longrightarrow> depth (f x) \<le> n) \<Longrightarrow> depth (slice_json f xs) \<le> Suc n"
  by (simp add: slice_json_def depth_elems_map)

lemma canonical_obj:
  "canonical (obj kvs) \<longleftrightarrow> (\<forall>(k, v) \<in> set kvs. valid_utf8 k \<and> canonical v)"
proof -
  have "canonical_members (map (\<lambda>(k, v). (k, print_json v, v)) kvs) \<longleftrightarrow>
      (\<forall>(k, v) \<in> set kvs. valid_utf8 k \<and> canonical v)"
    by (induction kvs) auto
  then show ?thesis by (simp add: obj_def)
qed

lemma depth_obj:
  assumes "\<forall>m \<in> set kvs. depth (snd m) \<le> n"
  shows "depth (obj kvs) \<le> Suc n"
proof -
  have "depth_members (map (\<lambda>(k, v). (k, print_json v, v)) kvs) \<le> n"
    using assms by (induction kvs) auto
  then show ?thesis by (simp add: obj_def)
qed

lemmas into_obj_simps = into_struct_def obj_def find_field_def fld_def raw_fld_def

lemmas json_word_simps = into_uint_json canonical_uint_json

end
