(* ===== verification/Api.thy ===== *)
theory Api
  imports Go_Json_Struct
begin

text \<open>
  The messages of \<open>internal/api\<close>: what the coordinators and the signers send each other.  Each struct
  is a record; next to it its JSON form (the struct tags) and the fields a decoder fills.  Each pair
  is a codec: what one side marshals, the other decodes.
\<close>

subsection \<open>Messages\<close>

record CommitmentResponse =
  CommitmentID :: u64
  SignerID :: u16
  Commitment :: string

record SignRequest =
  Message :: string
  Commitments :: "CommitmentResponse list"

record SignatureShareResponse =
  ShareSignerID :: u16
  Share :: string

record CommitmentCollection =
  CollectedCommitments :: "CommitmentResponse list"

record SignatureCollection =
  Signatures :: "SignatureShareResponse list"

record ThresholdJWTResponse =
  Header :: string
  Payload :: string
  SigningInput :: string
  Signature :: string
  Token :: string

record SignJWTResponse =
  JWTToken :: string

text \<open>\<open>Claims\<close> is a \<open>json.RawMessage\<close>: the bytes of the member's value as they stand in the request.\<close>

record ThresholdJWTRequest =
  Claims :: bytes

subsection \<open>Zero values\<close>

definition zero_CommitmentResponse :: CommitmentResponse where
  "zero_CommitmentResponse = \<lparr>CommitmentID = 0, SignerID = 0, Commitment = []\<rparr>"

definition zero_SignRequest :: SignRequest where
  "zero_SignRequest = \<lparr>Message = [], Commitments = []\<rparr>"

definition zero_SignatureShareResponse :: SignatureShareResponse where
  "zero_SignatureShareResponse = \<lparr>ShareSignerID = 0, Share = []\<rparr>"

definition zero_ThresholdJWTRequest :: ThresholdJWTRequest where
  "zero_ThresholdJWTRequest = \<lparr>Claims = []\<rparr>"

subsection \<open>JSON\<close>

definition CommitmentResponse_json :: "CommitmentResponse \<Rightarrow> json" where
  "CommitmentResponse_json c =
     obj [(''commitment_id'', uint_json (CommitmentID c)),
          (''signer_id'', uint_json (SignerID c)),
          (''commitment'', JStr (Commitment c))]"

definition into_CommitmentResponse :: "CommitmentResponse into" where
  "into_CommitmentResponse =
     into_struct
       [fld ''commitment_id'' into_uint CommitmentID (\<lambda>v. CommitmentID_update (\<lambda>_. v)),
        fld ''signer_id'' into_uint SignerID (\<lambda>v. SignerID_update (\<lambda>_. v)),
        fld ''commitment'' into_string Commitment (\<lambda>v. Commitment_update (\<lambda>_. v))]"

definition SignRequest_json :: "SignRequest \<Rightarrow> json" where
  "SignRequest_json r =
     obj [(''message'', JStr (Message r)),
          (''commitments'', slice_json CommitmentResponse_json (Commitments r))]"

definition into_SignRequest :: "SignRequest into" where
  "into_SignRequest =
     into_struct
       [fld ''message'' into_string Message (\<lambda>v. Message_update (\<lambda>_. v)),
        fld ''commitments'' (into_slice into_CommitmentResponse zero_CommitmentResponse)
          Commitments (\<lambda>v. Commitments_update (\<lambda>_. v))]"

definition SignatureShareResponse_json :: "SignatureShareResponse \<Rightarrow> json" where
  "SignatureShareResponse_json s =
     obj [(''signer_id'', uint_json (ShareSignerID s)), (''share'', JStr (Share s))]"

definition into_SignatureShareResponse :: "SignatureShareResponse into" where
  "into_SignatureShareResponse =
     into_struct
       [fld ''signer_id'' into_uint ShareSignerID (\<lambda>v. ShareSignerID_update (\<lambda>_. v)),
        fld ''share'' into_string Share (\<lambda>v. Share_update (\<lambda>_. v))]"

definition CommitmentCollection_json :: "CommitmentCollection \<Rightarrow> json" where
  "CommitmentCollection_json c =
     obj [(''commitments'', slice_json CommitmentResponse_json (CollectedCommitments c))]"

definition SignatureCollection_json :: "SignatureCollection \<Rightarrow> json" where
  "SignatureCollection_json c =
     obj [(''signatures'', slice_json SignatureShareResponse_json (Signatures c))]"

definition ThresholdJWTResponse_json :: "ThresholdJWTResponse \<Rightarrow> json" where
  "ThresholdJWTResponse_json r =
     obj [(''header'', JStr (Header r)), (''payload'', JStr (Payload r)),
          (''signing_input'', JStr (SigningInput r)), (''signature'', JStr (Signature r)),
          (''token'', JStr (Token r))]"

definition SignJWTResponse_json :: "SignJWTResponse \<Rightarrow> json" where
  "SignJWTResponse_json r = obj [(''token'', JStr (JWTToken r))]"

definition into_ThresholdJWTRequest :: "ThresholdJWTRequest into" where
  "into_ThresholdJWTRequest = into_struct [raw_fld ''claims'' (\<lambda>v. Claims_update (\<lambda>_. v))]"

subsection \<open>Decoders\<close>

definition decode_CommitmentResponse :: "bytes \<Rightarrow> CommitmentResponse go" where
  "decode_CommitmentResponse = json_Decode into_CommitmentResponse zero_CommitmentResponse"

definition decode_SignRequest :: "bytes \<Rightarrow> SignRequest go" where
  "decode_SignRequest = json_Decode into_SignRequest zero_SignRequest"

definition decode_SignatureShareResponse :: "bytes \<Rightarrow> SignatureShareResponse go" where
  "decode_SignatureShareResponse =
     json_Decode into_SignatureShareResponse zero_SignatureShareResponse"

definition unmarshal_SignatureShareResponse :: "bytes \<Rightarrow> SignatureShareResponse go" where
  "unmarshal_SignatureShareResponse =
     json_Unmarshal into_SignatureShareResponse zero_SignatureShareResponse"

definition decode_ThresholdJWTRequest :: "bytes \<Rightarrow> ThresholdJWTRequest go" where
  "decode_ThresholdJWTRequest = json_Decode into_ThresholdJWTRequest zero_ThresholdJWTRequest"

lemmas api_decoders =
  decode_CommitmentResponse_def decode_SignRequest_def decode_SignatureShareResponse_def
  unmarshal_SignatureShareResponse_def decode_ThresholdJWTRequest_def

subsection \<open>Round trips\<close>

text \<open>The strings of a message that survive JSON: UTF-8.\<close>

definition wf_CommitmentResponse :: "CommitmentResponse \<Rightarrow> bool" where
  "wf_CommitmentResponse c = valid_utf8 (Commitment c)"

definition wf_SignRequest :: "SignRequest \<Rightarrow> bool" where
  "wf_SignRequest r = (valid_utf8 (Message r) \<and> list_all wf_CommitmentResponse (Commitments r))"

definition wf_SignatureShareResponse :: "SignatureShareResponse \<Rightarrow> bool" where
  "wf_SignatureShareResponse s = valid_utf8 (Share s)"

lemma tag_ascii [simp]:
  "valid_utf8 ''commitment_id''" "valid_utf8 ''signer_id''" "valid_utf8 ''commitment''"
  "valid_utf8 ''message''" "valid_utf8 ''commitments''" "valid_utf8 ''share''"
  by (rule ascii_valid_utf8, simp)+

lemma into_CommitmentResponse_json:
  "into_CommitmentResponse x (CommitmentResponse_json c) = Some c"
  by (simp add: into_CommitmentResponse_def CommitmentResponse_json_def into_obj_simps into_uint_json)

lemma canonical_CommitmentResponse:
  "wf_CommitmentResponse c \<Longrightarrow> canonical (CommitmentResponse_json c)"
  by (simp add: CommitmentResponse_json_def canonical_obj wf_CommitmentResponse_def canonical_uint_json
      del: canonical.simps(3))

lemma depth_CommitmentResponse: "depth (CommitmentResponse_json c) \<le> 1"
  unfolding CommitmentResponse_json_def One_nat_def by (rule depth_obj) auto

interpretation commitment_response:
  codec "\<lambda>c. json_Encode (CommitmentResponse_json c)" decode_CommitmentResponse wf_CommitmentResponse
proof
  fix c assume "wf_CommitmentResponse c"
  then show "decode_CommitmentResponse (json_Encode (CommitmentResponse_json c)) = Ret c"
    unfolding decode_CommitmentResponse_def
    using depth_CommitmentResponse [of c]
    by (intro json_Decode_Encode canonical_CommitmentResponse into_CommitmentResponse_json)
       (simp_all add: json_max_depth_def)
qed

lemma into_SignRequest_json: "into_SignRequest x (SignRequest_json r) = Some r"
  by (simp add: into_SignRequest_def SignRequest_json_def into_obj_simps
      into_slice_json into_CommitmentResponse_json)

lemma canonical_SignRequest: "wf_SignRequest r \<Longrightarrow> canonical (SignRequest_json r)"
  by (auto simp: SignRequest_json_def canonical_obj wf_SignRequest_def list_all_iff
      intro!: canonical_slice_json canonical_CommitmentResponse)

lemma depth_SignRequest: "depth (SignRequest_json r) \<le> 3"
proof -
  have "depth (slice_json CommitmentResponse_json (Commitments r)) \<le> Suc 1"
    by (rule depth_slice_json) (rule depth_CommitmentResponse)
  then have "depth (SignRequest_json r) \<le> Suc (Suc 1)"
    unfolding SignRequest_json_def by (intro depth_obj) auto
  then show ?thesis by simp
qed

interpretation sign_request:
  codec "\<lambda>r. json_Marshal (SignRequest_json r)" decode_SignRequest wf_SignRequest
proof
  fix r assume "wf_SignRequest r"
  then show "decode_SignRequest (json_Marshal (SignRequest_json r)) = Ret r"
    unfolding decode_SignRequest_def
    using depth_SignRequest [of r]
    by (intro json_Decode_Marshal canonical_SignRequest into_SignRequest_json)
       (simp_all add: json_max_depth_def)
qed

lemma into_SignatureShareResponse_json:
  "into_SignatureShareResponse x (SignatureShareResponse_json s) = Some s"
  by (simp add: into_SignatureShareResponse_def SignatureShareResponse_json_def into_obj_simps
      into_uint_json)

lemma canonical_SignatureShareResponse:
  "wf_SignatureShareResponse s \<Longrightarrow> canonical (SignatureShareResponse_json s)"
  by (simp add: SignatureShareResponse_json_def canonical_obj wf_SignatureShareResponse_def
      canonical_uint_json)

lemma depth_SignatureShareResponse: "depth (SignatureShareResponse_json s) \<le> 1"
  unfolding SignatureShareResponse_json_def One_nat_def by (rule depth_obj) auto

interpretation share_response:
  codec "\<lambda>s. json_Encode (SignatureShareResponse_json s)" unmarshal_SignatureShareResponse
    wf_SignatureShareResponse
proof
  fix s assume "wf_SignatureShareResponse s"
  then show "unmarshal_SignatureShareResponse (json_Encode (SignatureShareResponse_json s)) = Ret s"
    unfolding unmarshal_SignatureShareResponse_def
    using depth_SignatureShareResponse [of s]
    by (intro json_Unmarshal_Encode canonical_SignatureShareResponse
        into_SignatureShareResponse_json) (simp_all add: json_max_depth_def)
qed

interpretation share_response_stream:
  codec "\<lambda>s. json_Encode (SignatureShareResponse_json s)" decode_SignatureShareResponse
    wf_SignatureShareResponse
proof
  fix s assume "wf_SignatureShareResponse s"
  then show "decode_SignatureShareResponse (json_Encode (SignatureShareResponse_json s)) = Ret s"
    unfolding decode_SignatureShareResponse_def
    using depth_SignatureShareResponse [of s]
    by (intro json_Decode_Encode canonical_SignatureShareResponse
        into_SignatureShareResponse_json) (simp_all add: json_max_depth_def)
qed

end
