(* ===== verification/Frost_Lib.thy ===== *)
theory Frost_Lib
  imports Prelude
begin

text \<open>
  The FROST library (\<open>github.com/bytemare/frost\<close>, \<open>secret-sharing\<close> and \<open>ecc\<close>) is not part of the
  repository: it is a parameter of the model, the record \<open>frost_lib\<close>, with one field for each of its
  functions the program calls.  \<open>'s\<close> is a scalar, \<open>'e\<close> a group element and \<open>'g\<close> a signer object with
  its unpublished nonces.  The structs whose fields the program reads or fills in are records.
  A field is a function when its result depends on the arguments alone: \<open>Configuration.Signer\<close> checks
  the key share against the configuration and fills in a struct, it draws no random numbers, so two
  calls with the same arguments agree.
  \<open>frost_codecs\<close> is the documented behaviour the transport relies on: hexadecimal encodings decode
  back, and are ASCII.
\<close>

record 'e PublicKeyShare =
  PublicKey :: 'e
  PubID :: u16

record ('s, 'e) KeyShare =
  Secret :: 's
  VerificationKey :: 'e
  PubShare :: "'e PublicKeyShare"

record 'e Configuration =
  cfg_Threshold :: nat
  cfg_MaxSigners :: nat
  cfg_VerificationKey :: 'e
  cfg_SignerPublicKeyShares :: "'e PublicKeyShare list"

record 'e frost_Commitment =
  fc_CommitmentID :: u64
  fc_SignerID :: u16
  fc_Nonces :: "'e \<times> 'e"

record 's SignatureShare =
  SignerIdentifier :: u16
  share_value :: 's

type_synonym ('s, 'e) frost_signature = "'e \<times> 's"

record ('s, 'e, 'g) frost_lib =
  KeyShare_DecodeHex :: "string \<Rightarrow> ('s, 'e) KeyShare go"
  KeyShare_Hex :: "('s, 'e) KeyShare \<Rightarrow> string"
  KeyShare_Public :: "('s, 'e) KeyShare \<Rightarrow> 'e PublicKeyShare"
  Config_Init :: "'e Configuration \<Rightarrow> 'e Configuration go"
  Config_Signer :: "'e Configuration \<Rightarrow> ('s, 'e) KeyShare \<Rightarrow> 'g go"
  Signer_Identifier :: "'g \<Rightarrow> u16"
  Signer_Commit :: "'g \<Rightarrow> 'e frost_Commitment \<times> 'g"
  Signer_Sign :: "'g \<Rightarrow> bytes \<Rightarrow> 'e frost_Commitment list \<Rightarrow> 's SignatureShare go \<times> 'g"
  CommitmentList_Sort :: "'e frost_Commitment list \<Rightarrow> 'e frost_Commitment list"
  Commitment_Hex :: "'e frost_Commitment \<Rightarrow> string"
  Commitment_DecodeHex :: "string \<Rightarrow> 'e frost_Commitment go"
  SignatureShare_Hex :: "'s SignatureShare \<Rightarrow> string"
  SignatureShare_DecodeHex :: "string \<Rightarrow> 's SignatureShare go"
  Signature_Hex :: "('s, 'e) frost_signature \<Rightarrow> string"
  Config_Aggregate :: "'e Configuration \<Rightarrow> bytes \<Rightarrow> 's SignatureShare list \<Rightarrow>
     'e frost_Commitment list \<Rightarrow> bool \<Rightarrow> ('s, 'e) frost_signature go"

definition ascii :: "string \<Rightarrow> bool" where
  "ascii s = (\<forall>c \<in> set s. (of_char c :: nat) < 128)"

definition frost_codecs :: "('s, 'e, 'g) frost_lib \<Rightarrow> bool" where
  "frost_codecs F \<longleftrightarrow>
     (\<forall>c. Commitment_DecodeHex F (Commitment_Hex F c) = Ret c \<and> ascii (Commitment_Hex F c)) \<and>
     (\<forall>s. SignatureShare_DecodeHex F (SignatureShare_Hex F s) = Ret s \<and> ascii (SignatureShare_Hex F s))"

text \<open>The program fixes the scheme: three of five.\<close>

definition frost_Threshold :: nat where "frost_Threshold = 3"
definition frost_MaxSigners :: nat where "frost_MaxSigners = 5"

end
