(* ===== verification/Frost_Wire.thy ===== *)
theory Frost_Wire
  imports Api Frost_Lib
begin

text \<open>
  FROST objects in the messages: the loops with which the signer and both coordinators decode the hex
  strings of a list of commitments or of signature shares, stopping at the first that fails.
\<close>

definition decode_commitments ::
  "('s, 'e, 'g) frost_lib \<Rightarrow> CommitmentResponse list \<Rightarrow> 'e frost_Commitment list go" where
  "decode_commitments F items = traverse (\<lambda>item. Commitment_DecodeHex F (Commitment item)) items"

definition decode_signature_shares ::
  "('s, 'e, 'g) frost_lib \<Rightarrow> SignatureShareResponse list \<Rightarrow> 's SignatureShare list go" where
  "decode_signature_shares F items =
     traverse (\<lambda>item. SignatureShare_DecodeHex F (Share item)) items"

text \<open>The messages a signer makes of its objects.\<close>

definition commitment_message :: "('s, 'e, 'g) frost_lib \<Rightarrow> 'e frost_Commitment \<Rightarrow> CommitmentResponse" where
  "commitment_message F c =
     \<lparr>CommitmentID = fc_CommitmentID c, SignerID = fc_SignerID c, Commitment = Commitment_Hex F c\<rparr>"

definition share_message :: "('s, 'e, 'g) frost_lib \<Rightarrow> 's SignatureShare \<Rightarrow> SignatureShareResponse" where
  "share_message F s = \<lparr>ShareSignerID = SignerIdentifier s, Share = SignatureShare_Hex F s\<rparr>"

lemma decode_commitment_messages:
  "frost_codecs F \<Longrightarrow> decode_commitments F (map (commitment_message F) cs) = Ret cs"
  unfolding decode_commitments_def
  by (rule traverse_map_inverse) (simp add: frost_codecs_def commitment_message_def)

lemma decode_share_messages:
  "frost_codecs F \<Longrightarrow> decode_signature_shares F (map (share_message F) ss) = Ret ss"
  unfolding decode_signature_shares_def
  by (rule traverse_map_inverse) (simp add: frost_codecs_def share_message_def)

lemma wf_commitment_message: "frost_codecs F \<Longrightarrow> wf_CommitmentResponse (commitment_message F c)"
  by (simp add: frost_codecs_def wf_CommitmentResponse_def commitment_message_def ascii_def
      ascii_valid_utf8)

lemma wf_share_message: "frost_codecs F \<Longrightarrow> wf_SignatureShareResponse (share_message F s)"
  by (simp add: frost_codecs_def wf_SignatureShareResponse_def share_message_def ascii_def
      ascii_valid_utf8)

end
