(* ===== verification/Go_Os.thy ===== *)
theory Go_Os
  imports Prelude
begin

text \<open>
  The operating system as the program sees it: environment variables (an unset one reads as the
  empty string, which is how \<open>os.Getenv\<close> reports it) and a file system whose files can be missing,
  unreadable, impossible to create or impossible to write to.
\<close>

type_synonym environment = "string \<Rightarrow> string"

datatype entry = Readable bytes | Unreadable

record file_system =
  entries :: "string \<rightharpoonup> entry"
  creatable :: "string \<Rightarrow> bool"
  disk_ok :: "string \<Rightarrow> bool"

definition Stat_ok :: "string \<Rightarrow> file_system \<Rightarrow> bool" where
  "Stat_ok p s = (entries s p \<noteq> None)"

definition ReadFile :: "string \<Rightarrow> file_system \<Rightarrow> bytes go" where
  "ReadFile p s =
     (case entries s p of
        None \<Rightarrow> Err (Msg (''open '' @ p @ '': no such file or directory''))
      | Some Unreadable \<Rightarrow> Err (Msg (''open '' @ p @ '': permission denied''))
      | Some (Readable d) \<Rightarrow> Ret d)"

text \<open>\<open>os.Create\<close> truncates; \<open>write_file\<close> adds to the open file.\<close>

definition Create :: "string \<Rightarrow> file_system \<Rightarrow> unit go \<times> file_system" where
  "Create p s =
     (if creatable s p then (Ret (), s\<lparr>entries := (entries s)(p \<mapsto> Readable [])\<rparr>)
      else (Err (Msg (''open '' @ p @ '': permission denied'')), s))"

definition write_file :: "string \<Rightarrow> bytes \<Rightarrow> file_system \<Rightarrow> unit go \<times> file_system" where
  "write_file p d s =
     (if disk_ok s p then
        (Ret (), s\<lparr>entries := (entries s)(p \<mapsto>
           (case entries s p of Some (Readable old) \<Rightarrow> Readable (old @ d) | _ \<Rightarrow> Readable d))\<rparr>)
      else (Err (Msg (''write '' @ p @ '': no space left on device'')), s))"

definition WriteFile :: "string \<Rightarrow> bytes \<Rightarrow> file_system \<Rightarrow> unit go \<times> file_system" where
  "WriteFile p d s =
     (case Create p s of (Ret _, s') \<Rightarrow> write_file p d s' | (r, s') \<Rightarrow> (r, s'))"

text \<open>Whether a directory's entry can be made also decides whether it can be removed.\<close>

definition Remove :: "string \<Rightarrow> file_system \<Rightarrow> unit go \<times> file_system" where
  "Remove p s =
     (if entries s p = None then
        (Err (Msg (''remove '' @ p @ '': no such file or directory'')), s)
      else if creatable s p then (Ret (), s\<lparr>entries := (entries s)(p := None)\<rparr>)
      else (Err (Msg (''remove '' @ p @ '': permission denied'')), s))"

text \<open>
  \<open>os.MkdirAll\<close>: the state keeps the files only, and a directory that is made changes none of them.
\<close>

definition MkdirAll :: "string \<Rightarrow> file_system \<Rightarrow> unit go \<times> file_system" where
  "MkdirAll p s =
     (if entries s p \<noteq> None then (Err (Msg (''mkdir '' @ p @ '': not a directory'')), s)
      else if creatable s p then (Ret (), s)
      else (Err (Msg (''mkdir '' @ p @ '': permission denied'')), s))"

definition getenv_default :: "environment \<Rightarrow> string \<Rightarrow> string \<Rightarrow> string" where
  "getenv_default env key fallback = (if env key \<noteq> [] then env key else fallback)"

lemma ReadFile_no_panic [simp]: "ReadFile p s \<noteq> Panic"
  by (auto simp: ReadFile_def split: option.splits entry.splits)

lemma WriteFile_ok:
  "creatable s p \<Longrightarrow> disk_ok s p \<Longrightarrow>
     WriteFile p d s = (Ret (), s\<lparr>entries := (entries s)(p \<mapsto> Readable d)\<rparr>)"
  by (simp add: WriteFile_def Create_def write_file_def)

lemma WriteFile_Ret: "WriteFile p d s = (Ret u, s') \<Longrightarrow> ReadFile p s' = Ret d"
  by (auto simp: WriteFile_def Create_def write_file_def ReadFile_def split: if_splits)

lemma WriteFile_other: "WriteFile p d s = (r, s') \<Longrightarrow> q \<noteq> p \<Longrightarrow> entries s' q = entries s q"
  by (auto simp: WriteFile_def Create_def write_file_def split: if_splits)

end
