(* ===== verification/Keystore.thy ===== *)
theory Keystore
  imports Go_Json_Struct Go_Os
begin

text \<open>
  \<open>internal/keystore\<close> and its copy under \<open>deploy/\<close>: key shares at rest under AES-256-GCM with a key
  hashed from a password, stored as a JSON object of two hex strings.  SHA-256, AES and GCM are a
  parameter, the record \<open>aead\<close>; what the code relies on is \<open>aead_lawful\<close>.
\<close>

record aead =
  hash256 :: "bytes \<Rightarrow> bytes"
  Seal :: "bytes \<Rightarrow> bytes \<Rightarrow> bytes \<Rightarrow> bytes"
  Open :: "bytes \<Rightarrow> bytes \<Rightarrow> bytes \<Rightarrow> bytes option"

text \<open>
  A SHA-256 digest has 32 bytes.  GCM with a key and a nonce: opening gives back what was sealed, and
  a ciphertext that opens is the one that sealing gives (the tag is recomputed and compared).
\<close>

definition aead_lawful :: "aead \<Rightarrow> bool" where
  "aead_lawful A \<longleftrightarrow>
     (\<forall>p. length (hash256 A p) = 32) \<and>
     (\<forall>k n d. Open A k n (Seal A k n d) = Some d) \<and>
     (\<forall>k n c d. Open A k n c = Some d \<longrightarrow> c = Seal A k n d)"

definition gcm_NonceSize :: nat where
  "gcm_NonceSize = 12"

record EncryptedStore =
  Nonce :: string
  Ciphertext :: string

definition zero_EncryptedStore :: EncryptedStore where
  "zero_EncryptedStore = \<lparr>Nonce = [], Ciphertext = []\<rparr>"

definition EncryptedStore_json :: "EncryptedStore \<Rightarrow> json" where
  "EncryptedStore_json s =
     obj [(''nonce'', JStr (Nonce s)), (''ciphertext'', JStr (Ciphertext s))]"

definition into_EncryptedStore :: "EncryptedStore into" where
  "into_EncryptedStore =
     into_struct
       [fld ''nonce'' into_string Nonce (\<lambda>v. Nonce_update (\<lambda>_. v)),
        fld ''ciphertext'' into_string Ciphertext (\<lambda>v. Ciphertext_update (\<lambda>_. v))]"

definition deriveKey :: "aead \<Rightarrow> string \<Rightarrow> bytes" where
  "deriveKey A password = hash256 A password"

text \<open>\<open>aes.NewCipher\<close> takes keys of 16, 24 and 32 bytes.\<close>

definition aes_NewCipher :: "bytes \<Rightarrow> bytes go" where
  "aes_NewCipher key =
     (if length key \<in> {16, 24, 32} then Ret key
      else Err (Msg ''crypto/aes: invalid key size''))"

text \<open>\<open>gcm.Open\<close> panics on a nonce of the wrong length.\<close>

definition gcm_Open :: "aead \<Rightarrow> bytes \<Rightarrow> bytes \<Rightarrow> bytes \<Rightarrow> bytes go" where
  "gcm_Open A key nonce c =
     (if length nonce \<noteq> gcm_NonceSize then Panic
      else of_opt (Msg ''cipher: message authentication failed'') (Open A key nonce c))"

subsection \<open>Encrypt and Decrypt\<close>

text \<open>\<open>rnd\<close> is the outcome of reading \<open>gcm.NonceSize()\<close> bytes from \<open>rand.Reader\<close>.\<close>

definition Encrypt :: "aead \<Rightarrow> bytes go \<Rightarrow> bytes \<Rightarrow> string \<Rightarrow> bytes go" where
  "Encrypt A rnd data password =
     (let key = deriveKey A password in
      bind_go (aes_NewCipher key) (\<lambda>block.
      bind_go rnd (\<lambda>nonce.
        let ciphertext = Seal A block nonce data;
            store = \<lparr>Nonce = hex_EncodeToString nonce, Ciphertext = hex_EncodeToString ciphertext\<rparr>
        in Ret (json_Marshal (EncryptedStore_json store)))))"

definition Decrypt_with :: "string \<Rightarrow> aead \<Rightarrow> bytes \<Rightarrow> string \<Rightarrow> bytes go" where
  "Decrypt_with failure A encryptedData password =
     bind_go (wrap_err ''parse encrypted store''
                (json_Unmarshal into_EncryptedStore zero_EncryptedStore encryptedData)) (\<lambda>store.
     let key = deriveKey A password in
     bind_go (hex_DecodeString (Nonce store)) (\<lambda>nonce.
     bind_go (hex_DecodeString (Ciphertext store)) (\<lambda>ciphertext.
     bind_go (aes_NewCipher key) (\<lambda>block.
     wrap_err failure (gcm_Open A block nonce ciphertext)))))"

definition Decrypt :: "aead \<Rightarrow> bytes \<Rightarrow> string \<Rightarrow> bytes go" where
  "Decrypt = Decrypt_with ''decryption failed''"

subsection \<open>Files\<close>

definition SaveEncryptedKeys ::
  "aead \<Rightarrow> bytes go \<Rightarrow> string \<Rightarrow> string \<Rightarrow> string \<Rightarrow> file_system \<Rightarrow> unit go \<times> file_system" where
  "SaveEncryptedKeys A rnd keysFile encryptedFile password s =
     (case wrap_err ''read keys file'' (ReadFile keysFile s) of
        Ret data \<Rightarrow>
          (case wrap_err ''encrypt'' (Encrypt A rnd data password) of
             Ret encrypted \<Rightarrow>
               (case WriteFile encryptedFile encrypted s of
                  (r, s') \<Rightarrow> (wrap_err ''write encrypted file'' r, s'))
           | Err e \<Rightarrow> (Err e, s)
           | Panic \<Rightarrow> (Panic, s))
      | Err e \<Rightarrow> (Err e, s)
      | Panic \<Rightarrow> (Panic, s))"

definition LoadDecryptedKeys :: "aead \<Rightarrow> string \<Rightarrow> string \<Rightarrow> file_system \<Rightarrow> bytes go" where
  "LoadDecryptedKeys A encryptedFile password s =
     bind_go (wrap_err ''read encrypted file'' (ReadFile encryptedFile s))
       (\<lambda>data. Decrypt A data password)"

definition default_password :: string where
  "default_password = ''frost-dev-password''"

text \<open>\<open>cmd/encrypt-keys\<close> (and its copy): an error exits with status 1.\<close>

definition encrypt_keys_main ::
  "aead \<Rightarrow> bytes go \<Rightarrow> environment \<Rightarrow> file_system \<Rightarrow> unit go \<times> file_system" where
  "encrypt_keys_main A rnd env s =
     (let password = env ''FROST_KEY_PASSWORD'';
          password = (if password = [] then default_password else password)
      in SaveEncryptedKeys A rnd ''data/frost-keys.json'' ''data/frost-keys.enc'' password s)"

subsection \<open>The copy under deploy\<close>

text \<open>
  \<open>deploy/internal/keystore\<close> and \<open>deploy/cmd/encrypt-keys\<close> are files of their own; they differ from the
  above in one word of one error.
\<close>

definition deploy_deriveKey :: "aead \<Rightarrow> string \<Rightarrow> bytes" where
  "deploy_deriveKey A password = hash256 A password"

definition deploy_Encrypt :: "aead \<Rightarrow> bytes go \<Rightarrow> bytes \<Rightarrow> string \<Rightarrow> bytes go" where
  "deploy_Encrypt A rnd data password =
     (let key = deploy_deriveKey A password in
      bind_go (aes_NewCipher key) (\<lambda>block.
      bind_go rnd (\<lambda>nonce.
        let ciphertext = Seal A block nonce data;
            store = \<lparr>Nonce = hex_EncodeToString nonce, Ciphertext = hex_EncodeToString ciphertext\<rparr>
        in Ret (json_Marshal (EncryptedStore_json store)))))"

definition deploy_Decrypt :: "aead \<Rightarrow> bytes \<Rightarrow> string \<Rightarrow> bytes go" where
  "deploy_Decrypt A encryptedData password =
     bind_go (wrap_err ''parse encrypted store''
                (json_Unmarshal into_EncryptedStore zero_EncryptedStore encryptedData)) (\<lambda>store.
     let key = deploy_deriveKey A password in
     bind_go (hex_DecodeString (Nonce store)) (\<lambda>nonce.
     bind_go (hex_DecodeString (Ciphertext store)) (\<lambda>ciphertext.
     bind_go (aes_NewCipher key) (\<lambda>block.
     wrap_err ''decryption failed (wrong password?)'' (gcm_Open A block nonce ciphertext)))))"

definition deploy_SaveEncryptedKeys ::
  "aead \<Rightarrow> bytes go \<Rightarrow> string \<Rightarrow> string \<Rightarrow> string \<Rightarrow> file_system \<Rightarrow> unit go \<times> file_system" where
  "deploy_SaveEncryptedKeys A rnd keysFile encryptedFile password s =
     bind_w (wrap_err ''read keys file'' (ReadFile keysFile s), s) (\<lambda>data s.
     bind_w (wrap_err ''encrypt'' (deploy_Encrypt A rnd data password), s) (\<lambda>encrypted s.
     case WriteFile encryptedFile encrypted s of
       (r, s') \<Rightarrow> (wrap_err ''write encrypted file'' r, s')))"

definition deploy_LoadDecryptedKeys :: "aead \<Rightarrow> string \<Rightarrow> string \<Rightarrow> file_system \<Rightarrow> bytes go" where
  "deploy_LoadDecryptedKeys A encryptedFile password s =
     bind_go (wrap_err ''read encrypted file'' (ReadFile encryptedFile s))
       (\<lambda>data. deploy_Decrypt A data password)"

text \<open>The program under \<open>deploy/cmd\<close> imports the keystore above, not the copy beside it.\<close>

definition deploy_encrypt_keys_main ::
  "aead \<Rightarrow> bytes go \<Rightarrow> environment \<Rightarrow> file_system \<Rightarrow> unit go \<times> file_system" where
  "deploy_encrypt_keys_main A rnd env s =
     (let password = env ''FROST_KEY_PASSWORD'';
          password = (if password = [] then default_password else password)
      in SaveEncryptedKeys A rnd ''data/frost-keys.json'' ''data/frost-keys.enc'' password s)"

subsection \<open>Laws\<close>

lemma store_tags_ascii [simp]: "valid_utf8 ''nonce''" "valid_utf8 ''ciphertext''"
  by (rule ascii_valid_utf8, simp)+

lemma into_EncryptedStore_json: "into_EncryptedStore x (EncryptedStore_json s) = Some s"
  by (simp add: into_EncryptedStore_def EncryptedStore_json_def into_obj_simps)

interpretation store:
  codec "\<lambda>s. json_Marshal (EncryptedStore_json s)"
    "json_Unmarshal into_EncryptedStore zero_EncryptedStore"
    "\<lambda>s :: EncryptedStore. valid_utf8 (Nonce s) \<and> valid_utf8 (Ciphertext s)"
proof
  fix s :: EncryptedStore assume "valid_utf8 (Nonce s) \<and> valid_utf8 (Ciphertext s)"
  then have "canonical (EncryptedStore_json s)"
    by (simp add: EncryptedStore_json_def canonical_obj)
  moreover have "depth (EncryptedStore_json s) \<le> json_max_depth"
  proof -
    have "depth (EncryptedStore_json s) \<le> Suc 0"
      unfolding EncryptedStore_json_def by (rule depth_obj) auto
    then show ?thesis by (simp add: json_max_depth_def)
  qed
  ultimately show "json_Unmarshal into_EncryptedStore zero_EncryptedStore
      (json_Marshal (EncryptedStore_json s)) = Ret s"
    by (intro json_Unmarshal_Marshal into_EncryptedStore_json)
qed

lemma aes_NewCipher_deriveKey: "aead_lawful A \<Longrightarrow> aes_NewCipher (deriveKey A pw) = Ret (deriveKey A pw)"
  by (simp add: aes_NewCipher_def deriveKey_def aead_lawful_def)

text \<open>The copies agree, in full or up to the wording of an error.\<close>

lemma deploy_Encrypt_eq: "deploy_Encrypt A rnd d pw = Encrypt A rnd d pw"
  by (simp add: deploy_Encrypt_def Encrypt_def deploy_deriveKey_def deriveKey_def)

lemma deploy_Decrypt_eq:
  "deploy_Decrypt A t pw = Decrypt_with ''decryption failed (wrong password?)'' A t pw"
  by (simp add: deploy_Decrypt_def Decrypt_with_def deploy_deriveKey_def deriveKey_def)

lemma deploy_SaveEncryptedKeys_eq:
  "deploy_SaveEncryptedKeys A rnd kf ef pw s = SaveEncryptedKeys A rnd kf ef pw s"
  by (auto simp: deploy_SaveEncryptedKeys_def SaveEncryptedKeys_def deploy_Encrypt_eq split: go.splits)

lemma deploy_encrypt_keys_main_eq: "deploy_encrypt_keys_main A rnd env s = encrypt_keys_main A rnd env s"
  by (simp add: deploy_encrypt_keys_main_def encrypt_keys_main_def)

lemma Encrypt_Ret:
  assumes "aead_lawful A"
  shows "Encrypt A rnd d pw = Ret c \<longleftrightarrow>
    (\<exists>nonce. rnd = Ret nonce \<and> c = json_Marshal (EncryptedStore_json
       \<lparr>Nonce = hex_EncodeToString nonce,
        Ciphertext = hex_EncodeToString (Seal A (deriveKey A pw) nonce d)\<rparr>))"
  by (auto simp: Encrypt_def Let_def aes_NewCipher_deriveKey [OF assms] bind_go_eq_Ret)

text \<open>What \<open>Decrypt\<close> does with a store that parses.\<close>

lemma Decrypt_with_store:
  assumes "aead_lawful A"
    and "json_Unmarshal into_EncryptedStore zero_EncryptedStore t = Ret s"
    and "hex_DecodeString (Nonce s) = Ret n" and "hex_DecodeString (Ciphertext s) = Ret c"
  shows "Decrypt_with f A t pw = wrap_err f (gcm_Open A (deriveKey A pw) n c)"
  using assms by (simp add: Decrypt_with_def aes_NewCipher_deriveKey)

lemma Decrypt_with_stored:
  assumes "aead_lawful A"
  shows "Decrypt_with f A (json_Marshal (EncryptedStore_json
       \<lparr>Nonce = hex_EncodeToString n, Ciphertext = hex_EncodeToString c\<rparr>)) pw =
     wrap_err f (gcm_Open A (deriveKey A pw) n c)"
  by (rule Decrypt_with_store [OF assms store.dec_enc]) (simp_all add: hex_decode_encode)

lemma Decrypt_with_Encrypt:
  assumes "aead_lawful A" "Encrypt A (Ret nonce) d pw = Ret c" "length nonce = gcm_NonceSize"
  shows "Decrypt_with f A c pw = Ret d"
  using assms by (simp add: Encrypt_Ret Decrypt_with_stored gcm_Open_def aead_lawful_def)

text \<open>Whatever opens was sealed under the same password.\<close>

lemma Decrypt_with_authentic:
  assumes "aead_lawful A" "Decrypt_with f A t pw = Ret d"
  obtains s n where "json_Unmarshal into_EncryptedStore zero_EncryptedStore t = Ret s"
    "hex_DecodeString (Nonce s) = Ret n" "length n = gcm_NonceSize"
    "hex_DecodeString (Ciphertext s) = Ret (Seal A (deriveKey A pw) n d)"
proof -
  from assms(2) obtain s n c where s:
      "json_Unmarshal into_EncryptedStore zero_EncryptedStore t = Ret s"
      "hex_DecodeString (Nonce s) = Ret n" "hex_DecodeString (Ciphertext s) = Ret c"
      "gcm_Open A (deriveKey A pw) n c = Ret d"
    by (auto simp: Decrypt_with_def bind_go_eq_Ret aes_NewCipher_deriveKey [OF assms(1)])
  then have "length n = gcm_NonceSize" "Open A (deriveKey A pw) n c = Some d"
    by (auto simp: gcm_Open_def of_opt_def split: if_splits option.splits)
  with assms(1) s that show thesis unfolding aead_lawful_def by metis
qed

lemma Decrypt_with_panic:
  assumes "aead_lawful A"
  shows "Decrypt_with f A t pw = Panic \<longleftrightarrow>
    (\<exists>s n c. json_Unmarshal into_EncryptedStore zero_EncryptedStore t = Ret s \<and>
       hex_DecodeString (Nonce s) = Ret n \<and> hex_DecodeString (Ciphertext s) = Ret c \<and>
       length n \<noteq> gcm_NonceSize)"
  by (auto simp: Decrypt_with_def bind_go_eq_Panic bind_go_eq_Ret aes_NewCipher_deriveKey [OF assms]
      gcm_Open_def of_opt_def split: option.splits)

text \<open>Only the wording of one error depends on the first argument.\<close>

lemma Decrypt_with_Ret_message:
  "Decrypt_with f A t pw = Ret d \<longleftrightarrow> Decrypt_with f' A t pw = Ret d"
  by (simp add: Decrypt_with_def bind_go_eq_Ret)

lemma SaveEncryptedKeys_Ret:
  assumes "SaveEncryptedKeys A rnd kf ef pw s = (Ret u, s')"
  shows "\<exists>data c. ReadFile kf s = Ret data \<and> Encrypt A rnd data pw = Ret c \<and> ReadFile ef s' = Ret c"
proof -
  from assms obtain data c where r: "ReadFile kf s = Ret data" "Encrypt A rnd data pw = Ret c"
      "WriteFile ef c s = (Ret u, s')"
    by (auto simp: SaveEncryptedKeys_def split: go.splits prod.splits)
  then show ?thesis using WriteFile_Ret by blast
qed

lemma SaveEncryptedKeys_other:
  "SaveEncryptedKeys A rnd kf ef pw s = (r, s') \<Longrightarrow> q \<noteq> ef \<Longrightarrow> entries s' q = entries s q"
  by (auto simp: SaveEncryptedKeys_def dest: WriteFile_other split: go.splits prod.splits)

lemma SaveEncryptedKeys_ok:
  assumes "aead_lawful A" "ReadFile kf s = Ret data" "creatable s ef" "disk_ok s ef"
  shows "\<exists>s'. SaveEncryptedKeys A (Ret nonce) kf ef pw s = (Ret (), s')"
  using assms
  by (simp add: SaveEncryptedKeys_def Encrypt_def Let_def aes_NewCipher_deriveKey WriteFile_ok)

end
