(* ===== verification/Config.thy ===== *)
theory Config
  imports Go_Os
begin

text \<open>
  \<open>internal/config\<close> and the \<open>getEnv\<close> helpers of the three servers: the listening port, the signer's
  identity, and the addresses of the five signers.
\<close>

definition Port :: "environment \<Rightarrow> string" where
  "Port env = (let port = env ''PORT'' in if port = [] then ''8081'' else port)"

definition config_SignerID :: "environment \<Rightarrow> string" where
  "config_SignerID env = (let id = env ''SIGNER_ID'' in if id = [] then ''1'' else id)"

text \<open>The \<open>getEnv\<close> of the proxy, of the DKG coordinator and of the signer: three copies.\<close>

definition proxy_getEnv :: "environment \<Rightarrow> string \<Rightarrow> string \<Rightarrow> string" where
  "proxy_getEnv env key fallback = (let v = env key in if v \<noteq> [] then v else fallback)"

definition dkg_getEnv :: "environment \<Rightarrow> string \<Rightarrow> string \<Rightarrow> string" where
  "dkg_getEnv env key fallback = (let v = env key in if v \<noteq> [] then v else fallback)"

definition signer_getEnv :: "environment \<Rightarrow> string \<Rightarrow> string \<Rightarrow> string" where
  "signer_getEnv env key fallback = (let v = env key in if v \<noteq> [] then v else fallback)"

definition proxy_signerAddresses :: "environment \<Rightarrow> string list" where
  "proxy_signerAddresses env =
     [proxy_getEnv env ''SIGNER_1_ADDR'' ''https://signer-1:8081'',
      proxy_getEnv env ''SIGNER_2_ADDR'' ''https://signer-2:8082'',
      proxy_getEnv env ''SIGNER_3_ADDR'' ''https://signer-3:8083'',
      proxy_getEnv env ''SIGNER_4_ADDR'' ''https://signer-4:8084'',
      proxy_getEnv env ''SIGNER_5_ADDR'' ''https://signer-5:8085'']"

definition dkg_signerAddresses :: "environment \<Rightarrow> string list" where
  "dkg_signerAddresses env =
     [dkg_getEnv env ''SIGNER_1_ADDR'' ''https://signer-1:8081'',
      dkg_getEnv env ''SIGNER_2_ADDR'' ''https://signer-2:8082'',
      dkg_getEnv env ''SIGNER_3_ADDR'' ''https://signer-3:8083'',
      dkg_getEnv env ''SIGNER_4_ADDR'' ''https://signer-4:8084'',
      dkg_getEnv env ''SIGNER_5_ADDR'' ''https://signer-5:8085'']"

lemma getEnv_default:
  "proxy_getEnv env k d = getenv_default env k d"
  "dkg_getEnv env k d = getenv_default env k d"
  "signer_getEnv env k d = getenv_default env k d"
  by (simp_all add: proxy_getEnv_def dkg_getEnv_def signer_getEnv_def getenv_default_def Let_def)

lemma signerAddresses_agree: "proxy_signerAddresses env = dkg_signerAddresses env"
  by (simp add: proxy_signerAddresses_def dkg_signerAddresses_def getEnv_default)

lemma proxy_signerAddresses_length [simp]: "length (proxy_signerAddresses env) = 5"
  by (simp add: proxy_signerAddresses_def)

lemma dkg_signerAddresses_length [simp]: "length (dkg_signerAddresses env) = 5"
  by (simp add: dkg_signerAddresses_def)

end
