(* ===== verification/Go_Chan.thy ===== *)
theory Go_Chan
  imports Prelude
begin

text \<open>
  Buffered Go channels.  \<open>chan_send\<close> and \<open>chan_recv\<close> are the operations when they need not wait;
  \<open>None\<close> is an operation that blocks (or, under a \<open>select\<close> with a \<open>default\<close>, the default branch).
  The locale \<open>bounded_fifo\<close> is what users of a channel rely on: the signer pool of \<open>froststate\<close> and
  the result channels of the proxy.
\<close>

record 'a chan =
  chan_cap :: nat
  chan_buf :: "'a list"

definition make_chan :: "nat \<Rightarrow> 'a chan" where
  "make_chan n = \<lparr>chan_cap = n, chan_buf = []\<rparr>"

definition chan_send :: "'a chan \<Rightarrow> 'a \<Rightarrow> 'a chan option" where
  "chan_send c x =
     (if length (chan_buf c) < chan_cap c then Some (c\<lparr>chan_buf := chan_buf c @ [x]\<rparr>) else None)"

definition chan_recv :: "'a chan \<Rightarrow> ('a \<times> 'a chan) option" where
  "chan_recv c =
     (case chan_buf c of [] \<Rightarrow> None | x # xs \<Rightarrow> Some (x, c\<lparr>chan_buf := xs\<rparr>))"

definition chan_ok :: "'a chan \<Rightarrow> bool" where
  "chan_ok c = (length (chan_buf c) \<le> chan_cap c)"

locale bounded_fifo =
  fixes send :: "'q \<Rightarrow> 'a \<Rightarrow> 'q option"
    and recv :: "'q \<Rightarrow> ('a \<times> 'q) option"
    and contents :: "'q \<Rightarrow> 'a list"
    and capacity :: "'q \<Rightarrow> nat"
    and ok :: "'q \<Rightarrow> bool"
  assumes ok_bound: "ok q \<Longrightarrow> length (contents q) \<le> capacity q"
    and send_free: "ok q \<Longrightarrow> length (contents q) < capacity q \<Longrightarrow>
      \<exists>q'. send q x = Some q' \<and> ok q' \<and> contents q' = contents q @ [x] \<and> capacity q' = capacity q"
    and send_full: "ok q \<Longrightarrow> length (contents q) = capacity q \<Longrightarrow> send q x = None"
    and recv_some: "ok q \<Longrightarrow> contents q = y # ys \<Longrightarrow>
      \<exists>q'. recv q = Some (y, q') \<and> ok q' \<and> contents q' = ys \<and> capacity q' = capacity q"
    and recv_empty: "ok q \<Longrightarrow> contents q = [] \<Longrightarrow> recv q = None"
begin

fun send_all :: "'q \<Rightarrow> 'a list \<Rightarrow> 'q option" where
  "send_all q [] = Some q"
| "send_all q (x # xs) = (case send q x of None \<Rightarrow> None | Some q' \<Rightarrow> send_all q' xs)"

fun recv_n :: "nat \<Rightarrow> 'q \<Rightarrow> ('a list \<times> 'q) option" where
  "recv_n 0 q = Some ([], q)"
| "recv_n (Suc n) q =
     (case recv q of
        None \<Rightarrow> None
      | Some (x, q') \<Rightarrow> (case recv_n n q' of None \<Rightarrow> None | Some (xs, q'') \<Rightarrow> Some (x # xs, q'')))"

lemma send_Some_iff: "ok q \<Longrightarrow> send q x \<noteq> None \<longleftrightarrow> length (contents q) < capacity q"
  using ok_bound send_free send_full by (metis le_neq_implies_less nat_less_le option.distinct(1))

lemma send_keeps: "ok q \<Longrightarrow> send q x = Some q' \<Longrightarrow>
    ok q' \<and> contents q' = contents q @ [x] \<and> capacity q' = capacity q"
  using send_Some_iff [of q x] send_free [of q x] by auto

lemma recv_keeps: "ok q \<Longrightarrow> recv q = Some (x, q') \<Longrightarrow>
    ok q' \<and> contents q = x # contents q' \<and> capacity q' = capacity q"
  using recv_empty [of q] recv_some [of q] by (cases "contents q") fastforce+

text \<open>As many sends as there is room never block, and the values come out in the order they went in.\<close>

lemma send_all_room:
  "ok q \<Longrightarrow> length (contents q) + length xs \<le> capacity q \<Longrightarrow>
     \<exists>q'. send_all q xs = Some q' \<and> ok q' \<and> contents q' = contents q @ xs \<and> capacity q' = capacity q"
proof (induction xs arbitrary: q)
  case Nil
  then show ?case by simp
next
  case (Cons x xs)
  then obtain q1 where q1: "send q x = Some q1" "ok q1" "contents q1 = contents q @ [x]"
      "capacity q1 = capacity q"
    using send_free [of q x] by auto
  with Cons.prems Cons.IH [of q1] show ?case by auto
qed

lemma recv_n_contents:
  "ok q \<Longrightarrow> contents q = xs @ ys \<Longrightarrow>
     \<exists>q'. recv_n (length xs) q = Some (xs, q') \<and> ok q' \<and> contents q' = ys \<and> capacity q' = capacity q"
proof (induction xs arbitrary: q)
  case Nil
  then show ?case by simp
next
  case (Cons x xs)
  then obtain q1 where "recv q = Some (x, q1)" "ok q1" "contents q1 = xs @ ys" "capacity q1 = capacity q"
    using recv_some [of q x "xs @ ys"] by auto
  with Cons.IH [of q1] show ?case by auto
qed

end

interpretation ch: bounded_fifo chan_send chan_recv chan_buf chan_cap chan_ok
  by unfold_locales (auto simp: chan_ok_def chan_send_def chan_recv_def)

lemma make_chan_simps [simp]:
  "chan_ok (make_chan n)" "chan_buf (make_chan n) = []" "chan_cap (make_chan n) = n"
  by (simp_all add: chan_ok_def make_chan_def)

end
