(* ===== verification/Frost_State.thy ===== *)
theory Frost_State
  imports Keystore Config Go_Chan Frost_Lib
begin

text \<open>
  \<open>internal/froststate\<close>: how a signer finds its key share (Vault, then the encrypted file, then the
  plain file), turns the stored shares into a FROST configuration and a signer, and fills the pool of
  signers.  Vault's HTTP answers are the record \<open>vault\<close>.  A blocked send in start-up code would leave
  every goroutine asleep, which the Go runtime ends with a fatal error, here \<open>Panic\<close>.
\<close>

record StoredKeys =
  stored_Config :: string
  stored_Shares :: "string list"

definition zero_StoredKeys :: StoredKeys where
  "zero_StoredKeys = \<lparr>stored_Config = [], stored_Shares = []\<rparr>"

definition into_StoredKeys :: "StoredKeys into" where
  "into_StoredKeys =
     into_struct
       [fld ''config'' into_string stored_Config (\<lambda>v. stored_Config_update (\<lambda>_. v)),
        fld ''shares'' (into_slice into_string []) stored_Shares (\<lambda>v. stored_Shares_update (\<lambda>_. v))]"

definition StoredKeys_json :: "StoredKeys \<Rightarrow> json" where
  "StoredKeys_json s =
     obj [(''config'', JStr (stored_Config s)), (''shares'', slice_json JStr (stored_Shares s))]"

subsection \<open>The signer pool\<close>

definition PoolSize :: nat where
  "PoolSize = 20"

text \<open>\<open>Get\<close> waits on an empty pool (\<open>None\<close>); \<open>Put\<close> into a full one drops the signer.\<close>

definition Pool_Get :: "'g chan \<Rightarrow> ('g \<times> 'g chan) option" where
  "Pool_Get p = chan_recv p"

definition Pool_Put :: "'g chan \<Rightarrow> 'g \<Rightarrow> 'g chan" where
  "Pool_Put p s = (case chan_send p s of Some p' \<Rightarrow> p' | None \<Rightarrow> p)"

subsection \<open>Loading\<close>

record vault =
  vault_NewRequest :: "string \<Rightarrow> error option"
  vault_Do :: "string \<Rightarrow> string \<Rightarrow> bytes go"

definition into_vault_share :: "string into" where
  "into_vault_share =
     into_struct [fld ''data''
       (into_struct [fld ''data''
          (into_struct [fld ''share'' into_string (\<lambda>x. x) (\<lambda>v _. v)])
          (\<lambda>x. x) (\<lambda>v _. v)])
       (\<lambda>x. x) (\<lambda>v _. v)]"

definition loadShareFromVault :: "vault \<Rightarrow> string \<Rightarrow> string \<Rightarrow> int \<Rightarrow> string go" where
  "loadShareFromVault V vaultAddr vaultToken signerID =
     (let url = vaultAddr @ ''/v1/frost/data/signer-'' @ show_int signerID in
      case vault_NewRequest V url of
        Some e \<Rightarrow> Err e
      | None \<Rightarrow>
          bind_go (wrap_err ''vault request'' (vault_Do V url vaultToken)) (\<lambda>body.
          bind_go (wrap_err ''parse vault response'' (json_Unmarshal into_vault_share [] body)) (\<lambda>share.
            if share = [] then Err (Msg ''empty share from vault'') else Ret share)))"

definition key_password :: "environment \<Rightarrow> string" where
  "key_password env =
     (if env ''FROST_KEY_PASSWORD'' = [] then default_password else env ''FROST_KEY_PASSWORD'')"

text \<open>The two local tiers: the encrypted file if it is there and opens, else the plain file.\<close>

definition load_plain :: "file_system \<Rightarrow> bytes go" where
  "load_plain fs = wrap_err ''open frost-keys.json'' (ReadFile ''data/frost-keys.json'' fs)"

definition load_local :: "aead \<Rightarrow> environment \<Rightarrow> file_system \<Rightarrow> bytes go" where
  "load_local A env fs =
     (if Stat_ok ''data/frost-keys.enc'' fs then
        (case LoadDecryptedKeys A ''data/frost-keys.enc'' (key_password env) fs of
           Ret d \<Rightarrow> Ret d
         | Err _ \<Rightarrow> load_plain fs
         | Panic \<Rightarrow> Panic)
      else load_plain fs)"

text \<open>The result: key data (nil after Vault) and the share from Vault (empty after the local tiers).\<close>

definition loadKeysData ::
  "aead \<Rightarrow> vault \<Rightarrow> environment \<Rightarrow> file_system \<Rightarrow> int \<Rightarrow> (bytes \<times> string) go" where
  "loadKeysData A V env fs signerID =
     (let local = bind_go (load_local A env fs) (\<lambda>d. Ret (d, [])) in
      if env ''VAULT_ADDR'' \<noteq> [] \<and> env ''VAULT_TOKEN'' \<noteq> [] then
        (case loadShareFromVault V (env ''VAULT_ADDR'') (env ''VAULT_TOKEN'') signerID of
           Ret share \<Rightarrow> Ret ([], share)
         | Err _ \<Rightarrow> local
         | Panic \<Rightarrow> Panic)
      else local)"

definition unmarshal_stored :: "bytes \<Rightarrow> StoredKeys go" where
  "unmarshal_stored d = wrap_err ''decode json'' (json_Unmarshal into_StoredKeys zero_StoredKeys d)"

text \<open>
  With a share from Vault the other shares still come from the local file, the plain one first.
\<close>

definition stored_keys ::
  "aead \<Rightarrow> environment \<Rightarrow> file_system \<Rightarrow> int \<Rightarrow> bytes \<Rightarrow> string \<Rightarrow> StoredKeys go" where
  "stored_keys A env fs signerID keysData directShare =
     (if directShare \<noteq> [] then
        bind_go (case ReadFile ''data/frost-keys.json'' fs of
                   Err _ \<Rightarrow> wrap_err ''load config''
                     (LoadDecryptedKeys A ''data/frost-keys.enc'' (key_password env) fs)
                 | r \<Rightarrow> r) (\<lambda>data.
        bind_go (unmarshal_stored data) (\<lambda>stored.
        let shareIndex = signerID - 1 in
        if 0 \<le> shareIndex \<and> shareIndex < int (length (stored_Shares stored)) then
          Ret (stored\<lparr>stored_Shares := (stored_Shares stored)[nat shareIndex := directShare]\<rparr>)
        else Ret stored))
      else unmarshal_stored keysData)"

subsection \<open>Configuration\<close>

definition decode_shares :: "('s, 'e, 'g) frost_lib \<Rightarrow> string list \<Rightarrow> ('s, 'e) KeyShare list go" where
  "decode_shares F shares =
     traverse (\<lambda>shareHex. wrap_err ''decode key share'' (KeyShare_DecodeHex F shareHex)) shares"

text \<open>\<open>keyShares[0].VerificationKey\<close>: no share at all is an index out of range.\<close>

definition config_of ::
  "('s, 'e, 'g) frost_lib \<Rightarrow> ('s, 'e) KeyShare list \<Rightarrow> 'e Configuration go" where
  "config_of F keyShares =
     bind_go (index keyShares 0) (\<lambda>first.
       wrap_err ''init config'' (Config_Init F
         \<lparr>cfg_Threshold = frost_Threshold,
          cfg_MaxSigners = frost_MaxSigners,
          cfg_VerificationKey = VerificationKey first,
          cfg_SignerPublicKeyShares = map (KeyShare_Public F) keyShares\<rparr>))"

record ('e, 'g) frost_globals =
  g_Config :: "'e Configuration option"
  g_Signer :: "'g option"
  g_Pool :: "'g chan option"

definition no_globals :: "('e, 'g) frost_globals" where
  "no_globals = \<lparr>g_Config = None, g_Signer = None, g_Pool = None\<rparr>"

text \<open>
  \<open>fill_pool F cfg ks i n ch\<close>: the loop from \<open>i\<close> on, \<open>n\<close> rounds left.  In the code a failure here leaves
  \<open>Signer\<close> and \<open>Config\<close> set, and so it does in \<open>install\<close>; it does not occur, because \<open>Configuration.Signer\<close>
  has just succeeded on the same arguments.
\<close>

fun fill_pool ::
  "('s, 'e, 'g) frost_lib \<Rightarrow> 'e Configuration \<Rightarrow> ('s, 'e) KeyShare \<Rightarrow> nat \<Rightarrow> nat \<Rightarrow> 'g chan \<Rightarrow>
     'g chan go" where
  "fill_pool F cfg ks i 0 ch = Ret ch"
| "fill_pool F cfg ks i (Suc n) ch =
     bind_go (wrap_err (''create pool signer '' @ show_nat i) (Config_Signer F cfg ks)) (\<lambda>s.
       case chan_send ch s of
         None \<Rightarrow> Panic
       | Some ch' \<Rightarrow> fill_pool F cfg ks (Suc i) n ch')"

definition install ::
  "('s, 'e, 'g) frost_lib \<Rightarrow> int \<Rightarrow> ('s, 'e) KeyShare list \<Rightarrow> 'e Configuration \<Rightarrow>
     ('e, 'g) frost_globals \<Rightarrow> unit go \<times> ('e, 'g) frost_globals" where
  "install F shareIndex keyShares cfg g =
     (case bind_go (index keyShares shareIndex)
             (\<lambda>ks. bind_go (wrap_err ''create signer'' (Config_Signer F cfg ks)) (\<lambda>s. Ret (ks, s))) of
        Ret (ks, s) \<Rightarrow>
          (let g1 = g\<lparr>g_Signer := Some s, g_Config := Some cfg\<rparr> in
           case fill_pool F cfg ks 0 PoolSize (make_chan PoolSize) of
             Ret ch \<Rightarrow> (Ret (), g1\<lparr>g_Pool := Some ch\<rparr>)
           | Err e \<Rightarrow> (Err e, g1)
           | Panic \<Rightarrow> (Panic, g1))
      | Err e \<Rightarrow> (Err e, g)
      | Panic \<Rightarrow> (Panic, g))"

definition parse_signer_id :: "environment \<Rightarrow> int go" where
  "parse_signer_id env =
     (case Atoi (config_SignerID env) of
        (n, None) \<Rightarrow> Ret n
      | (_, Some e) \<Rightarrow>
          Err (Wrap ''parse signer id'' (Msg (num_error_text ''Atoi'' (config_SignerID env) e))))"

text \<open>Everything \<open>Init\<close> does before it touches a global variable.\<close>

definition prepare ::
  "('s, 'e, 'g) frost_lib \<Rightarrow> aead \<Rightarrow> vault \<Rightarrow> environment \<Rightarrow> file_system \<Rightarrow>
     (int \<times> ('s, 'e) KeyShare list \<times> 'e Configuration) go" where
  "prepare F A V env fs =
     bind_go (parse_signer_id env) (\<lambda>signerID.
     bind_go (loadKeysData A V env fs signerID) (\<lambda>(keysData, directShare).
     bind_go (stored_keys A env fs signerID keysData directShare) (\<lambda>stored.
     bind_go (decode_shares F (stored_Shares stored)) (\<lambda>keyShares.
     bind_go (config_of F keyShares) (\<lambda>cfg. Ret (signerID, keyShares, cfg))))))"

definition frost_Init ::
  "('s, 'e, 'g) frost_lib \<Rightarrow> aead \<Rightarrow> vault \<Rightarrow> environment \<Rightarrow> file_system \<Rightarrow>
     ('e, 'g) frost_globals \<Rightarrow> unit go \<times> ('e, 'g) frost_globals" where
  "frost_Init F A V env fs g =
     (case prepare F A V env fs of
        Ret (signerID, keyShares, cfg) \<Rightarrow> install F (signerID - 1) keyShares cfg g
      | Err e \<Rightarrow> (Err e, g)
      | Panic \<Rightarrow> (Panic, g))"

subsection \<open>Laws of the pool\<close>

interpretation pool: bounded_fifo chan_send Pool_Get chan_buf chan_cap chan_ok
  unfolding Pool_Get_def by (rule ch.bounded_fifo_axioms)

lemma Pool_Put_ok: "chan_ok p \<Longrightarrow> chan_ok (Pool_Put p s)"
  by (auto simp: Pool_Put_def dest: ch.send_keeps split: option.splits)

lemma Pool_Put_cap [simp]: "chan_cap (Pool_Put p s) = chan_cap p"
  by (simp add: Pool_Put_def chan_send_def)

lemma Pool_Put_room:
  "length (chan_buf p) < chan_cap p \<Longrightarrow> chan_buf (Pool_Put p s) = chan_buf p @ [s]"
  by (simp add: Pool_Put_def chan_send_def)

lemma Pool_Put_full: "chan_ok p \<Longrightarrow> length (chan_buf p) = chan_cap p \<Longrightarrow> Pool_Put p s = p"
  by (simp add: Pool_Put_def ch.send_full)

lemma fill_pool_signer:
  "Config_Signer F cfg ks = Ret s \<Longrightarrow> chan_ok ch \<Longrightarrow> length (chan_buf ch) + n \<le> chan_cap ch \<Longrightarrow>
     fill_pool F cfg ks i n ch = Ret (ch\<lparr>chan_buf := chan_buf ch @ replicate n s\<rparr>)"
proof (induction n arbitrary: i ch)
  case 0
  then show ?case by simp
next
  case (Suc n)
  let ?ch = "ch\<lparr>chan_buf := chan_buf ch @ [s]\<rparr>"
  have "chan_send ch s = Some ?ch" using Suc.prems by (simp add: chan_send_def)
  with Suc.prems Suc.IH [of ?ch "Suc i"] show ?case
    by (simp add: chan_ok_def)
qed

lemma fill_pool_new:
  assumes "Config_Signer F cfg ks = Ret s"
  shows "fill_pool F cfg ks 0 PoolSize (make_chan PoolSize) =
    Ret \<lparr>chan_cap = PoolSize, chan_buf = replicate PoolSize s\<rparr>"
  using fill_pool_signer [OF assms, of "make_chan PoolSize" PoolSize 0]
  by (simp add: make_chan_def chan_ok_def)

lemma fill_pool_fails:
  "\<not> is_ret (Config_Signer F cfg ks) \<Longrightarrow> \<not> is_ret (fill_pool F cfg ks i (Suc n) ch)"
  by (cases "Config_Signer F cfg ks") auto

subsection \<open>Laws of the loader\<close>

lemma load_local_encrypted:
  "ReadFile ''data/frost-keys.enc'' fs = Ret c \<Longrightarrow> Decrypt A c (key_password env) = Ret d \<Longrightarrow>
     load_local A env fs = Ret d"
  by (auto simp: load_local_def LoadDecryptedKeys_def Stat_ok_def ReadFile_def split: option.splits)

lemma loadKeysData_vault:
  "env ''VAULT_ADDR'' \<noteq> [] \<Longrightarrow> env ''VAULT_TOKEN'' \<noteq> [] \<Longrightarrow>
   loadShareFromVault V (env ''VAULT_ADDR'') (env ''VAULT_TOKEN'') i = Ret share \<Longrightarrow>
     loadKeysData A V env fs i = Ret ([], share)"
  by (simp add: loadKeysData_def Let_def)

lemma loadShareFromVault_nonempty:
  "loadShareFromVault V a t i = Ret share \<Longrightarrow> share \<noteq> []"
  by (auto simp: loadShareFromVault_def Let_def bind_go_eq_Ret split: option.splits if_splits)

lemma config_of_Ret:
  "config_of F keyShares = Ret cfg \<longleftrightarrow>
     keyShares \<noteq> [] \<and>
     Config_Init F \<lparr>cfg_Threshold = 3, cfg_MaxSigners = 5,
       cfg_VerificationKey = VerificationKey (hd keyShares),
       cfg_SignerPublicKeyShares = map (KeyShare_Public F) keyShares\<rparr> = Ret cfg"
  by (cases keyShares)
     (auto simp: config_of_def index_def frost_Threshold_def frost_MaxSigners_def)

lemma config_of_empty [simp]: "config_of F [] = Panic"
  by (simp add: config_of_def index_def)

lemma install_Ret:
  assumes "install F i keyShares cfg g = (Ret u, g')"
  shows "\<exists>s. 0 \<le> i \<and> i < int (length keyShares) \<and> Config_Signer F cfg (keyShares ! nat i) = Ret s \<and>
     g' = g\<lparr>g_Signer := Some s, g_Config := Some cfg,
             g_Pool := Some \<lparr>chan_cap = PoolSize, chan_buf = replicate PoolSize s\<rparr>\<rparr>"
proof -
  from assms obtain ks s ch where k: "index keyShares i = Ret ks" "Config_Signer F cfg ks = Ret s"
      "fill_pool F cfg ks 0 PoolSize (make_chan PoolSize) = Ret ch"
      "g' = g\<lparr>g_Signer := Some s, g_Config := Some cfg, g_Pool := Some ch\<rparr>"
    by (auto simp: install_def bind_go_eq_Ret Let_def split: go.splits prod.splits)
  have "ch = \<lparr>chan_cap = PoolSize, chan_buf = replicate PoolSize s\<rparr>"
    using k(3) fill_pool_new [OF k(2)] by simp
  with k show ?thesis by (auto simp: index_def split: if_splits)
qed

text \<open>
  A failure leaves the globals alone: creating a pool signer repeats the call that has just succeeded,
  and the new channel has room for all of them.
\<close>

lemma install_failed:
  assumes "\<not> is_ret (fst (install F i keyShares cfg g))"
  shows "snd (install F i keyShares cfg g) = g"
proof (cases "bind_go (index keyShares i)
    (\<lambda>ks. bind_go (wrap_err ''create signer'' (Config_Signer F cfg ks)) (\<lambda>s. Ret (ks, s)))")
  case (Ret x)
  then obtain ks s where "x = (ks, s)" "Config_Signer F cfg ks = Ret s"
    by (auto simp: bind_go_eq_Ret)
  with Ret assms show ?thesis by (simp add: install_def fill_pool_new)
qed (simp_all add: install_def)

lemma install_out_of_range:
  "i < 0 \<or> int (length keyShares) \<le> i \<Longrightarrow> install F i keyShares cfg g = (Panic, g)"
  by (auto simp: install_def index_def)

lemma install_signer:
  assumes "0 \<le> i" "i < int (length keyShares)" "Config_Signer F cfg (keyShares ! nat i) = Ret s"
  shows "install F i keyShares cfg g =
    (Ret (), g\<lparr>g_Signer := Some s, g_Config := Some cfg,
               g_Pool := Some \<lparr>chan_cap = PoolSize, chan_buf = replicate PoolSize s\<rparr>\<rparr>)"
  using assms by (simp add: install_def index_def fill_pool_new)

end
