(* ===== verification/Dkg.thy ===== *)
theory Dkg
  imports Go_Json_Struct Frost_Lib
begin

text \<open>
  \<open>internal/dkg\<close>: one participant of the distributed key generation.  Scalars are a field \<open>'s\<close> and
  group elements an abelian group \<open>'e\<close> (the library's \<open>Zero\<close>, \<open>Add\<close>, \<open>Identity\<close> and \<open>SetUInt64\<close> are
  \<open>0\<close>, \<open>+\<close> and \<open>of_nat\<close>); the rest of the library is the record \<open>dkg_group\<close>, and \<open>dkg_lawful\<close> is
  its documented behaviour.  \<open>draw n\<close> is the \<open>n\<close>-th scalar that \<open>Random\<close> returns.
\<close>

record ('s, 'e) dkg_group =
  base_mul :: "'s \<Rightarrow> 'e"
  poly_Evaluate :: "'s list \<Rightarrow> 's \<Rightarrow> 's go"
  scalar_Marshal :: "'s \<Rightarrow> bytes go"
  scalar_Unmarshal :: "bytes \<Rightarrow> 's go"
  element_Marshal :: "'e \<Rightarrow> bytes go"
  element_Unmarshal :: "bytes \<Rightarrow> 'e go"

fun poly_value :: "'s::comm_ring_1 list \<Rightarrow> 's \<Rightarrow> 's" where
  "poly_value [] x = 0"
| "poly_value (a # p) x = a + x * poly_value p x"

definition dkg_lawful :: "('s::field, 'e::ab_group_add) dkg_group \<Rightarrow> bool" where
  "dkg_lawful G \<longleftrightarrow>
     (\<forall>a b. base_mul G (a + b) = base_mul G a + base_mul G b) \<and>
     (\<forall>p x. p \<noteq> [] \<longrightarrow> poly_Evaluate G p x = Ret (poly_value p x)) \<and>
     (\<forall>s. \<exists>b. scalar_Marshal G s = Ret b \<and> scalar_Unmarshal G b = Ret s) \<and>
     (\<forall>e. \<exists>b. element_Marshal G e = Ret b \<and> element_Unmarshal G b = Ret e)"

record 's Participant =
  p_ID :: u16
  p_Threshold :: nat
  p_MaxSigners :: nat
  p_polynomial :: "'s list option"

record DkgCommitment =
  ParticipantID :: u16
  CoeffCommitments :: "string list"

record SharePackage =
  FromID :: u16
  ToID :: u16
  PkgShare :: string

subsection \<open>JSON\<close>

definition zero_DkgCommitment :: DkgCommitment where
  "zero_DkgCommitment = \<lparr>ParticipantID = 0, CoeffCommitments = []\<rparr>"

definition zero_SharePackage :: SharePackage where
  "zero_SharePackage = \<lparr>FromID = 0, ToID = 0, PkgShare = []\<rparr>"

definition DkgCommitment_json :: "DkgCommitment \<Rightarrow> json" where
  "DkgCommitment_json c =
     obj [(''participant_id'', uint_json (ParticipantID c)),
          (''commitments'', slice_json JStr (CoeffCommitments c))]"

definition into_DkgCommitment :: "DkgCommitment into" where
  "into_DkgCommitment =
     into_struct
       [fld ''participant_id'' into_uint ParticipantID (\<lambda>v. ParticipantID_update (\<lambda>_. v)),
        fld ''commitments'' (into_slice into_string []) CoeffCommitments
          (\<lambda>v. CoeffCommitments_update (\<lambda>_. v))]"

definition SharePackage_json :: "SharePackage \<Rightarrow> json" where
  "SharePackage_json s =
     obj [(''from_id'', uint_json (FromID s)), (''to_id'', uint_json (ToID s)),
          (''share'', JStr (PkgShare s))]"

definition into_SharePackage :: "SharePackage into" where
  "into_SharePackage =
     into_struct
       [fld ''from_id'' into_uint FromID (\<lambda>v. FromID_update (\<lambda>_. v)),
        fld ''to_id'' into_uint ToID (\<lambda>v. ToID_update (\<lambda>_. v)),
        fld ''share'' into_string PkgShare (\<lambda>v. PkgShare_update (\<lambda>_. v))]"

subsection \<open>The three operations of a participant\<close>

definition NewParticipant :: "u16 \<Rightarrow> nat \<Rightarrow> nat \<Rightarrow> 's Participant" where
  "NewParticipant ident threshold maxSigners =
     \<lparr>p_ID = ident, p_Threshold = threshold, p_MaxSigners = maxSigners, p_polynomial = None\<rparr>"

definition commit_coeff :: "('s, 'e) dkg_group \<Rightarrow> 's \<Rightarrow> string go" where
  "commit_coeff G coeff =
     bind_go (wrap_err ''marshal point'' (element_Marshal G (base_mul G coeff)))
       (\<lambda>encoded. Ret (hex_EncodeToString encoded))"

text \<open>\<open>Round1\<close> stores the polynomial before it encodes the commitments; \<open>n\<close> scalars were drawn before.\<close>

definition Round1 ::
  "('s, 'e) dkg_group \<Rightarrow> (nat \<Rightarrow> 's) \<Rightarrow> nat \<Rightarrow> 's Participant \<Rightarrow>
     DkgCommitment go \<times> 's Participant \<times> nat" where
  "Round1 G draw n p =
     (let coeffs = map (\<lambda>i. draw (n + i)) [0..<p_Threshold p];
          p' = p\<lparr>p_polynomial := Some coeffs\<rparr>
      in (bind_go (traverse (commit_coeff G) coeffs)
            (\<lambda>commitments. Ret \<lparr>ParticipantID = p_ID p, CoeffCommitments = commitments\<rparr>),
          p', n + p_Threshold p))"

definition Round2 :: "('s::field, 'e) dkg_group \<Rightarrow> 's Participant \<Rightarrow> u16 \<Rightarrow> SharePackage go" where
  "Round2 G p toID =
     (case p_polynomial p of
        None \<Rightarrow> Err (Msg ''round1 not completed'')
      | Some poly \<Rightarrow>
          bind_go (poly_Evaluate G poly (of_nat (unat toID))) (\<lambda>share.
          bind_go (scalar_Marshal G share) (\<lambda>encoded.
          Ret \<lparr>FromID = p_ID p, ToID = toID, PkgShare = hex_EncodeToString encoded\<rparr>)))"

text \<open>The loop of \<open>Finalize\<close>: packages for somebody else are skipped, a nil package panics.\<close>

fun add_shares ::
  "('s::field, 'e) dkg_group \<Rightarrow> u16 \<Rightarrow> 's \<Rightarrow> SharePackage option list \<Rightarrow> 's go" where
  "add_shares G me acc [] = Ret acc"
| "add_shares G me acc (None # rest) = Panic"
| "add_shares G me acc (Some pkg # rest) =
     (if ToID pkg \<noteq> me then add_shares G me acc rest
      else bind_go (hex_DecodeString (PkgShare pkg)) (\<lambda>shareBytes.
           bind_go (scalar_Unmarshal G shareBytes) (\<lambda>s. add_shares G me (acc + s) rest)))"

text \<open>A nil polynomial is the empty one to the library; \<open>allCommitments\<close> is not used.\<close>

definition Finalize ::
  "('s::field, 'e) dkg_group \<Rightarrow> 's Participant \<Rightarrow> SharePackage option list \<Rightarrow>
     DkgCommitment option list \<Rightarrow> 'e \<Rightarrow> ('s, 'e) KeyShare go" where
  "Finalize G p receivedShares allCommitments verificationKey =
     bind_go (poly_Evaluate G (case p_polynomial p of None \<Rightarrow> [] | Some q \<Rightarrow> q)
                (of_nat (unat (p_ID p)))) (\<lambda>ownShare.
     bind_go (add_shares G (p_ID p) (0 + ownShare) receivedShares) (\<lambda>finalSecret.
     Ret \<lparr>Secret = finalSecret, VerificationKey = verificationKey,
          PubShare = \<lparr>PublicKey = base_mul G finalSecret, PubID = p_ID p\<rparr>\<rparr>))"

fun add_commitments ::
  "('s, 'e::ab_group_add) dkg_group \<Rightarrow> 'e \<Rightarrow> DkgCommitment option list \<Rightarrow> 'e go" where
  "add_commitments G acc [] = Ret acc"
| "add_commitments G acc (None # rest) = Panic"
| "add_commitments G acc (Some c # rest) =
     (case CoeffCommitments c of
        [] \<Rightarrow> Err (Msg (''empty commitments from participant '' @ show_nat (unat (ParticipantID c))))
      | first # _ \<Rightarrow>
          bind_go (hex_DecodeString first) (\<lambda>pointBytes.
          bind_go (element_Unmarshal G pointBytes) (\<lambda>point. add_commitments G (acc + point) rest)))"

definition ComputeGroupPublicKey ::
  "('s, 'e::ab_group_add) dkg_group \<Rightarrow> DkgCommitment option list \<Rightarrow> 'e go" where
  "ComputeGroupPublicKey G allCommitments = add_commitments G 0 allCommitments"

subsection \<open>Messages survive the wire\<close>

definition wf_DkgCommitment :: "DkgCommitment \<Rightarrow> bool" where
  "wf_DkgCommitment c = list_all valid_utf8 (CoeffCommitments c)"

lemma dkg_tags_ascii [simp]:
  "valid_utf8 ''participant_id''" "valid_utf8 ''commitments''" "valid_utf8 ''from_id''"
  "valid_utf8 ''to_id''" "valid_utf8 ''share''"
  by (rule ascii_valid_utf8, simp)+

lemma into_DkgCommitment_json: "into_DkgCommitment x (DkgCommitment_json c) = Some c"
  by (simp add: into_DkgCommitment_def DkgCommitment_json_def into_obj_simps into_uint_json
      into_slice_json)

lemma canonical_DkgCommitment: "wf_DkgCommitment c \<Longrightarrow> canonical (DkgCommitment_json c)"
  by (auto simp: DkgCommitment_json_def canonical_obj wf_DkgCommitment_def canonical_uint_json
      list_all_iff intro!: canonical_slice_json)

lemma depth_DkgCommitment: "depth (DkgCommitment_json c) \<le> 2"
proof -
  have "depth (slice_json JStr (CoeffCommitments c)) \<le> Suc 0"
    by (rule depth_slice_json) simp
  then have "depth (DkgCommitment_json c) \<le> Suc (Suc 0)"
    unfolding DkgCommitment_json_def by (intro depth_obj) auto
  then show ?thesis by simp
qed

lemma into_SharePackage_json: "into_SharePackage x (SharePackage_json s) = Some s"
  by (simp add: into_SharePackage_def SharePackage_json_def into_obj_simps into_uint_json)

lemma canonical_SharePackage: "valid_utf8 (PkgShare s) \<Longrightarrow> canonical (SharePackage_json s)"
  by (simp add: SharePackage_json_def canonical_obj canonical_uint_json)

lemma depth_SharePackage: "depth (SharePackage_json s) \<le> 1"
  unfolding SharePackage_json_def One_nat_def by (rule depth_obj) auto

subsection \<open>What the operations compute\<close>

text \<open>The scalar a package carries, and the element a commitment's first entry carries.\<close>

definition open_share :: "('s, 'e) dkg_group \<Rightarrow> SharePackage \<Rightarrow> 's go" where
  "open_share G pkg = bind_go (hex_DecodeString (PkgShare pkg)) (scalar_Unmarshal G)"

definition open_commitment :: "('s, 'e) dkg_group \<Rightarrow> string \<Rightarrow> 'e go" where
  "open_commitment G c = bind_go (hex_DecodeString c) (element_Unmarshal G)"

lemma Round1_polynomial:
  "Round1 G draw n p = (r, p', n') \<Longrightarrow>
     p_polynomial p' = Some (map (\<lambda>i. draw (n + i)) [0..<p_Threshold p]) \<and>
     p_ID p' = p_ID p \<and> p_Threshold p' = p_Threshold p \<and> n' = n + p_Threshold p"
  by (auto simp: Round1_def Let_def)

lemma commit_coeff_opens:
  "dkg_lawful G \<Longrightarrow> \<exists>c. commit_coeff G a = Ret c \<and> open_commitment G c = Ret (base_mul G a)"
  by (auto simp: commit_coeff_def open_commitment_def dkg_lawful_def hex_decode_encode bind_go_eq_Ret)
     (metis bind_go.simps(1) hex_decode_encode wrap_err.simps(2))

lemma commit_coeffs_open:
  "dkg_lawful G \<Longrightarrow> \<exists>cs. traverse (commit_coeff G) f = Ret cs \<and>
     list_all2 (\<lambda>c a. open_commitment G c = Ret (base_mul G a)) cs f"
proof (induction f)
  case Nil
  then show ?case by simp
next
  case (Cons a f)
  with commit_coeff_opens [of G a] show ?case by force
qed

lemma Round2_share:
  assumes "dkg_lawful G" "p_polynomial p = Some f" "f \<noteq> []"
  shows "\<exists>pkg. Round2 G p t = Ret pkg \<and> FromID pkg = p_ID p \<and> ToID pkg = t \<and>
    open_share G pkg = Ret (poly_value f (of_nat (unat t)))"
proof -
  from assms obtain b where "scalar_Marshal G (poly_value f (of_nat (unat t))) = Ret b"
      "scalar_Unmarshal G b = Ret (poly_value f (of_nat (unat t)))"
    unfolding dkg_lawful_def by blast
  with assms show ?thesis
    by (simp add: Round2_def dkg_lawful_def open_share_def hex_decode_encode)
qed

lemma add_shares_skip:
  "\<forall>pkg \<in> set pkgs. ToID pkg \<noteq> me \<Longrightarrow> add_shares G me acc (map Some pkgs) = Ret acc"
  by (induction pkgs) auto

lemma add_shares_sum:
  "list_all2 (\<lambda>pkg v. ToID pkg = me \<and> open_share G pkg = Ret v) pkgs vs \<Longrightarrow>
     add_shares G me acc (map Some pkgs) = Ret (acc + sum_list vs)"
proof (induction pkgs vs arbitrary: acc rule: list_all2_induct)
  case Nil
  show ?case by simp
next
  case (Cons pkg pkgs v vs)
  then show ?case
    by (auto simp: open_share_def bind_go_eq_Ret add.assoc)
qed

lemma Finalize_secret:
  assumes "dkg_lawful G" "p_polynomial p = Some f" "f \<noteq> []"
    and "list_all2 (\<lambda>pkg v. ToID pkg = p_ID p \<and> open_share G pkg = Ret v) pkgs vs"
  shows "Finalize G p (map Some pkgs) cs vk =
    (let secret = poly_value f (of_nat (unat (p_ID p))) + sum_list vs in
     Ret \<lparr>Secret = secret, VerificationKey = vk,
          PubShare = \<lparr>PublicKey = base_mul G secret, PubID = p_ID p\<rparr>\<rparr>)"
  using assms add_shares_sum [OF assms(4)] by (simp add: Finalize_def dkg_lawful_def Let_def)

lemma add_commitments_sum:
  "list_all2 (\<lambda>c v. \<exists>x xs. CoeffCommitments c = x # xs \<and> open_commitment G x = Ret v) cs vs \<Longrightarrow>
     add_commitments G acc (map Some cs) = Ret (acc + sum_list vs)"
proof (induction cs vs arbitrary: acc rule: list_all2_induct)
  case Nil
  show ?case by simp
next
  case (Cons c cs v vs)
  then show ?case
    by (auto simp: open_commitment_def bind_go_eq_Ret add.assoc)
qed

subsection \<open>The dealt secret and its shares\<close>

text \<open>
  Specification: the participants' polynomials \<open>fs\<close> deal the shares of one polynomial, their sum;
  its value at \<open>x\<close> is \<open>dealt fs x\<close>, and the group's secret is the value at 0.
\<close>

definition dealt :: "'s::comm_ring_1 list list \<Rightarrow> 's \<Rightarrow> 's" where
  "dealt fs x = sum_list (map (\<lambda>f. poly_value f x) fs)"

text \<open>Interpolation at 0 from three shares.\<close>

definition interpolate3 :: "'s::field \<Rightarrow> 's \<Rightarrow> 's \<Rightarrow> 's \<Rightarrow> 's \<Rightarrow> 's \<Rightarrow> 's" where
  "interpolate3 x1 x2 x3 y1 y2 y3 =
     y1 * (x2 * x3 / ((x2 - x1) * (x3 - x1))) +
     y2 * (x1 * x3 / ((x1 - x2) * (x3 - x2))) +
     y3 * (x1 * x2 / ((x1 - x3) * (x2 - x3)))"

lemma interpolate3_add:
  "interpolate3 x1 x2 x3 (y1 + z1) (y2 + z2) (y3 + z3) =
     interpolate3 x1 x2 x3 y1 y2 y3 + interpolate3 x1 x2 x3 z1 z2 z3"
  by (simp add: interpolate3_def distrib_right add_divide_distrib)

lemma interpolate3_poly:
  fixes x1 x2 x3 :: "'s::field"
  assumes "x1 \<noteq> x2" "x1 \<noteq> x3" "x2 \<noteq> x3" "length f = 3"
  shows "interpolate3 x1 x2 x3 (poly_value f x1) (poly_value f x2) (poly_value f x3) = poly_value f 0"
proof -
  from assms(4) obtain a b c where f: "f = [a, b, c]"
    by (auto simp: length_Suc_conv numeral_3_eq_3)
  define d where "d = (x1 - x2) * (x1 - x3) * (x2 - x3)"
  have nz: "d \<noteq> 0" "x1 - x2 \<noteq> 0" "x1 - x3 \<noteq> 0" "x2 - x3 \<noteq> 0" "x2 - x1 \<noteq> 0" "x3 - x1 \<noteq> 0" "x3 - x2 \<noteq> 0"
    using assms by (simp_all add: d_def)
  have 1: "u / ((x2 - x1) * (x3 - x1)) = u * (x2 - x3) / d" for u
    using nz by (simp add: d_def divide_simps) (simp add: algebra_simps)
  have 2: "u / ((x1 - x2) * (x3 - x2)) = - u * (x1 - x3) / d" for u
    using nz by (simp add: d_def divide_simps) (simp add: algebra_simps)
  have 3: "u / ((x1 - x3) * (x2 - x3)) = u * (x1 - x2) / d" for u
    using nz by (simp add: d_def divide_simps)
  have "interpolate3 x1 x2 x3 (poly_value f x1) (poly_value f x2) (poly_value f x3) =
     ((a + x1 * (b + x1 * c)) * (x2 * x3 * (x2 - x3)) -
      (a + x2 * (b + x2 * c)) * (x1 * x3 * (x1 - x3)) +
      (a + x3 * (b + x3 * c)) * (x1 * x2 * (x1 - x2))) / d"
    by (simp add: interpolate3_def f 1 2 3 add_divide_distrib diff_divide_distrib)
  also have "\<dots> = a * d / d" by (simp add: d_def algebra_simps)
  finally show ?thesis using nz(1) by (simp add: f)
qed

lemma interpolate3_0 [simp]: "interpolate3 x1 x2 x3 0 0 0 = 0"
  by (simp add: interpolate3_def)

lemma interpolate3_dealt:
  fixes x1 x2 x3 :: "'s::field"
  assumes "x1 \<noteq> x2" "x1 \<noteq> x3" "x2 \<noteq> x3" "\<forall>f \<in> set fs. length f = 3"
  shows "interpolate3 x1 x2 x3 (dealt fs x1) (dealt fs x2) (dealt fs x3) = dealt fs 0"
  using assms(4)
  by (induction fs)
     (auto simp: dealt_def interpolate3_add interpolate3_poly [OF assms(1-3)])

lemma base_mul_sum:
  assumes "dkg_lawful G"
  shows "base_mul G (sum_list (map h xs)) = sum_list (map (\<lambda>x. base_mul G (h x)) xs)"
proof -
  have "base_mul G (0 + 0) = base_mul G 0 + base_mul G 0"
    using assms unfolding dkg_lawful_def by blast
  then have "base_mul G 0 = 0" by simp
  with assms show ?thesis by (induction xs) (auto simp: dkg_lawful_def)
qed

lemma poly_value_0: "f \<noteq> [] \<Longrightarrow> poly_value f 0 = hd f"
  by (cases f) auto

end
