(* ===== verification/Go_Http.thy ===== *)
theory Go_Http
  imports Go_Json_Struct
begin

text \<open>
  \<open>net/http\<close> as handlers and clients see it: a request is a path and a body (no handler looks at the
  method), an answer has a status, a content type and a body.  A handler that panics aborts its
  connection and nothing else.  \<open>client_view\<close> is what one exchange gives the client: an error only when
  there is no answer at all, whatever the status.  \<open>http_Do\<close> is \<open>client.Do\<close>, which follows redirects.
\<close>

record http_request =
  req_path :: string
  req_body :: bytes

record http_response =
  status :: nat
  content_type :: string
  resp_body :: bytes

datatype http_outcome = Reply http_response | Redirect string | Aborted

definition newline :: string where "newline = [CHR 0x0A]"

definition http_Error :: "nat \<Rightarrow> string \<Rightarrow> http_outcome" where
  "http_Error code msg =
     Reply \<lparr>status = code, content_type = ''text/plain; charset=utf-8'', resp_body = msg @ newline\<rparr>"

definition json_reply :: "json \<Rightarrow> http_outcome" where
  "json_reply j =
     Reply \<lparr>status = 200, content_type = ''application/json'', resp_body = json_Encode j\<rparr>"

text \<open>
  \<open>fmt.Fprintf(w, text)\<close> with no content type set: the server looks for binary bytes in the first 512
  (the program's texts start like none of the other formats it knows).
\<close>

definition binary_byte :: "char \<Rightarrow> bool" where
  "binary_byte c =
     (let n = of_char c :: nat in
      n \<le> 8 \<or> n = 11 \<or> (14 \<le> n \<and> n \<le> 26) \<or> (28 \<le> n \<and> n \<le> 31))"

definition sniff_text :: "bytes \<Rightarrow> string" where
  "sniff_text t =
     (if list_ex binary_byte (take 512 t) then ''application/octet-stream''
      else ''text/plain; charset=utf-8'')"

definition text_reply :: "string \<Rightarrow> http_outcome" where
  "text_reply t = Reply \<lparr>status = 200, content_type = sniff_text t, resp_body = t\<rparr>"

definition StatusBadRequest :: nat where "StatusBadRequest = 400"
definition StatusInternalServerError :: nat where "StatusInternalServerError = 500"

definition not_found :: http_outcome where
  "not_found = http_Error 404 ''404 page not found''"

definition conn_error :: error where
  "conn_error = Msg ''EOF''"

definition moved_permanently :: "string \<Rightarrow> http_response" where
  "moved_permanently l =
     \<lparr>status = 301, content_type = ''text/html; charset=utf-8'',
      resp_body = ''<a href='' @ [CHR 0x22] @ l @ [CHR 0x22] @ ''>Moved Permanently</a>.'' @ newline @ newline\<rparr>"

definition client_view :: "http_outcome \<Rightarrow> http_response go" where
  "client_view r =
     (case r of Reply a \<Rightarrow> Ret a | Redirect l \<Rightarrow> Ret (moved_permanently l) | Aborted \<Rightarrow> Err conn_error)"

text \<open>
  The Go client answers a 301 with a GET of the new location, without a body, also when the first
  request was a POST, and gives up at the tenth redirect in a row (documentation of
  \<open>http.Client\<close>): the number is how many it still follows.
\<close>

primrec http_follow ::
  "nat \<Rightarrow> ('w \<Rightarrow> http_request \<Rightarrow> http_outcome \<times> 'w) \<Rightarrow> 'w \<Rightarrow> http_request \<Rightarrow> http_response go \<times> 'w" where
  "http_follow 0 serve w r =
     (case serve w r of
        (Redirect l, w') \<Rightarrow> (Err (Msg ''stopped after 10 redirects''), w')
      | (out, w') \<Rightarrow> (client_view out, w'))"
| "http_follow (Suc n) serve w r =
     (case serve w r of
        (Redirect l, w') \<Rightarrow> http_follow n serve w' \<lparr>req_path = l, req_body = []\<rparr>
      | (out, w') \<Rightarrow> (client_view out, w'))"

definition http_Do ::
  "('w \<Rightarrow> http_request \<Rightarrow> http_outcome \<times> 'w) \<Rightarrow> 'w \<Rightarrow> http_request \<Rightarrow> http_response go \<times> 'w" where
  "http_Do = http_follow 9"

lemma http_follow_plain:
  assumes "\<And>l. fst (serve w r) \<noteq> Redirect l"
  shows "http_follow n serve w r = (let (out, w') = serve w r in (client_view out, w'))"
  using assms by (cases n; cases "serve w r"; cases "fst (serve w r)") auto

lemma http_Do_plain:
  "(\<And>l. fst (serve w r) \<noteq> Redirect l) \<Longrightarrow>
     http_Do serve w r = (let (out, w') = serve w r in (client_view out, w'))"
  by (simp add: http_Do_def http_follow_plain)

lemma http_Do_redirect:
  assumes "serve w r = (Redirect l, w')" "\<And>l'. fst (serve w' \<lparr>req_path = l, req_body = []\<rparr>) \<noteq> Redirect l'"
  shows "http_Do serve w r =
    (let (out, w'') = serve w' \<lparr>req_path = l, req_body = []\<rparr> in (client_view out, w''))"
proof -
  have "http_follow (Suc 8) serve w r = http_follow 8 serve w' \<lparr>req_path = l, req_body = []\<rparr>"
    using assms(1) by (simp only: http_follow.simps prod.case http_outcome.case)
  then show ?thesis by (simp add: http_Do_def http_follow_plain [of serve w', OF assms(2)])
qed

text \<open>The bodies of error answers are no JSON when the message starts like none.\<close>

lemma http_Error_body:
  "client_view (http_Error code msg) =
     Ret \<lparr>status = code, content_type = ''text/plain; charset=utf-8'', resp_body = msg @ newline\<rparr>"
  by (simp add: client_view_def http_Error_def)

lemma json_reply_body:
  "client_view (json_reply j) =
     Ret \<lparr>status = 200, content_type = ''application/json'', resp_body = json_Encode j\<rparr>"
  by (simp add: client_view_def json_reply_def)

end
