(* ===== verification/Signer_Server.thy ===== *)
theory Signer_Server
  imports Frost_Wire Frost_State Dkg Go_Http
begin

text \<open>
  \<open>cmd/signer\<close>: one signer.  Its state is the signer object and the commitments it published
  (\<open>froststate\<close>, under \<open>froststate.Mu\<close>) and its part in a key generation (the globals of
  \<open>main.go\<close>, under \<open>dkgMu\<close>).  Every handler holds one of the two locks from its first to its last
  access, so a handler is one step of the state (\<open>Signer_Threads\<close> has the goroutines and the proof).  \<open>signer_serve\<close> is the request multiplexer.
\<close>

record ('s, 'e, 'g) signer_env =
  se_F :: "('s, 'e, 'g) frost_lib"
  se_G :: "('s, 'e) dkg_group"
  se_draw :: "nat \<Rightarrow> 's"
  se_env :: environment

record ('s, 'e, 'g) signer_state =
  st_Signer :: 'g
  st_Commitments :: "u64 \<rightharpoonup> 'e frost_Commitment"
  dkgParticipant :: "'s Participant option"
  dkgCommitment :: "DkgCommitment option"
  allCommitments :: "DkgCommitment option list"
  st_drawn :: nat

definition start_state :: "'g \<Rightarrow> ('s, 'e, 'g) signer_state" where
  "start_state sg =
     \<lparr>st_Signer = sg, st_Commitments = Map.empty, dkgParticipant = None, dkgCommitment = None,
      allCommitments = [], st_drawn = 0\<rparr>"

subsection \<open>Signing\<close>

definition healthHandler :: http_outcome where
  "healthHandler = text_reply ''signer alive''"

definition commitHandler ::
  "('s, 'e, 'g) signer_env \<Rightarrow> ('s, 'e, 'g) signer_state \<Rightarrow>
     http_outcome \<times> ('s, 'e, 'g) signer_state" where
  "commitHandler E s =
     (let (commitment, sg) = Signer_Commit (se_F E) (st_Signer s);
          s' = s\<lparr>st_Signer := sg,
                  st_Commitments := (st_Commitments s)(fc_CommitmentID commitment \<mapsto> commitment)\<rparr>
      in (json_reply (CommitmentResponse_json (commitment_message (se_F E) commitment)), s'))"

definition signHandler ::
  "('s, 'e, 'g) signer_env \<Rightarrow> ('s, 'e, 'g) signer_state \<Rightarrow> bytes \<Rightarrow>
     http_outcome \<times> ('s, 'e, 'g) signer_state" where
  "signHandler E s body =
     (case decode_SignRequest body of
        Err e \<Rightarrow> (http_Error StatusBadRequest (err_text e), s)
      | Panic \<Rightarrow> (Aborted, s)
      | Ret req \<Rightarrow>
          (case decode_commitments (se_F E) (Commitments req) of
             Err e \<Rightarrow> (http_Error StatusBadRequest (err_text e), s)
           | Panic \<Rightarrow> (Aborted, s)
           | Ret commitments \<Rightarrow>
               (case Signer_Sign (se_F E) (st_Signer s) (Message req)
                       (CommitmentList_Sort (se_F E) commitments) of
                  (Err e, sg) \<Rightarrow>
                    (http_Error StatusInternalServerError (err_text e), s\<lparr>st_Signer := sg\<rparr>)
                | (Panic, sg) \<Rightarrow> (Aborted, s\<lparr>st_Signer := sg\<rparr>)
                | (Ret sigShare, sg) \<Rightarrow>
                    (json_reply (SignatureShareResponse_json (share_message (se_F E) sigShare)),
                     s\<lparr>st_Signer := sg\<rparr>))))"

subsection \<open>Distributed key generation\<close>

text \<open>\<open>signerID, _ := strconv.Atoi(...)\<close>, then \<open>uint16(signerID)\<close>: the error is dropped.\<close>

definition dkg_id :: "environment \<Rightarrow> u16" where
  "dkg_id env = word_of_int (fst (Atoi (config_SignerID env)))"

definition dkgRound1Handler ::
  "('s, 'e, 'g) signer_env \<Rightarrow> ('s, 'e, 'g) signer_state \<Rightarrow>
     http_outcome \<times> ('s, 'e, 'g) signer_state" where
  "dkgRound1Handler E s =
     (let p = NewParticipant (dkg_id (se_env E)) 3 5 in
      case Round1 (se_G E) (se_draw E) (st_drawn s) p of
        (r, p', n) \<Rightarrow>
          (let s1 = s\<lparr>dkgParticipant := Some p', st_drawn := n\<rparr> in
           case r of
             Err e \<Rightarrow> (http_Error StatusInternalServerError (err_text e), s1)
           | Panic \<Rightarrow> (Aborted, s1)
           | Ret commitment \<Rightarrow>
               (json_reply (DkgCommitment_json commitment), s1\<lparr>dkgCommitment := Some commitment\<rparr>)))"

definition decode_dkg_commitments :: "bytes \<Rightarrow> DkgCommitment option list go" where
  "decode_dkg_commitments =
     json_Decode (into_slice (into_ptr into_DkgCommitment zero_DkgCommitment) None) []"

definition dkgCommitmentsHandler ::
  "('s, 'e, 'g) signer_state \<Rightarrow> bytes \<Rightarrow> http_outcome \<times> ('s, 'e, 'g) signer_state" where
  "dkgCommitmentsHandler s body =
     (case decode_dkg_commitments body of
        Err e \<Rightarrow> (http_Error StatusBadRequest (err_text e), s)
      | Panic \<Rightarrow> (Aborted, s)
      | Ret commitments \<Rightarrow>
          (Reply \<lparr>status = 200, content_type = [], resp_body = []\<rparr>,
           s\<lparr>allCommitments := commitments\<rparr>))"

text \<open>\<open>dkgParticipant.Round2\<close> on a nil participant reads a field of it and panics.\<close>

definition dkgRound2Handler ::
  "('s::field, 'e, 'g) signer_env \<Rightarrow> ('s, 'e, 'g) signer_state \<Rightarrow> string \<Rightarrow> http_outcome" where
  "dkgRound2Handler E s path =
     (let toIDStr = drop (length ''/dkg/round2/'') path in
      case ParseUint 16 toIDStr of
        Inl _ \<Rightarrow> http_Error StatusBadRequest ''invalid toID''
      | Inr toID64 \<Rightarrow>
          (case dkgParticipant s of
             None \<Rightarrow> Aborted
           | Some p \<Rightarrow>
               (case Round2 (se_G E) p (of_nat toID64) of
                  Err e \<Rightarrow> http_Error StatusInternalServerError (err_text e)
                | Panic \<Rightarrow> Aborted
                | Ret pkg \<Rightarrow> json_reply (SharePackage_json pkg))))"

definition decode_share_packages :: "bytes \<Rightarrow> SharePackage option list go" where
  "decode_share_packages =
     json_Decode (into_slice (into_ptr into_SharePackage zero_SharePackage) None) []"

text \<open>The key share that \<open>Finalize\<close> returns is printed in part and dropped: no state changes.\<close>

definition dkgFinalizeHandler ::
  "('s::field, 'e::ab_group_add, 'g) signer_env \<Rightarrow> ('s, 'e, 'g) signer_state \<Rightarrow> bytes \<Rightarrow>
     http_outcome" where
  "dkgFinalizeHandler E s body =
     (case decode_share_packages body of
        Err e \<Rightarrow> http_Error StatusBadRequest (err_text e)
      | Panic \<Rightarrow> Aborted
      | Ret shares \<Rightarrow>
          (case ComputeGroupPublicKey (se_G E) (allCommitments s) of
             Err e \<Rightarrow> http_Error StatusInternalServerError (err_text e)
           | Panic \<Rightarrow> Aborted
           | Ret groupPubKey \<Rightarrow>
               (case dkgParticipant s of
                  None \<Rightarrow> Aborted
                | Some p \<Rightarrow>
                    (case Finalize (se_G E) p shares (allCommitments s) groupPubKey of
                       Err e \<Rightarrow> http_Error StatusInternalServerError (err_text e)
                     | Panic \<Rightarrow> Aborted
                     | Ret keyShare \<Rightarrow>
                         (if length (KeyShare_Hex (se_F E) keyShare) < 16 then Aborted
                          else json_reply (obj
                            [(''signer'', JStr (show_nat (unat (p_ID p)))),
                             (''status'', JStr ''ok'')]))))))"

subsection \<open>The server\<close>

definition strip_prefix :: "string \<Rightarrow> string \<Rightarrow> bool" where
  "strip_prefix p s = (take (length p) s = p)"

text \<open>Requests reach the multiplexer with a clean path.\<close>

definition signer_serve ::
  "('s::field, 'e::ab_group_add, 'g) signer_env \<Rightarrow> ('s, 'e, 'g) signer_state \<Rightarrow> http_request \<Rightarrow>
     http_outcome \<times> ('s, 'e, 'g) signer_state" where
  "signer_serve E s r =
     (let path = req_path r in
      if path = ''/health'' then (healthHandler, s)
      else if path = ''/commit'' then commitHandler E s
      else if path = ''/sign'' then signHandler E s (req_body r)
      else if path = ''/dkg/round1'' then dkgRound1Handler E s
      else if path = ''/dkg/commitments'' then dkgCommitmentsHandler s (req_body r)
      else if strip_prefix ''/dkg/round2/'' path then (dkgRound2Handler E s path, s)
      else if path = ''/dkg/round2'' then (Redirect ''/dkg/round2/'', s)
      else if path = ''/dkg/finalize'' then (dkgFinalizeHandler E s (req_body r), s)
      else (not_found, s))"

text \<open>
  The multiplexer redirects one path only, to a route that answers: \<open>HandleFunc("/dkg/round2/", ...)\<close>
  makes it send \<open>/dkg/round2\<close> to \<open>/dkg/round2/\<close>, where the empty receiver is refused.
\<close>

lemma signer_redirect: "fst (signer_serve E s r) = Redirect l \<longleftrightarrow> req_path r = ''/dkg/round2'' \<and> l = ''/dkg/round2/''"
proof -
  have no: "fst (commitHandler E s) \<noteq> Redirect l" "fst (signHandler E s b) \<noteq> Redirect l"
    "fst (dkgRound1Handler E s) \<noteq> Redirect l" "fst (dkgCommitmentsHandler s b) \<noteq> Redirect l"
    "dkgRound2Handler E s p \<noteq> Redirect l" "dkgFinalizeHandler E s b \<noteq> Redirect l" "healthHandler \<noteq> Redirect l" for b p
    by (simp_all add: commitHandler_def signHandler_def dkgRound1Handler_def dkgCommitmentsHandler_def
        dkgRound2Handler_def dkgFinalizeHandler_def healthHandler_def text_reply_def json_reply_def
        http_Error_def Let_def split: go.split prod.split sum.split option.split)
  show ?thesis
    by (auto simp: signer_serve_def Let_def no strip_prefix_def not_found_def http_Error_def)
qed

lemma signer_Do:
  "req_path r \<noteq> ''/dkg/round2'' \<Longrightarrow>
     http_Do (signer_serve E) s r = (let (out, s') = signer_serve E s r in (client_view out, s'))"
  by (rule http_Do_plain) (simp add: signer_redirect)

lemma signer_Do_redirect:
  assumes "req_path r = ''/dkg/round2''"
  shows "http_Do (signer_serve E) s r =
    (client_view (http_Error StatusBadRequest ''invalid toID''), s)"
proof -
  have "signer_serve E s r = (Redirect ''/dkg/round2/'', s)"
    using assms by (simp add: signer_serve_def strip_prefix_def)
  from http_Do_redirect [of "signer_serve E", OF this] show ?thesis
    by (simp add: signer_redirect) (simp add: signer_serve_def strip_prefix_def dkgRound2Handler_def ParseUint_def)
qed

text \<open>
  How \<open>main\<close> listens.  \<open>RequestClientCert\<close> asks a client for a certificate and accepts the client
  without one, or with one that no authority signed (documentation of \<open>crypto/tls\<close>).
\<close>

datatype client_auth = NoClientCert | RequestClientCert | RequireAndVerifyClientCert

datatype listener =
    PlainHTTP (listen_addr: string)
  | TLS (listen_addr: string) (cert_file: string) (key_file: string) (auth: client_auth)

definition signer_listener :: "environment \<Rightarrow> file_system \<Rightarrow> listener" where
  "signer_listener env fs =
     (let port = Port env;
          certFile = signer_getEnv env ''TLS_CERT'' ''certs/signer.crt'';
          keyFile = signer_getEnv env ''TLS_KEY'' ''certs/signer.key'';
          caFile = signer_getEnv env ''TLS_CA'' ''certs/ca.crt''
      in if is_ret (ReadFile caFile fs) then TLS ('':'' @ port) certFile keyFile RequestClientCert
         else PlainHTTP ('':'' @ port))"

text \<open>
  \<open>main\<close>: an error of \<open>froststate.Init\<close> is a panic; otherwise the state that serves the first request,
  and what the process listens on.
\<close>

definition signer_main ::
  "('s, 'e, 'g) frost_lib \<Rightarrow> aead \<Rightarrow> vault \<Rightarrow> environment \<Rightarrow> file_system \<Rightarrow>
     (('s, 'e, 'g) signer_state \<times> listener) go" where
  "signer_main F A V env fs =
     (case frost_Init F A V env fs no_globals of
        (Ret _, g) \<Rightarrow>
          (case g_Signer g of
             Some s \<Rightarrow> Ret (start_state s, signer_listener env fs)
           | None \<Rightarrow> Panic)
      | _ \<Rightarrow> Panic)"

text \<open>Whether a client is let in, given whether it shows a certificate the authority signed.\<close>

fun admits :: "client_auth \<Rightarrow> bool \<Rightarrow> bool" where
  "admits RequireAndVerifyClientCert verified = verified"
| "admits _ verified = True"

definition listener_admits :: "listener \<Rightarrow> bool \<Rightarrow> bool" where
  "listener_admits l verified =
     (case l of PlainHTTP _ \<Rightarrow> True | TLS _ _ _ a \<Rightarrow> admits a verified)"

end
