(* ===== verification/Signer_Laws.thy ===== *)
theory Signer_Laws
  imports Signer_Server
begin

text \<open>
  What a signer guarantees over its whole life: the invariant of its reachable states, which request
  touches which half of the state, and what its answers decode to on the other side of the wire.
\<close>

subsection \<open>Runs\<close>

inductive signer_reach ::
  "('s::field, 'e::ab_group_add, 'g) signer_env \<Rightarrow> ('s, 'e, 'g) signer_state \<Rightarrow>
     ('s, 'e, 'g) signer_state \<Rightarrow> bool"
  for E :: "('s, 'e, 'g) signer_env" and s0 :: "('s, 'e, 'g) signer_state" where
  idle: "signer_reach E s0 s0"
| serve: "signer_reach E s0 s \<Longrightarrow> signer_reach E s0 (snd (signer_serve E s r))"

definition serves_signing :: "http_request \<Rightarrow> bool" where
  "serves_signing r = (req_path r = ''/commit'' \<or> req_path r = ''/sign'')"

text \<open>The half of the state that signing uses, and the half that key generation uses.\<close>

definition signing_part :: "('s, 'e, 'g) signer_state \<Rightarrow> 'g \<times> (u64 \<rightharpoonup> 'e frost_Commitment)" where
  "signing_part s = (st_Signer s, st_Commitments s)"

definition dkg_part ::
  "('s, 'e, 'g) signer_state \<Rightarrow>
     's Participant option \<times> DkgCommitment option \<times> DkgCommitment option list \<times> nat" where
  "dkg_part s = (dkgParticipant s, dkgCommitment s, allCommitments s, st_drawn s)"

subsection \<open>Every handler by itself\<close>

lemma commitHandler_dkg: "dkg_part (snd (commitHandler E s)) = dkg_part s"
  by (simp add: commitHandler_def dkg_part_def split: prod.splits)

lemma commitHandler_commitments:
  "st_Commitments (snd (commitHandler E s)) =
     (let c = fst (Signer_Commit (se_F E) (st_Signer s)) in
      (st_Commitments s)(fc_CommitmentID c \<mapsto> c))"
  by (simp add: commitHandler_def Let_def split: prod.splits)

lemma commitHandler_signer:
  "st_Signer (snd (commitHandler E s)) = snd (Signer_Commit (se_F E) (st_Signer s))"
  by (simp add: commitHandler_def split: prod.splits)

lemma signHandler_frame:
  "dkg_part (snd (signHandler E s b)) = dkg_part s"
  "st_Commitments (snd (signHandler E s b)) = st_Commitments s"
  by (simp_all add: signHandler_def dkg_part_def split: go.splits prod.splits)

lemma dkgRound1Handler_state:
  "signing_part (snd (dkgRound1Handler E s)) = signing_part s"
  "dkgParticipant (snd (dkgRound1Handler E s)) =
     Some \<lparr>p_ID = dkg_id (se_env E), p_Threshold = 3, p_MaxSigners = 5,
           p_polynomial = Some (map (\<lambda>i. se_draw E (st_drawn s + i)) [0..<3])\<rparr>"
  "st_drawn (snd (dkgRound1Handler E s)) = st_drawn s + 3"
  "allCommitments (snd (dkgRound1Handler E s)) = allCommitments s"
  by (simp_all add: dkgRound1Handler_def Round1_def NewParticipant_def signing_part_def Let_def
      split: go.splits)

lemma dkgCommitmentsHandler_state:
  "signing_part (snd (dkgCommitmentsHandler s b)) = signing_part s"
  "dkgParticipant (snd (dkgCommitmentsHandler s b)) = dkgParticipant s"
  "dkgCommitment (snd (dkgCommitmentsHandler s b)) = dkgCommitment s"
  "st_drawn (snd (dkgCommitmentsHandler s b)) = st_drawn s"
  by (simp_all add: dkgCommitmentsHandler_def signing_part_def split: go.splits)

lemmas handler_states =
  commitHandler_dkg commitHandler_commitments commitHandler_signer signHandler_frame
  dkgRound1Handler_state dkgCommitmentsHandler_state

text \<open>The four requests that change the state; every other request leaves it as it was.\<close>

lemma signer_serve_cases:
  fixes s :: "('s::field, 'e::ab_group_add, 'g) signer_state"
  obtains (commit) "req_path r = ''/commit''" "signer_serve E s r = commitHandler E s"
  | (sign) "req_path r = ''/sign''" "signer_serve E s r = signHandler E s (req_body r)"
  | (round1) "req_path r = ''/dkg/round1''" "signer_serve E s r = dkgRound1Handler E s"
  | (commitments) "req_path r = ''/dkg/commitments''"
      "signer_serve E s r = dkgCommitmentsHandler s (req_body r)"
  | (same) "\<not> serves_signing r" "snd (signer_serve E s r) = s"
proof (cases "req_path r \<in> {''/commit'', ''/sign'', ''/dkg/round1'', ''/dkg/commitments''}")
  case True
  then show thesis
    using commit sign round1 commitments by (auto simp: signer_serve_def)
next
  case False
  then show thesis
    using same by (auto simp: signer_serve_def serves_signing_def Let_def)
qed

lemma signing_keeps_dkg_part: "serves_signing r \<Longrightarrow> dkg_part (snd (signer_serve E s r)) = dkg_part s"
  by (cases rule: signer_serve_cases [of r E s])
     (auto simp: serves_signing_def handler_states)

lemma other_keeps_signing_part:
  "\<not> serves_signing r \<Longrightarrow> signing_part (snd (signer_serve E s r)) = signing_part s"
  by (cases rule: signer_serve_cases [of r E s])
     (auto simp: serves_signing_def handler_states)

subsection \<open>The invariant\<close>

text \<open>
  Published commitments are filed under their own number.  A participant of a key generation is this
  signer, with a polynomial of three coefficients: the last three scalars drawn, so that no two key
  generations share one.
\<close>

definition participant_ok :: "('s, 'e, 'g) signer_env \<Rightarrow> nat \<Rightarrow> 's Participant \<Rightarrow> bool" where
  "participant_ok E drawn p \<longleftrightarrow>
     p_ID p = dkg_id (se_env E) \<and> p_Threshold p = 3 \<and> p_MaxSigners p = 5 \<and> 3 \<le> drawn \<and>
     p_polynomial p = Some (map (\<lambda>i. se_draw E (drawn - 3 + i)) [0..<3])"

definition signer_inv :: "('s, 'e, 'g) signer_env \<Rightarrow> ('s, 'e, 'g) signer_state \<Rightarrow> bool" where
  "signer_inv E s \<longleftrightarrow>
     (\<forall>i c. st_Commitments s i = Some c \<longrightarrow> fc_CommitmentID c = i) \<and>
     (\<forall>p. dkgParticipant s = Some p \<longrightarrow> participant_ok E (st_drawn s) p)"

lemma signer_inv_start: "signer_inv E (start_state sg)"
  by (simp add: signer_inv_def start_state_def)

lemma signer_inv_frame:
  assumes "signer_inv E s" "st_Commitments t = st_Commitments s" "dkgParticipant t = dkgParticipant s"
    "st_drawn t = st_drawn s"
  shows "signer_inv E t"
  using assms by (simp add: signer_inv_def)

lemma signer_serve_inv:
  assumes "signer_inv E s"
  shows "signer_inv E (snd (signer_serve E s r))"
proof (cases rule: signer_serve_cases [of r E s])
  case commit
  have "dkg_part (snd (commitHandler E s)) = dkg_part s" by (rule commitHandler_dkg)
  then show ?thesis
    using assms commit by (auto simp: signer_inv_def dkg_part_def commitHandler_commitments Let_def)
next
  case sign
  from signHandler_frame [of E s "req_body r"] show ?thesis
    using assms sign by (intro signer_inv_frame [OF assms]) (simp_all add: dkg_part_def)
next
  case round1
  then show ?thesis
    using assms dkgRound1Handler_state [of E s]
    by (auto simp: signer_inv_def signing_part_def participant_ok_def)
next
  case commitments
  from dkgCommitmentsHandler_state [of s "req_body r"] show ?thesis
    using assms commitments by (intro signer_inv_frame [OF assms]) (simp_all add: signing_part_def)
next
  case same
  with assms show ?thesis by simp
qed

lemma signer_reach_inv: "signer_reach E s0 s \<Longrightarrow> signer_inv E s0 \<Longrightarrow> signer_inv E s"
  by (induction rule: signer_reach.induct) (auto intro: signer_serve_inv)

subsection \<open>Answers on the other side of the wire\<close>

lemma commit_answer:
  assumes "frost_codecs (se_F E)" "Signer_Commit (se_F E) (st_Signer s) = (c, sg)"
  shows "\<exists>resp. client_view (fst (commitHandler E s)) = Ret resp \<and> status resp = 200 \<and>
    decode_CommitmentResponse (resp_body resp) = Ret (commitment_message (se_F E) c)"
  using assms
  by (simp add: commitHandler_def json_reply_body commitment_response.dec_enc wf_commitment_message)

lemma sign_answer:
  assumes codecs: "frost_codecs (se_F E)" and m: "valid_utf8 m"
    and sign: "Signer_Sign (se_F E) (st_Signer s) m (CommitmentList_Sort (se_F E) cs) = (Ret sh, sg)"
  shows "\<exists>resp. client_view (fst (signHandler E s
        (json_Marshal (SignRequest_json
           \<lparr>Message = m, Commitments = map (commitment_message (se_F E)) cs\<rparr>)))) = Ret resp \<and>
    unmarshal_SignatureShareResponse (resp_body resp) = Ret (share_message (se_F E) sh)"
proof -
  have "wf_SignRequest \<lparr>Message = m, Commitments = map (commitment_message (se_F E)) cs\<rparr>"
    using m wf_commitment_message [OF codecs] by (simp add: wf_SignRequest_def list_all_iff)
  then show ?thesis
    using sign by (simp add: signHandler_def sign_request.dec_enc decode_commitment_messages [OF codecs]
        json_reply_body share_response.dec_enc wf_share_message [OF codecs])
qed

lemma sign_state:
  assumes codecs: "frost_codecs (se_F E)" and m: "valid_utf8 m"
  shows "snd (signHandler E s (json_Marshal (SignRequest_json
           \<lparr>Message = m, Commitments = map (commitment_message (se_F E)) cs\<rparr>))) =
    s\<lparr>st_Signer := snd (Signer_Sign (se_F E) (st_Signer s) m (CommitmentList_Sort (se_F E) cs))\<rparr>"
proof -
  have "wf_SignRequest \<lparr>Message = m, Commitments = map (commitment_message (se_F E)) cs\<rparr>"
    using m wf_commitment_message [OF codecs] by (simp add: wf_SignRequest_def list_all_iff)
  then show ?thesis
    by (simp add: signHandler_def sign_request.dec_enc decode_commitment_messages [OF codecs]
        split: go.split prod.split)
qed

subsection \<open>Key generation over the wire\<close>

definition unmarshal_DkgCommitment :: "bytes \<Rightarrow> DkgCommitment go" where
  "unmarshal_DkgCommitment = json_Unmarshal into_DkgCommitment zero_DkgCommitment"

definition unmarshal_SharePackage :: "bytes \<Rightarrow> SharePackage go" where
  "unmarshal_SharePackage = json_Unmarshal into_SharePackage zero_SharePackage"

lemma unmarshal_DkgCommitment_Encode:
  "wf_DkgCommitment c \<Longrightarrow> unmarshal_DkgCommitment (json_Encode (DkgCommitment_json c)) = Ret c"
  using depth_DkgCommitment [of c] unfolding unmarshal_DkgCommitment_def
  by (intro json_Unmarshal_Encode canonical_DkgCommitment into_DkgCommitment_json)
     (simp_all add: json_max_depth_def)

lemma unmarshal_SharePackage_Encode:
  "valid_utf8 (PkgShare p) \<Longrightarrow> unmarshal_SharePackage (json_Encode (SharePackage_json p)) = Ret p"
  using depth_SharePackage [of p] unfolding unmarshal_SharePackage_def
  by (intro json_Unmarshal_Encode canonical_SharePackage into_SharePackage_json)
     (simp_all add: json_max_depth_def)

lemma decode_dkg_commitments_Marshal:
  assumes "list_all wf_DkgCommitment cs"
  shows "decode_dkg_commitments (json_Marshal (slice_json DkgCommitment_json cs)) = Ret (map Some cs)"
proof -
  have "depth (slice_json DkgCommitment_json cs) \<le> Suc 2"
    by (rule depth_slice_json) (rule depth_DkgCommitment)
  then show ?thesis unfolding decode_dkg_commitments_def
    using assms
    by (intro json_Decode_Marshal into_slice_ptr_json into_DkgCommitment_json canonical_slice_json
        canonical_DkgCommitment) (auto simp: json_max_depth_def list_all_iff DkgCommitment_json_def)
qed

lemma decode_share_packages_Marshal:
  assumes "\<forall>p \<in> set ps. valid_utf8 (PkgShare p)"
  shows "decode_share_packages (json_Marshal (slice_json SharePackage_json ps)) = Ret (map Some ps)"
proof -
  have "depth (slice_json SharePackage_json ps) \<le> Suc 1"
    by (rule depth_slice_json) (rule depth_SharePackage)
  then show ?thesis unfolding decode_share_packages_def
    using assms
    by (intro json_Decode_Marshal into_slice_ptr_json into_SharePackage_json canonical_slice_json
        canonical_SharePackage) (auto simp: json_max_depth_def SharePackage_json_def)
qed

lemma commit_coeffs_wf:
  "traverse (commit_coeff G) f = Ret cs \<Longrightarrow> list_all valid_utf8 cs"
  by (induction f arbitrary: cs) (auto simp: commit_coeff_def bind_go_eq_Ret)

text \<open>Round 1: the answer is a commitment to the polynomial that the signer keeps.\<close>

definition commits_to :: "('s, 'e) dkg_group \<Rightarrow> DkgCommitment \<Rightarrow> 's list \<Rightarrow> bool" where
  "commits_to G c f \<longleftrightarrow>
     list_all2 (\<lambda>x a. open_commitment G x = Ret (base_mul G a)) (CoeffCommitments c) f"

lemma round1_answer:
  assumes "dkg_lawful (se_G E)"
  shows "\<exists>resp c p f. client_view (fst (dkgRound1Handler E s)) = Ret resp \<and> status resp = 200 \<and>
    unmarshal_DkgCommitment (resp_body resp) = Ret c \<and> wf_DkgCommitment c \<and>
    ParticipantID c = dkg_id (se_env E) \<and>
    dkgParticipant (snd (dkgRound1Handler E s)) = Some p \<and> p_polynomial p = Some f \<and>
    length f = 3 \<and> commits_to (se_G E) c f"
proof -
  define f where "f = map (\<lambda>i. se_draw E (st_drawn s + i)) [0..<3]"
  from commit_coeffs_open [OF assms, of f] obtain cs where
    cs: "traverse (commit_coeff (se_G E)) f = Ret cs"
      "list_all2 (\<lambda>c a. open_commitment (se_G E) c = Ret (base_mul (se_G E) a)) cs f" by blast
  define c where "c = \<lparr>ParticipantID = dkg_id (se_env E), CoeffCommitments = cs\<rparr>"
  have wf: "wf_DkgCommitment c" using commit_coeffs_wf [OF cs(1)] by (simp add: wf_DkgCommitment_def c_def)
  have run: "fst (dkgRound1Handler E s) = json_reply (DkgCommitment_json c)"
    using cs(1) by (simp add: dkgRound1Handler_def Round1_def NewParticipant_def f_def c_def Let_def)
  have "commits_to (se_G E) c f" using cs(2) by (simp add: commits_to_def c_def)
  with wf run dkgRound1Handler_state(2) [of E s] show ?thesis
    by (auto simp: json_reply_body unmarshal_DkgCommitment_Encode c_def f_def)
qed

text \<open>Round 2: the answer carries the polynomial's value at the number in the path.\<close>

lemma ParseUint_path: "n < 2 ^ 16 \<Longrightarrow> ParseUint 16 (show_nat n) = Inr n"
  by (simp add: ParseUint_show)

definition round2_path :: "nat \<Rightarrow> string" where
  "round2_path n = ''/dkg/round2/'' @ show_nat n"

lemma round2_answer:
  assumes "dkg_lawful (se_G E)" "dkgParticipant s = Some p" "p_polynomial p = Some f" "f \<noteq> []" "n < 2 ^ 16"
  shows "\<exists>resp pkg. client_view (dkgRound2Handler E s (round2_path n)) = Ret resp \<and> status resp = 200 \<and>
    unmarshal_SharePackage (resp_body resp) = Ret pkg \<and> valid_utf8 (PkgShare pkg) \<and>
    FromID pkg = p_ID p \<and> ToID pkg = of_nat n \<and>
    open_share (se_G E) pkg = Ret (poly_value f (of_nat n))"
proof -
  have n: "unat (of_nat n :: u16) = n" using assms(5) by (simp add: unat_of_nat take_bit_nat_eq_self)
  from Round2_share [OF assms(1,3,4), of "of_nat n"] obtain pkg where
    pkg: "Round2 (se_G E) p (of_nat n) = Ret pkg" "FromID pkg = p_ID p" "ToID pkg = of_nat n"
      "open_share (se_G E) pkg = Ret (poly_value f (of_nat n))" unfolding n by blast
  have wf: "valid_utf8 (PkgShare pkg)"
    using pkg(1) assms(3) by (auto simp: Round2_def bind_go_eq_Ret)
  have "dkgRound2Handler E s (round2_path n) = json_reply (SharePackage_json pkg)"
    using assms(2,5) pkg(1) by (simp add: dkgRound2Handler_def round2_path_def ParseUint_path)
  with pkg wf show ?thesis by (simp add: json_reply_body unmarshal_SharePackage_Encode)
qed

end
