(* ===== verification/Dkg_Coordinator.thy ===== *)
theory Dkg_Coordinator
  imports Signer_Laws Config
begin

text \<open>
  \<open>cmd/dkg-coordinator\<close>: the program that leads the five signers through a key generation.  The
  signers are the world \<open>'w\<close>; \<open>getJSON\<close> and \<open>postJSON\<close> are the program's two ways to call them.  A
  failure prints its error and exits with status 1: the result \<open>Err\<close>.
\<close>

record 'w dkg_client =
  dc_Get :: "'w \<Rightarrow> string \<Rightarrow> http_response go \<times> 'w"
  dc_Post :: "'w \<Rightarrow> string \<Rightarrow> bytes \<Rightarrow> http_response go \<times> 'w"

definition getJSON :: "'w dkg_client \<Rightarrow> 'a into \<Rightarrow> 'a \<Rightarrow> 'w \<Rightarrow> string \<Rightarrow> 'a go \<times> 'w" where
  "getJSON C into out w url =
     bind_w (dc_Get C w url) (\<lambda>resp w'. (json_Unmarshal into out (resp_body resp), w'))"

text \<open>With no \<open>out\<close> the answer is not looked at, not even its status.\<close>

definition postJSON ::
  "'w dkg_client \<Rightarrow> ('a into \<times> 'a) option \<Rightarrow> 'w \<Rightarrow> string \<Rightarrow> json \<Rightarrow> 'a option go \<times> 'w" where
  "postJSON C out w url body =
     (let data = json_Marshal body in
      bind_w (dc_Post C w url data) (\<lambda>resp w'.
        case out of
          None \<Rightarrow> (Ret None, w')
        | Some (into, x) \<Rightarrow>
            (bind_go (json_Unmarshal into x (resp_body resp)) (\<lambda>y. Ret (Some y)), w')))"

text \<open>\<open>fmt.Fprintf(os.Stderr, "ERROR: signer %d round1: %v\n", i+1, err)\<close>\<close>

definition exit_with :: "string \<Rightarrow> 'a go \<times> 'w \<Rightarrow> 'a go \<times> 'w" where
  "exit_with what r = (wrap_err what (fst r), snd r)"

definition signer_no :: "nat \<Rightarrow> string" where
  "signer_no i = ''signer '' @ show_nat (i + 1)"

subsection \<open>The four phases\<close>

definition ask_round1 :: "'w dkg_client \<Rightarrow> 'w \<Rightarrow> nat \<times> string \<Rightarrow> DkgCommitment go \<times> 'w" where
  "ask_round1 C w ia =
     (case ia of (i, addr) \<Rightarrow>
        exit_with (signer_no i @ '' round1'')
          (getJSON C into_DkgCommitment zero_DkgCommitment w (addr @ ''/dkg/round1'')))"

definition broadcast ::
  "'w dkg_client \<Rightarrow> DkgCommitment list \<Rightarrow> 'w \<Rightarrow> nat \<times> string \<Rightarrow> unit option go \<times> 'w" where
  "broadcast C commitments w ia =
     (case ia of (i, addr) \<Rightarrow>
        exit_with (''broadcast to '' @ signer_no i)
          (postJSON C None w (addr @ ''/dkg/commitments'') (slice_json DkgCommitment_json commitments)))"

definition target_id :: "nat \<Rightarrow> u16" where
  "target_id j = of_nat (j + 1)"

type_synonym share_map = "u16 \<Rightarrow> SharePackage list"

text \<open>One package of \<open>sharesByTarget[toID] = append(sharesByTarget[toID], &pkg)\<close>.\<close>

definition ask_round2 ::
  "'w dkg_client \<Rightarrow> nat \<Rightarrow> string \<Rightarrow> 'w \<times> share_map \<Rightarrow> nat \<Rightarrow> unit go \<times> 'w \<times> share_map" where
  "ask_round2 C i addr wm j =
     (let (w, sharesByTarget) = wm; toID = target_id j in
      case exit_with (signer_no i @ '' round2 for '' @ show_nat (unat toID))
             (getJSON C into_SharePackage zero_SharePackage w
                (addr @ ''/dkg/round2/'' @ show_nat (unat toID))) of
        (Ret pkg, w') \<Rightarrow> (Ret (), w', sharesByTarget(toID := sharesByTarget toID @ [pkg]))
      | (Err e, w') \<Rightarrow> (Err e, w', sharesByTarget)
      | (Panic, w') \<Rightarrow> (Panic, w', sharesByTarget))"

definition round2_row ::
  "'w dkg_client \<Rightarrow> nat \<Rightarrow> 'w \<times> share_map \<Rightarrow> nat \<times> string \<Rightarrow> unit list go \<times> 'w \<times> share_map" where
  "round2_row C n wm ia = (case ia of (i, addr) \<Rightarrow> traverse_w (ask_round2 C i addr) wm [0..<n])"

definition deliver_shares ::
  "'w dkg_client \<Rightarrow> share_map \<Rightarrow> 'w \<Rightarrow> nat \<times> string \<Rightarrow> unit option go \<times> 'w" where
  "deliver_shares C sharesByTarget w ia =
     (case ia of (i, addr) \<Rightarrow>
        exit_with (''finalize '' @ signer_no i)
          (postJSON C None w (addr @ ''/dkg/finalize'')
             (slice_json SharePackage_json (sharesByTarget (target_id i)))))"

text \<open>Round 1, the broadcast and round 2: what the coordinator holds when it starts to distribute.\<close>

definition deal :: "'w dkg_client \<Rightarrow> string list \<Rightarrow> 'w \<Rightarrow> share_map go \<times> 'w" where
  "deal C signerAddresses w =
     (let addrs = enumerate 0 signerAddresses in
      bind_w (traverse_w (ask_round1 C) w addrs) (\<lambda>commitments w.
      bind_w (traverse_w (broadcast C commitments) w addrs) (\<lambda>_ w.
      let (r, w, sharesByTarget) =
            traverse_w (round2_row C (length signerAddresses)) (w, \<lambda>_. []) addrs
      in (bind_go r (\<lambda>_. Ret sharesByTarget), w))))"

definition ceremony_main :: "'w dkg_client \<Rightarrow> string list \<Rightarrow> 'w \<Rightarrow> unit go \<times> 'w" where
  "ceremony_main C signerAddresses w =
     bind_w (deal C signerAddresses w) (\<lambda>sharesByTarget w.
     bind_w (traverse_w (deliver_shares C sharesByTarget) w (enumerate 0 signerAddresses)) (\<lambda>_ w.
     (Ret (), w)))"

subsection \<open>Laws\<close>

lemma exit_with_eq_Ret [simp]: "exit_with what r = (Ret x, w) \<longleftrightarrow> r = (Ret x, w)"
  by (cases r) (auto simp: exit_with_def)

text \<open>Whatever a signer answers to a broadcast or to its shares, the ceremony goes on.\<close>

lemma postJSON_ignores_answer:
  assumes "\<And>w url body. is_ret (fst (dc_Post C w url body))"
  shows "is_ret (fst (postJSON C None w url body))"
proof -
  obtain resp w' where "dc_Post C w url (json_Marshal body) = (Ret resp, w')"
    using assms [of w url "json_Marshal body"] by (metis is_ret_iff prod.collapse)
  then show ?thesis by (simp add: postJSON_def)
qed

definition answering ::
  "('w \<Rightarrow> string \<Rightarrow> bytes \<Rightarrow> http_response) \<Rightarrow> 'w dkg_client \<Rightarrow> 'w dkg_client" where
  "answering f C = C\<lparr>dc_Post := \<lambda>w url body. (Ret (f w url body), snd (dc_Post C w url body))\<rparr>"

lemma postJSON_answering:
  assumes "\<And>w url body. is_ret (fst (dc_Post C w url body))"
  shows "postJSON (answering f C) None w url body = postJSON C None w url body"
proof -
  obtain resp w' where "dc_Post C w url (json_Marshal body) = (Ret resp, w')"
    using assms [of w url "json_Marshal body"] by (metis is_ret_iff prod.collapse)
  then show ?thesis by (simp add: postJSON_def answering_def)
qed

lemma getJSON_answering: "getJSON (answering f C) into out w url = getJSON C into out w url"
  by (simp add: getJSON_def answering_def)

lemma traverse_w_always:
  "(\<And>w x. is_ret (fst (f w x))) \<Longrightarrow> is_ret (fst (traverse_w f w xs))"
proof (induction xs arbitrary: w)
  case Nil
  then show ?case by simp
next
  case (Cons x xs)
  obtain y v where y: "f w x = (Ret y, v)" using Cons.prems [of w x] by (metis is_ret_iff prod.collapse)
  obtain ys v' where "traverse_w f v xs = (Ret ys, v')"
    using Cons.IH [of v] Cons.prems by (metis is_ret_iff prod.collapse)
  with y show ?case by simp
qed

lemma ask_round2_Ret:
  "ask_round2 C i addr (w, m) j = (Ret u, w', m') \<longleftrightarrow>
     (\<exists>pkg. getJSON C into_SharePackage zero_SharePackage w
        (addr @ ''/dkg/round2/'' @ show_nat (unat (target_id j))) = (Ret pkg, w') \<and>
      m' = m(target_id j := m (target_id j) @ [pkg]))"
proof -
  have eq: "(case exit_with c r of
        (Ret pkg, w') \<Rightarrow> (Ret (), w', f pkg)
      | (Err e, w') \<Rightarrow> (Err e, w', m)
      | (Panic, w') \<Rightarrow> (Panic, w', m)) = (Ret u, w', m') \<longleftrightarrow> (\<exists>pkg. r = (Ret pkg, w') \<and> m' = f pkg)"
    for c r and f :: "SharePackage \<Rightarrow> share_map"
    by (cases r; cases "fst r") (auto simp: exit_with_def)
  show ?thesis unfolding ask_round2_def Let_def prod.case eq by auto
qed

text \<open>What a row of round 2, and all rows, leave in the map when no call changes the world.\<close>

lemma ask_round2_loop:
  assumes "\<And>m j. j \<in> set js \<Longrightarrow>
      ask_round2 C i addr (w, m) j = (Ret (), w, m(target_id j := m (target_id j) @ [pkg j]))"
  shows "traverse_w (ask_round2 C i addr) (w, m) js =
    (Ret (map (\<lambda>_. ()) js), w, \<lambda>t. m t @ map pkg (filter (\<lambda>j. target_id j = t) js))"
  using assms by (induction js arbitrary: m) (auto simp: fun_eq_iff)

lemma round2_loop:
  assumes "\<And>m i. i \<in> set is \<Longrightarrow>
      round2_row C n (w, m) (i, addrs ! i) = (Ret us, w, \<lambda>t. m t @ row i t)"
  shows "traverse_w (round2_row C n) (w, m) (map (\<lambda>i. (i, addrs ! i)) is) =
    (Ret (map (\<lambda>_. us) is), w, \<lambda>t. m t @ concat (map (\<lambda>i. row i t) is))"
  using assms by (induction "is" arbitrary: m) (auto simp: fun_eq_iff)

end
