(* ===== verification/Coordinator_State.thy ===== *)
theory Coordinator_State
  imports Frost_State
begin

text \<open>
  \<open>internal/coordinatorstate\<close>: the coordinators read the plain key file, all shares included, and keep
  only the FROST configuration built from it.
\<close>

definition coordinator_config :: "('s, 'e, 'g) frost_lib \<Rightarrow> file_system \<Rightarrow> 'e Configuration go" where
  "coordinator_config F fs =
     bind_go (wrap_err ''open frost-keys.json'' (ReadFile ''data/frost-keys.json'' fs)) (\<lambda>data.
     bind_go (wrap_err ''decode json'' (json_Decode into_StoredKeys zero_StoredKeys data)) (\<lambda>stored.
     bind_go (decode_shares F (stored_Shares stored)) (\<lambda>keyShares.
     config_of F keyShares)))"

text \<open>\<open>Init\<close>: the global \<open>Config\<close> is set only when nothing failed.\<close>

definition coordinator_Init ::
  "('s, 'e, 'g) frost_lib \<Rightarrow> file_system \<Rightarrow> 'e Configuration option \<Rightarrow>
     unit go \<times> 'e Configuration option" where
  "coordinator_Init F fs g =
     (case coordinator_config F fs of
        Ret cfg \<Rightarrow> (Ret (), Some cfg)
      | Err e \<Rightarrow> (Err e, g)
      | Panic \<Rightarrow> (Panic, g))"

text \<open>A text that \<open>Unmarshal\<close> takes, \<open>Decode\<close> takes with the same result.\<close>

lemma Unmarshal_Decode: "json_Unmarshal into x s = Ret y \<Longrightarrow> json_Decode into x s = Ret y"
  by (auto simp: json_Unmarshal_def json_Decode_def bind_go_eq_Ret split: if_splits)

lemma coordinator_config_plain:
  assumes "ReadFile ''data/frost-keys.json'' fs = Ret data" "unmarshal_stored data = Ret stored"
  shows "coordinator_config F fs = bind_go (decode_shares F (stored_Shares stored)) (config_of F)"
  using assms by (simp add: coordinator_config_def unmarshal_stored_def Unmarshal_Decode)

end
