(* ===== verification/Ecdsa_Signing.thy ===== *)
theory Ecdsa_Signing
  imports Go_Encoding Go_Os
begin

text \<open>
  \<open>internal/signing/ecdsa.go\<close> and \<open>cmd/genkey\<close>: the ECDSA P-256 key the proxy signs JWTs with, where
  it is kept, and the fixed-width \<open>R || S\<close> signature that go-jose expects.  The primitives themselves
  (SHA-256, P-256, the X.509 and PEM formats) are a parameter, the record \<open>ecdsa_std\<close>; what the code
  relies on is \<open>ecdsa_lawful\<close>.  \<open>'k\<close> is a private key, \<open>'r\<close> what is read from \<open>rand.Reader\<close>.
\<close>

record ('k, 'r) ecdsa_std =
  Sum256 :: "bytes \<Rightarrow> bytes"
  GenerateKey :: "'r \<Rightarrow> 'k go"
  ecdsa_Sign :: "'r \<Rightarrow> 'k \<Rightarrow> bytes \<Rightarrow> (nat \<times> nat) go"
  ecdsa_Verify :: "'k \<Rightarrow> bytes \<Rightarrow> nat \<Rightarrow> nat \<Rightarrow> bool"
  ParseECPrivateKey :: "bytes \<Rightarrow> 'k go"
  MarshalECPrivateKey :: "'k \<Rightarrow> bytes go"
  MarshalPKIX :: "'k \<Rightarrow> bytes go"
  pem_Decode :: "bytes \<Rightarrow> bytes option"
  pem_Encode :: "bytes \<Rightarrow> bytes"

text \<open>
  The documented behaviour the code relies on: a signature verifies under the key that made it; a
  marshalled key parses back, also through PEM.
\<close>

definition ecdsa_lawful :: "('k, 'r) ecdsa_std \<Rightarrow> bool" where
  "ecdsa_lawful E \<longleftrightarrow>
     (\<forall>rnd k h r s. ecdsa_Sign E rnd k h = Ret (r, s) \<longrightarrow> ecdsa_Verify E k h r s) \<and>
     (\<forall>k der. MarshalECPrivateKey E k = Ret der \<longrightarrow> ParseECPrivateKey E der = Ret k) \<and>
     (\<forall>der. pem_Decode E (pem_Encode E der) = Some der)"

text \<open>
  What holds of a key on P-256, the curve of a key that \<open>NewECDSAKey\<close> makes: the two numbers of its
  signatures are below the group order, hence below \<open>2 ^ 256\<close>.  A key that is loaded can be on any
  curve, so this is a hypothesis on the key where it is needed.
\<close>

definition p256_key :: "('k, 'r) ecdsa_std \<Rightarrow> 'k \<Rightarrow> bool" where
  "p256_key E k \<longleftrightarrow> (\<forall>rnd h r s. ecdsa_Sign E rnd k h = Ret (r, s) \<longrightarrow> r < 2 ^ 256 \<and> s < 2 ^ 256)"

subsection \<open>Fixed-width integers\<close>

text \<open>\<open>big.Int.Bytes\<close>: big-endian, no leading zero byte.\<close>

fun big_Bytes :: "nat \<Rightarrow> bytes" where
  "big_Bytes n = (if n = 0 then [] else big_Bytes (n div 256) @ [char_of (n mod 256)])"

declare big_Bytes.simps [simp del]

definition padLeft :: "bytes \<Rightarrow> nat \<Rightarrow> bytes" where
  "padLeft b sz =
     (if sz \<le> length b then b else replicate (sz - length b) (CHR 0x00) @ b)"

text \<open>The reader: a big-endian byte string as a number.\<close>

definition os2ip :: "bytes \<Rightarrow> nat" where
  "os2ip bs = foldl (\<lambda>n c. 256 * n + of_char c) 0 bs"

lemma os2ip_append: "os2ip (xs @ [c]) = 256 * os2ip xs + of_char c"
  by (simp add: os2ip_def)

lemma os2ip_zeros: "os2ip (replicate n (CHR 0x00) @ bs) = os2ip bs"
  by (induction n) (auto simp: os2ip_def)

lemma os2ip_big_Bytes [simp]: "os2ip (big_Bytes n) = n"
proof (induction n rule: big_Bytes.induct)
  case (1 n)
  show ?case
  proof (cases "n = 0")
    case True
    then show ?thesis by (simp add: big_Bytes.simps [of 0] os2ip_def)
  next
    case False
    with 1 show ?thesis by (simp add: big_Bytes.simps [of n] os2ip_append)
  qed
qed

lemma big_Bytes_length: "n < 256 ^ k \<Longrightarrow> length (big_Bytes n) \<le> k"
proof (induction k arbitrary: n)
  case 0
  then show ?case by (simp add: big_Bytes.simps [of 0])
next
  case (Suc k)
  show ?case
  proof (cases "n = 0")
    case True
    then show ?thesis by (simp add: big_Bytes.simps [of 0])
  next
    case False
    have "n div 256 < 256 ^ k" using Suc.prems by (simp add: less_mult_imp_div_less mult.commute)
    with False Suc.IH show ?thesis by (simp add: big_Bytes.simps [of n])
  qed
qed

lemma big_Bytes_less: "n < 256 ^ length (big_Bytes n)"
proof (induction n rule: big_Bytes.induct)
  case (1 n)
  show ?case
  proof (cases "n = 0")
    case False
    with 1 have "n div 256 < 256 ^ length (big_Bytes (n div 256))" by simp
    moreover have "n = 256 * (n div 256) + n mod 256" "n mod 256 < 256" by simp_all
    ultimately have "n < 256 * 256 ^ length (big_Bytes (n div 256))" by linarith
    with False show ?thesis by (simp add: big_Bytes.simps [of n])
  qed (simp add: big_Bytes.simps [of 0])
qed

lemma padLeft_length: "length (padLeft b sz) = max sz (length b)"
  by (simp add: padLeft_def)

lemma os2ip_padLeft [simp]: "os2ip (padLeft b sz) = os2ip b"
  by (simp add: padLeft_def os2ip_zeros)

lemma padded_length: "n < 2 ^ 256 \<Longrightarrow> length (padLeft (big_Bytes n) 32) = 32"
proof -
  assume "n < 2 ^ 256"
  then have "n < 256 ^ 32" by simp
  then have "length (big_Bytes n) \<le> 32" by (rule big_Bytes_length)
  then show ?thesis by (simp add: padLeft_length)
qed

lemma padded_length_iff: "length (padLeft (big_Bytes n) 32) = 32 \<longleftrightarrow> n < 2 ^ 256"
proof
  assume "length (padLeft (big_Bytes n) 32) = 32"
  then have "length (big_Bytes n) \<le> 32" by (simp add: padLeft_length)
  then have "(256 :: nat) ^ length (big_Bytes n) \<le> 256 ^ 32" by (rule power_increasing) simp
  with big_Bytes_less [of n] show "n < 2 ^ 256" by simp
qed (rule padded_length)

text \<open>The octet string of RFC 8017 (4.1), the reference for the padded encoding.  Specification only.\<close>

fun i2osp :: "nat \<Rightarrow> nat \<Rightarrow> bytes" where
  "i2osp 0 n = []"
| "i2osp (Suc k) n = i2osp k (n div 256) @ [char_of (n mod 256)]"

lemma i2osp_0: "i2osp k 0 = replicate k (CHR 0x00)"
proof (induction k)
  case (Suc k)
  have "char_of (0 :: nat) = CHR 0x00" by (simp add: char_of_eq_iff)
  with Suc show ?case by (simp add: replicate_append_same)
qed simp

lemma padLeft_snoc: "padLeft (bs @ [c]) (Suc k) = padLeft bs k @ [c]"
  by (simp add: padLeft_def)

lemma padLeft_i2osp: "n < 256 ^ k \<Longrightarrow> padLeft (big_Bytes n) k = i2osp k n"
proof (induction k arbitrary: n)
  case 0
  then show ?case by (simp add: padLeft_def big_Bytes.simps [of 0])
next
  case (Suc k)
  show ?case
  proof (cases "n = 0")
    case True
    then show ?thesis by (simp only: big_Bytes.simps [of 0] i2osp_0) (simp add: padLeft_def)
  next
    case False
    have "n div 256 < 256 ^ k" using Suc.prems by (simp add: less_mult_imp_div_less mult.commute)
    with False Suc.IH show ?thesis by (simp add: big_Bytes.simps [of n] padLeft_snoc)
  qed
qed

subsection \<open>Signing\<close>

definition SignES256 :: "('k, 'r) ecdsa_std \<Rightarrow> 'r \<Rightarrow> 'k \<Rightarrow> string \<Rightarrow> string go" where
  "SignES256 E rnd k signingInput =
     (let hash = Sum256 E signingInput in
      bind_go (wrap_err ''ecdsa sign'' (ecdsa_Sign E rnd k hash)) (\<lambda>(r, s).
        let curveSize = 32;
            rBytes = padLeft (big_Bytes r) curveSize;
            sBytes = padLeft (big_Bytes s) curveSize
        in Ret (b64_RawURL_encode (rBytes @ sBytes))))"

definition PublicKeyPKIX :: "('k, 'r) ecdsa_std \<Rightarrow> 'k \<Rightarrow> bytes go" where
  "PublicKeyPKIX E k = MarshalPKIX E k"

text \<open>
  What a JWT library does with the third part of an ES256 token (RFC 7518, 3.4): 64 bytes, the first
  half \<open>R\<close>, the second half \<open>S\<close>.  Specification only.
\<close>

definition es256_accepts :: "('k, 'r) ecdsa_std \<Rightarrow> 'k \<Rightarrow> string \<Rightarrow> string \<Rightarrow> bool" where
  "es256_accepts E k signingInput sig =
     (case b64_RawURL_decode sig of
        Ret bs \<Rightarrow> length bs = 64 \<and>
          ecdsa_Verify E k (Sum256 E signingInput) (os2ip (take 32 bs)) (os2ip (drop 32 bs))
      | _ \<Rightarrow> False)"

lemma SignES256_Ret:
  "SignES256 E rnd k m = Ret sig \<longleftrightarrow>
     (\<exists>r s. ecdsa_Sign E rnd k (Sum256 E m) = Ret (r, s) \<and>
        sig = b64_RawURL_encode (padLeft (big_Bytes r) 32 @ padLeft (big_Bytes s) 32))"
  by (auto simp: SignES256_def bind_go_eq_Ret Let_def)

lemma SignES256_accepted_iff:
  assumes "ecdsa_lawful E" "ecdsa_Sign E rnd k (Sum256 E m) = Ret (r, s)"
  shows "\<exists>sig. SignES256 E rnd k m = Ret sig \<and> (es256_accepts E k m sig \<longleftrightarrow> r < 2 ^ 256 \<and> s < 2 ^ 256)"
proof -
  define R S where "R = padLeft (big_Bytes r) 32" and "S = padLeft (big_Bytes s) 32"
  have v: "ecdsa_Verify E k (Sum256 E m) r s" using assms unfolding ecdsa_lawful_def by blast
  have len: "32 \<le> length R" "32 \<le> length S" by (simp_all add: R_def S_def padLeft_length)
  then have iff: "length (R @ S) = 64 \<longleftrightarrow> length R = 32 \<and> length S = 32" by auto
  have "es256_accepts E k m (b64_RawURL_encode (R @ S)) \<longleftrightarrow> length R = 32 \<and> length S = 32"
    unfolding es256_accepts_def b64_decode_encode go.case iff using v by (auto simp: R_def S_def)
  moreover have "SignES256 E rnd k m = Ret (b64_RawURL_encode (R @ S))"
    using assms(2) by (auto simp: SignES256_Ret R_def S_def)
  ultimately show ?thesis unfolding R_def S_def padded_length_iff by blast
qed

lemma SignES256_accepted:
  assumes "ecdsa_lawful E" "p256_key E k" "SignES256 E rnd k m = Ret sig"
  shows "es256_accepts E k m sig" and "length sig = 86"
proof -
  from assms(3) obtain r s where rs: "ecdsa_Sign E rnd k (Sum256 E m) = Ret (r, s)"
      and sig: "sig = b64_RawURL_encode (padLeft (big_Bytes r) 32 @ padLeft (big_Bytes s) 32)"
    unfolding SignES256_Ret by blast
  from assms(2) rs have b: "r < 2 ^ 256" "s < 2 ^ 256" unfolding p256_key_def by blast+
  with SignES256_accepted_iff [OF assms(1) rs] assms(3) show "es256_accepts E k m sig" by auto
  show "length sig = 86" by (simp add: sig b64_encode_length padded_length [OF b(1)] padded_length [OF b(2)])
qed

subsection \<open>Loading and creating the key\<close>

definition load_ecdsa :: "('k, 'r) ecdsa_std \<Rightarrow> string \<Rightarrow> file_system \<Rightarrow> 'k option" where
  "load_ecdsa E path s =
     (case ReadFile path s of
        Ret data \<Rightarrow>
          (case pem_Decode E data of
             Some block \<Rightarrow> (case ParseECPrivateKey E block of Ret k \<Rightarrow> Some k | _ \<Rightarrow> None)
           | None \<Rightarrow> None)
      | _ \<Rightarrow> None)"

text \<open>A file that is missing or does not hold a key is replaced by a new key.\<close>

definition NewECDSAKey ::
  "('k, 'r) ecdsa_std \<Rightarrow> 'r \<Rightarrow> string \<Rightarrow> file_system \<Rightarrow> 'k go \<times> file_system" where
  "NewECDSAKey E rnd path s =
     (case load_ecdsa E path s of
        Some k \<Rightarrow> (Ret k, s)
      | None \<Rightarrow>
          (case GenerateKey E rnd of
             Ret k \<Rightarrow>
               (case MarshalECPrivateKey E k of
                  Ret der \<Rightarrow>
                    (case Create path s of
                       (Ret _, s1) \<Rightarrow>
                         (case write_file path (pem_Encode E der) s1 of
                            (Ret _, s2) \<Rightarrow> (Ret k, s2)
                          | (Err e, s2) \<Rightarrow> (Err (Wrap ''encode key'' e), s2)
                          | (Panic, s2) \<Rightarrow> (Panic, s2))
                     | (Err e, s1) \<Rightarrow> (Err (Wrap ''create key file'' e), s1)
                     | (Panic, s1) \<Rightarrow> (Panic, s1))
                | Err e \<Rightarrow> (Err (Wrap ''marshal key'' e), s)
                | Panic \<Rightarrow> (Panic, s))
           | Err e \<Rightarrow> (Err (Wrap ''generate key'' e), s)
           | Panic \<Rightarrow> (Panic, s)))"

definition genkey_main :: "('k, 'r) ecdsa_std \<Rightarrow> 'r \<Rightarrow> file_system \<Rightarrow> unit go \<times> file_system" where
  "genkey_main E rnd s =
     (case NewECDSAKey E rnd ''data/ecdsa-signing.pem'' s of
        (Ret _, s') \<Rightarrow> (Ret (), s') | (_, s') \<Rightarrow> (Panic, s'))"

lemma NewECDSAKey_loads: "load_ecdsa E path s = Some k \<Longrightarrow> NewECDSAKey E rnd path s = (Ret k, s)"
  by (simp add: NewECDSAKey_def)

text \<open>However the key was obtained, the file now holds it.\<close>

lemma NewECDSAKey_persists:
  assumes "ecdsa_lawful E" "NewECDSAKey E rnd path s = (Ret k, s')"
  shows "load_ecdsa E path s' = Some k"
proof (cases "load_ecdsa E path s")
  case (Some k')
  with assms(2) show ?thesis by (simp add: NewECDSAKey_def)
next
  case None
  with assms(2) obtain der where d: "MarshalECPrivateKey E k = Ret der"
      "ReadFile path s' = Ret (pem_Encode E der)"
    by (auto simp: NewECDSAKey_def Create_def write_file_def ReadFile_def split: go.splits if_splits)
  with assms(1) show ?thesis by (simp add: load_ecdsa_def ecdsa_lawful_def)
qed

lemma NewECDSAKey_other_files:
  "NewECDSAKey E rnd path s = (r, s') \<Longrightarrow> q \<noteq> path \<Longrightarrow> entries s' q = entries s q"
  by (auto simp: NewECDSAKey_def Create_def write_file_def split: go.splits if_splits option.splits)

end
