(* ===== verification/Grpc_Proxy.thy ===== *)
theory Grpc_Proxy
  imports Frost_Wire Coordinator_State Config Ecdsa_Signing Go_Http
begin

text \<open>
  \<open>cmd/grpc-proxy\<close>: the coordinator behind the Kubernetes API server.  One signing request asks all
  signers for a commitment in parallel, keeps the first three that answer, asks those three for a
  signature share in parallel, checks by FROST aggregation that they collaborated, and signs with the
  proxy's ECDSA key.  A \<open>run\<close> fixes what is left open: the outcome of the call each goroutine makes
  and the order in which the results arrive on the two channels; \<open>Proxy_Machine\<close> shows that the
  goroutines and channels produce exactly such orders.
\<close>

definition threshold :: nat where
  "threshold = 3"

definition encodeBase64URL :: "bytes \<Rightarrow> string" where
  "encodeBase64URL data = b64_RawURL_encode data"

text \<open>What goroutine number \<open>i\<close> gets for a URL and a body.\<close>

type_synonym calls = "nat \<Rightarrow> string \<Rightarrow> bytes \<Rightarrow> http_response go"

subsection \<open>Commitments\<close>

definition commit_worker :: "calls \<Rightarrow> nat \<Rightarrow> string \<Rightarrow> string \<times> CommitmentResponse go" where
  "commit_worker post i a =
     (a, bind_go (post i (a @ ''/commit'') []) (\<lambda>resp. decode_CommitmentResponse (resp_body resp)))"

text \<open>The loop over the channel: every result is received, up to \<open>threshold\<close> successes are kept.\<close>

fun collect_loop ::
  "(string \<times> CommitmentResponse go) list \<Rightarrow> (CommitmentResponse \<times> string) list \<Rightarrow>
     (CommitmentResponse \<times> string) list" where
  "collect_loop [] kept = kept"
| "collect_loop ((addr, r) # rs) kept =
     (case r of
        Ret c \<Rightarrow> collect_loop rs (if length kept < threshold then kept @ [(c, addr)] else kept)
      | _ \<Rightarrow> collect_loop rs kept)"

definition not_enough :: "nat \<Rightarrow> error" where
  "not_enough n =
     Msg (''not enough signers: got '' @ show_nat n @ '', need '' @ show_nat threshold)"

definition select_commitments ::
  "(string \<times> CommitmentResponse go) list \<Rightarrow> (CommitmentResponse list \<times> string list) go" where
  "select_commitments arrivals =
     (let kept = collect_loop arrivals [] in
      if length kept < threshold then Err (not_enough (length kept))
      else Ret (map fst kept, map snd kept))"

definition collectCommitmentsParallel ::
  "calls \<Rightarrow> nat list \<Rightarrow> string list \<Rightarrow> (CommitmentResponse list \<times> string list) go" where
  "collectCommitmentsParallel post order signerAddresses =
     select_commitments (map (\<lambda>i. commit_worker post i (signerAddresses ! i)) order)"

subsection \<open>Signature shares\<close>

definition share_worker :: "calls \<Rightarrow> bytes \<Rightarrow> nat \<Rightarrow> string \<Rightarrow> SignatureShareResponse go" where
  "share_worker post reqBody i a =
     bind_go (wrap_err (''sign from '' @ a) (post i (a @ ''/sign'') reqBody)) (\<lambda>resp.
       wrap_err (''decode share from '' @ a) (unmarshal_SignatureShareResponse (resp_body resp)))"

text \<open>The first error that arrives is returned; without one, all shares in order of arrival.\<close>

definition collectSharesParallel ::
  "calls \<Rightarrow> nat list \<Rightarrow> string \<Rightarrow> CommitmentResponse list \<Rightarrow> string list \<Rightarrow>
     SignatureShareResponse list go" where
  "collectSharesParallel post order message commitments activeSigners =
     (let reqBody = json_Marshal (SignRequest_json \<lparr>Message = message, Commitments = commitments\<rparr>)
      in traverse (\<lambda>i. share_worker post reqBody i (activeSigners ! i)) order)"

subsection \<open>Aggregation and signing\<close>

definition aggregateSignature ::
  "('s, 'e, 'g) frost_lib \<Rightarrow> 'e Configuration \<Rightarrow> string \<Rightarrow> CommitmentResponse list \<Rightarrow>
     SignatureShareResponse list \<Rightarrow> ('s, 'e) frost_signature go" where
  "aggregateSignature F cfg message commitments shares =
     bind_go (decode_commitments F commitments) (\<lambda>commitmentList.
     let commitmentList = CommitmentList_Sort F commitmentList in
     bind_go (decode_signature_shares F shares) (\<lambda>sigShares.
     Config_Aggregate F cfg message sigShares commitmentList True))"

record ('s, 'e, 'g, 'k, 'r) proxy_env =
  px_F :: "('s, 'e, 'g) frost_lib"
  px_E :: "('k, 'r) ecdsa_std"
  px_config :: "'e Configuration"
  px_ecKey :: 'k
  px_keyID :: string
  px_addresses :: "string list"

record 'r run =
  commit_calls :: calls
  commit_order :: "nat list"
  sign_calls :: calls
  sign_order :: "nat list"
  rand_read :: 'r

text \<open>Each goroutine's result arrives exactly once.\<close>

definition valid_run :: "nat \<Rightarrow> 'r run \<Rightarrow> bool" where
  "valid_run n R \<longleftrightarrow>
     distinct (commit_order R) \<and> set (commit_order R) = {0..<n} \<and>
     distinct (sign_order R) \<and> set (sign_order R) = {0..<threshold}"

definition jwt_header :: "string \<Rightarrow> string" where
  "jwt_header keyID =
     encodeBase64URL
       (''{'' @ dquote ''alg'' @ '':'' @ dquote ''ES256'' @ '','' @ dquote ''typ'' @ '':'' @ dquote ''JWT'' @
        '','' @ dquote ''kid'' @ '':'' @ dquote keyID @ ''}'')"

definition makeSignFn ::
  "('s, 'e, 'g, 'k, 'r) proxy_env \<Rightarrow> 'r run \<Rightarrow> bytes \<Rightarrow> (string \<times> string) go" where
  "makeSignFn X R claimsB64 =
     (let payload = claimsB64;
          header = jwt_header (px_keyID X);
          signingInput = header @ ''.'' @ payload
      in
      bind_go (collectCommitmentsParallel (commit_calls R) (commit_order R) (px_addresses X))
        (\<lambda>(commitments, activeSigners).
      bind_go (collectSharesParallel (sign_calls R) (sign_order R) signingInput commitments activeSigners)
        (\<lambda>shares.
      bind_go (wrap_err ''frost aggregate''
                 (aggregateSignature (px_F X) (px_config X) signingInput commitments shares))
        (\<lambda>_.
      bind_go (wrap_err ''ecdsa sign'' (SignES256 (px_E X) (rand_read R) (px_ecKey X) signingInput))
        (\<lambda>signature. Ret (header, signature))))))"

subsection \<open>Laws of the collection\<close>

definition answered :: "string \<times> CommitmentResponse go \<Rightarrow> bool" where
  "answered r = is_ret (snd r)"

definition answer :: "string \<times> CommitmentResponse go \<Rightarrow> CommitmentResponse \<times> string" where
  "answer r = (case r of (a, Ret c) \<Rightarrow> (c, a) | (a, _) \<Rightarrow> (zero_CommitmentResponse, a))"

lemma collect_loop_eq:
  "length kept \<le> threshold \<Longrightarrow>
     collect_loop rs kept = kept @ take (threshold - length kept) (map answer (filter answered rs))"
proof (induction rs kept rule: collect_loop.induct)
  case (1 kept)
  then show ?case by simp
next
  case (2 addr r rs kept)
  show ?case
  proof (cases r)
    case (Ret c)
    show ?thesis
    proof (cases "length kept < threshold")
      case True
      then obtain m where "threshold - length kept = Suc m" "threshold - Suc (length kept) = m"
        by (metis Suc_diff_Suc)
      with 2 True Ret show ?thesis by (simp add: answered_def answer_def)
    next
      case False
      with 2 Ret show ?thesis by (simp add: answered_def)
    qed
  qed (use 2 in \<open>simp_all add: answered_def\<close>)
qed

text \<open>The specification of the collection: the first three answers, if there are three.\<close>

lemma select_commitments_eq:
  "select_commitments rs =
     (let ok = map answer (filter answered rs) in
      if length ok < threshold then Err (not_enough (length ok))
      else Ret (map fst (take threshold ok), map snd (take threshold ok)))"
  by (simp add: select_commitments_def collect_loop_eq Let_def min_def)

lemma select_commitments_ret:
  "is_ret (select_commitments rs) \<longleftrightarrow> threshold \<le> length (filter answered rs)"
  by (simp add: select_commitments_eq Let_def not_less)

lemma length_filter_distinct:
  assumes "distinct order"
  shows "length (filter P (map f order)) = card {i \<in> set order. P (f i)}"
proof -
  have "length (filter P (map f order)) = length (filter (P \<circ> f) order)"
    by (simp add: filter_map)
  also have "\<dots> = card (set (filter (P \<circ> f) order))"
    using distinct_card [OF distinct_filter [OF assms(1)]] by (rule sym)
  also have "set (filter (P \<circ> f) order) = {i \<in> set order. P (f i)}" by auto
  finally show ?thesis .
qed

lemma length_filter_order:
  fixes n :: nat
  assumes "distinct order" "set order = {0..<n}"
  shows "length (filter P (map f order)) = card {i. i < n \<and> P (f i)}"
  using length_filter_distinct [OF assms(1), of P f] assms(2) by simp

text \<open>The signers that answered the first call, by number.\<close>

definition responsive :: "calls \<Rightarrow> string list \<Rightarrow> nat set" where
  "responsive post addrs = {i. i < length addrs \<and> answered (commit_worker post i (addrs ! i))}"

lemma collectCommitments_ret:
  assumes "distinct order" "set order = {0..<length addrs}"
  shows "is_ret (collectCommitmentsParallel post order addrs) \<longleftrightarrow>
    threshold \<le> card (responsive post addrs)"
  using length_filter_order [OF assms, of answered]
  by (simp add: collectCommitmentsParallel_def select_commitments_ret responsive_def del: filter_map)

lemma collectCommitments_Err:
  assumes "distinct order" "set order = {0..<length addrs}"
    and "card (responsive post addrs) < threshold"
  shows "collectCommitmentsParallel post order addrs = Err (not_enough (card (responsive post addrs)))"
  using assms(3) length_filter_order [OF assms(1,2), of answered]
  by (simp add: collectCommitmentsParallel_def select_commitments_eq responsive_def Let_def
      del: filter_map)

text \<open>What a successful collection holds: three different signers, and the commitment of each.\<close>

lemma collectCommitments_Ret:
  assumes "collectCommitmentsParallel post order addrs = Ret (cs, act)" "distinct order"
    "set order = {0..<length addrs}"
  obtains js where "length js = threshold" "distinct js" "set js \<subseteq> responsive post addrs"
    "act = map (\<lambda>i. addrs ! i) js"
    "list_all2 (\<lambda>i c. snd (commit_worker post i (addrs ! i)) = Ret c) js cs"
    "js = take threshold (filter (\<lambda>i. answered (commit_worker post i (addrs ! i))) order)"
proof -
  define w where "w i = commit_worker post i (addrs ! i)" for i
  define js where "js = take threshold (filter (answered \<circ> w) order)"
  from assms(1) have r: "select_commitments (map w order) = Ret (cs, act)"
    by (simp add: collectCommitmentsParallel_def w_def [abs_def])
  then have len: "threshold \<le> length (filter (answered \<circ> w) order)"
    using select_commitments_ret [of "map w order"] by (simp add: filter_map)
  from r have eq: "cs = map (\<lambda>i. fst (answer (w i))) js" "act = map (\<lambda>i. snd (answer (w i))) js"
    by (auto simp: select_commitments_eq Let_def filter_map js_def take_map split: if_splits)
  have sub: "set js \<subseteq> {i. i < length addrs \<and> answered (w i)}"
    using assms(3) set_take_subset [of threshold "filter (answered \<circ> w) order"]
    by (auto simp: js_def)
  have ans: "fst (answer (w i)) = c \<longleftrightarrow> snd (w i) = Ret c" "snd (answer (w i)) = addrs ! i"
    if "answered (w i)" for i c
    using that by (auto simp: answered_def answer_def w_def commit_worker_def is_ret_iff)
  show thesis
  proof (rule that [of js])
    show "length js = threshold" using len by (simp add: js_def)
    show "distinct js" using assms(2) by (simp add: js_def)
    show "set js \<subseteq> responsive post addrs" using sub by (simp add: responsive_def w_def)
    show "act = map (\<lambda>i. addrs ! i) js" using sub ans(2) by (auto simp: eq)
    show "list_all2 (\<lambda>i c. snd (commit_worker post i (addrs ! i)) = Ret c) js cs"
      using sub ans(1) unfolding eq(1) list_all2_map2 w_def [symmetric]
      by (force simp: list_all2_same)
    show "js = take threshold (filter (\<lambda>i. answered (commit_worker post i (addrs ! i))) order)"
      by (simp add: js_def w_def o_def)
  qed
qed

text \<open>A signer that answers among the first three results is one of the chosen ones.\<close>

lemma early_answer_chosen:
  assumes "b \<in> set (take k order)" "P b"
  shows "b \<in> set (take k (filter P order))"
  using assms
proof (induction order arbitrary: k)
  case (Cons x xs)
  show ?case
  proof (cases k)
    case (Suc l)
    with Cons set_take_subset_set_take [of l k "filter P xs"] show ?thesis by auto
  qed (use Cons in simp)
qed simp

lemma collectShares_ret:
  "is_ret (collectSharesParallel post order m cs act) \<longleftrightarrow>
     (\<forall>i \<in> set order. is_ret (share_worker post
        (json_Marshal (SignRequest_json \<lparr>Message = m, Commitments = cs\<rparr>)) i (act ! i)))"
  by (simp add: collectSharesParallel_def Let_def traverse_ret_all)

lemma makeSignFn_Ret:
  "makeSignFn X R claims = Ret (h, sig) \<longleftrightarrow>
     (\<exists>cs act ss z. collectCommitmentsParallel (commit_calls R) (commit_order R) (px_addresses X) =
          Ret (cs, act) \<and>
        collectSharesParallel (sign_calls R) (sign_order R) (h @ ''.'' @ claims) cs act = Ret ss \<and>
        aggregateSignature (px_F X) (px_config X) (h @ ''.'' @ claims) cs ss = Ret z \<and>
        SignES256 (px_E X) (rand_read R) (px_ecKey X) (h @ ''.'' @ claims) = Ret sig \<and>
        h = jwt_header (px_keyID X))"
  by (auto simp: makeSignFn_def Let_def bind_go_eq_Ret)

end
