(* ===== verification/Grpc_Server.thy ===== *)
theory Grpc_Server
  imports Grpc_Proxy
begin

text \<open>
  \<open>internal/grpcserver\<close>, \<open>internal/mtls\<close> and the \<open>main\<close> of \<open>cmd/grpc-proxy\<close>: the three calls of the
  ExternalJWTSigner service that the Kubernetes API server makes, the TLS client the proxy talks to the
  signers with, and how the process is put together.  \<open>'t\<close> is a point in time.
\<close>

subsection \<open>The service\<close>

type_synonym ThresholdSignFn = "bytes \<Rightarrow> (string \<times> string) go"

record Server =
  srv_signFn :: ThresholdSignFn
  srv_keyID :: string
  srv_verificationKeyPKIX :: bytes

record pb_SignJWTResponse =
  pb_Header :: string
  pb_Signature :: string

record pb_Key =
  pb_KeyId :: string
  pb_Key :: bytes
  pb_ExcludeFromOidcDiscovery :: bool

record 't pb_FetchKeysResponse =
  pb_Keys :: "pb_Key list"
  pb_DataTimestamp :: 't
  pb_RefreshHintSeconds :: int

record pb_MetadataResponse =
  pb_MaxTokenExpirationSeconds :: int

definition Server_New :: "ThresholdSignFn \<Rightarrow> string \<Rightarrow> bytes \<Rightarrow> Server go" where
  "Server_New signFn keyID verificationKeyPKIX =
     Ret \<lparr>srv_signFn = signFn, srv_keyID = keyID, srv_verificationKeyPKIX = verificationKeyPKIX\<rparr>"

definition Server_Sign :: "Server \<Rightarrow> string \<Rightarrow> pb_SignJWTResponse go" where
  "Server_Sign s claims =
     bind_go (wrap_err ''threshold sign'' (srv_signFn s claims)) (\<lambda>(header, signature).
       Ret \<lparr>pb_Header = header, pb_Signature = signature\<rparr>)"

definition Server_FetchKeys :: "'t \<Rightarrow> Server \<Rightarrow> 't pb_FetchKeysResponse go" where
  "Server_FetchKeys now s =
     Ret \<lparr>pb_Keys = [\<lparr>pb_KeyId = srv_keyID s, pb_Key = srv_verificationKeyPKIX s,
                      pb_ExcludeFromOidcDiscovery = False\<rparr>],
          pb_DataTimestamp = now, pb_RefreshHintSeconds = 300\<rparr>"

definition Server_Metadata :: "Server \<Rightarrow> pb_MetadataResponse go" where
  "Server_Metadata s = Ret \<lparr>pb_MaxTokenExpirationSeconds = 3600\<rparr>"

datatype listen_address = Unix string | Tcp string

text \<open>\<open>net.Listen\<close> and \<open>grpcServer.Serve\<close> are given by what they return.\<close>

definition ListenAndServe ::
  "(listen_address \<Rightarrow> unit go) \<Rightarrow> (listen_address \<Rightarrow> unit go) \<Rightarrow> string \<Rightarrow> file_system \<Rightarrow>
     unit go \<times> file_system" where
  "ListenAndServe listen serve socketPath fs =
     (let fs' = snd (Remove socketPath fs) in
      (bind_go (wrap_err (''listen unix '' @ socketPath) (listen (Unix socketPath)))
         (\<lambda>_. serve (Unix socketPath)), fs'))"

definition ListenAndServeTCP ::
  "(listen_address \<Rightarrow> unit go) \<Rightarrow> (listen_address \<Rightarrow> unit go) \<Rightarrow> string \<Rightarrow> unit go" where
  "ListenAndServeTCP listen serve addr =
     bind_go (wrap_err (''listen tcp '' @ addr) (listen (Tcp addr))) (\<lambda>_. serve (Tcp addr))"

subsection \<open>The TLS client\<close>

record ('c, 'a) tls_std =
  X509KeyPair :: "bytes \<Rightarrow> bytes \<Rightarrow> 'c go"
  CertsFromPEM :: "bytes \<Rightarrow> 'a list"

record ('c, 'a) http_client =
  client_Certificate :: 'c
  client_RootCAs :: "'a list"

text \<open>\<open>tls.LoadX509KeyPair\<close> reads the two files; a CA file without certificates gives an empty pool.\<close>

definition mtls_NewClient ::
  "('c, 'a) tls_std \<Rightarrow> string \<Rightarrow> string \<Rightarrow> string \<Rightarrow> file_system \<Rightarrow> ('c, 'a) http_client go" where
  "mtls_NewClient T certFile keyFile caFile fs =
     bind_go (wrap_err ''load client cert''
       (bind_go (ReadFile certFile fs) (\<lambda>c. bind_go (ReadFile keyFile fs) (\<lambda>k. X509KeyPair T c k))))
       (\<lambda>cert.
     bind_go (wrap_err ''read ca'' (ReadFile caFile fs)) (\<lambda>caCert.
     Ret \<lparr>client_Certificate = cert, client_RootCAs = CertsFromPEM T caCert\<rparr>))"

subsection \<open>The process\<close>

record proxy_settings =
  ps_socketPath :: string
  ps_tcpAddr :: string
  ps_keyID :: string
  ps_ecdsaKeyPath :: string
  ps_tlsCert :: string
  ps_tlsKey :: string
  ps_tlsCA :: string

definition proxy_globals :: "environment \<Rightarrow> proxy_settings" where
  "proxy_globals env =
     \<lparr>ps_socketPath = proxy_getEnv env ''SOCKET_PATH'' ''/var/run/frost-k8s/signer.sock'',
      ps_tcpAddr = proxy_getEnv env ''TCP_ADDR'' [],
      ps_keyID = proxy_getEnv env ''KEY_ID'' ''frost-k8s-v1'',
      ps_ecdsaKeyPath = proxy_getEnv env ''ECDSA_KEY_PATH'' ''data/ecdsa-signing.pem'',
      ps_tlsCert = proxy_getEnv env ''TLS_CERT'' ''certs/proxy.crt'',
      ps_tlsKey = proxy_getEnv env ''TLS_KEY'' ''certs/proxy.key'',
      ps_tlsCA = proxy_getEnv env ''TLS_CA'' ''certs/ca.crt''\<rparr>"

record ('s, 'e, 'g, 'k, 'r, 'c, 'a) proxy_process =
  pp_env :: "('s, 'e, 'g, 'k, 'r) proxy_env"
  pp_client :: "('c, 'a) http_client"
  pp_pkix :: bytes
  pp_listen :: listen_address

text \<open>
  \<open>main\<close> up to the point where the service exists: any failure prints the error and exits with status 1,
  and nothing is listening then.  The key file may be written on the way.
\<close>

definition proxy_main ::
  "('s, 'e, 'g) frost_lib \<Rightarrow> ('k, 'r) ecdsa_std \<Rightarrow> ('c, 'a) tls_std \<Rightarrow> 'r \<Rightarrow> environment \<Rightarrow> file_system \<Rightarrow>
     ('s, 'e, 'g, 'k, 'r, 'c, 'a) proxy_process go \<times> file_system" where
  "proxy_main F E T rnd env fs =
     (let g = proxy_globals env in
      bind_w (coordinator_config F fs, fs) (\<lambda>cfg fs.
      bind_w (mtls_NewClient T (ps_tlsCert g) (ps_tlsKey g) (ps_tlsCA g) fs, fs) (\<lambda>httpClient fs.
      bind_w (NewECDSAKey E rnd (ps_ecdsaKeyPath g) fs) (\<lambda>ecKey fs.
      bind_w (PublicKeyPKIX E ecKey, fs) (\<lambda>pkix fs.
      (Ret \<lparr>pp_env = \<lparr>px_F = F, px_E = E, px_config = cfg, px_ecKey = ecKey, px_keyID = ps_keyID g,
                       px_addresses = proxy_signerAddresses env\<rparr>,
            pp_client = httpClient, pp_pkix = pkix,
            pp_listen = (if ps_tcpAddr g \<noteq> [] then Tcp (ps_tcpAddr g) else Unix (ps_socketPath g))\<rparr>,
       fs))))))"

text \<open>
  The rest of \<open>main\<close>: over TCP when there is an address for it, otherwise on the Unix socket, in a
  directory that is made if it can be.  An error is status 1 again.  \<open>proxy_run\<close> is all of \<open>main\<close>.
\<close>

definition proxy_serve ::
  "(listen_address \<Rightarrow> unit go) \<Rightarrow> (listen_address \<Rightarrow> unit go) \<Rightarrow>
     ('s, 'e, 'g, 'k, 'r, 'c, 'a) proxy_process \<Rightarrow> file_system \<Rightarrow> unit go \<times> file_system" where
  "proxy_serve listen serve P fs =
     (case pp_listen P of
        Tcp tcpAddr \<Rightarrow> (ListenAndServeTCP listen serve tcpAddr, fs)
      | Unix socketPath \<Rightarrow>
          (let fs = snd (MkdirAll ''/var/run/frost-k8s'' fs)
           in ListenAndServe listen serve socketPath fs))"

definition proxy_run ::
  "('s, 'e, 'g) frost_lib \<Rightarrow> ('k, 'r) ecdsa_std \<Rightarrow> ('c, 'a) tls_std \<Rightarrow> 'r \<Rightarrow> (listen_address \<Rightarrow> unit go) \<Rightarrow>
     (listen_address \<Rightarrow> unit go) \<Rightarrow> environment \<Rightarrow> file_system \<Rightarrow> unit go \<times> file_system" where
  "proxy_run F E T rnd listen serve env fs =
     bind_w (proxy_main F E T rnd env fs) (\<lambda>P fs. proxy_serve listen serve P fs)"

text \<open>The server of a process, during one run.\<close>

definition process_server ::
  "('s, 'e, 'g, 'k, 'r, 'c, 'a) proxy_process \<Rightarrow> 'r run \<Rightarrow> Server" where
  "process_server P R =
     \<lparr>srv_signFn = makeSignFn (pp_env P) R, srv_keyID = px_keyID (pp_env P),
      srv_verificationKeyPKIX = pp_pkix P\<rparr>"

subsection \<open>Laws\<close>

lemma Server_Sign_Ret:
  "Server_Sign s claims = Ret t \<longleftrightarrow> srv_signFn s claims = Ret (pb_Header t, pb_Signature t)"
  by (cases t) (auto simp: Server_Sign_def bind_go_eq_Ret)

lemma Server_Sign_Err:
  "Server_Sign s claims = Err e \<longleftrightarrow> (\<exists>e'. srv_signFn s claims = Err e' \<and> e = Wrap ''threshold sign'' e')"
  by (auto simp: Server_Sign_def bind_go_eq_Err wrap_err_eq_Err split: prod.splits)

lemma makeSignFn_header: "makeSignFn X R claims = Ret (h, sig) \<Longrightarrow> h = jwt_header (px_keyID X)"
  by (auto simp: makeSignFn_Ret)

text \<open>A process that ends without an error has started, and has listened and served on its address.\<close>

lemma proxy_run_Ret:
  assumes "proxy_run F E T rnd listen serve env fs = (Ret (), fs')"
  shows "\<exists>P fs1. proxy_main F E T rnd env fs = (Ret P, fs1) \<and>
    listen (pp_listen P) = Ret () \<and> serve (pp_listen P) = Ret ()"
proof -
  from assms obtain P fs1 where "proxy_main F E T rnd env fs = (Ret P, fs1)"
      and serve: "proxy_serve listen serve P fs1 = (Ret (), fs')"
    by (auto simp: proxy_run_def bind_w_eq_Ret)
  moreover have "listen (pp_listen P) = Ret () \<and> serve (pp_listen P) = Ret ()"
    using serve by (cases "pp_listen P")
      (auto simp: proxy_serve_def bind_go_eq_Ret ListenAndServe_def ListenAndServeTCP_def Let_def)
  ultimately show ?thesis by blast
qed

text \<open>What a started process published is the key it signs with, and that key is on disk.\<close>

lemma proxy_main_Ret:
  assumes "proxy_main F E T rnd env fs = (Ret P, fs')" "ecdsa_lawful E"
  shows "coordinator_config F fs = Ret (px_config (pp_env P))"
    and "MarshalPKIX E (px_ecKey (pp_env P)) = Ret (pp_pkix P)"
    and "load_ecdsa E (ps_ecdsaKeyPath (proxy_globals env)) fs' = Some (px_ecKey (pp_env P))"
    and "px_addresses (pp_env P) = proxy_signerAddresses env"
    and "px_E (pp_env P) = E" and "px_F (pp_env P) = F"
  using assms(1) NewECDSAKey_persists [OF assms(2)]
  by (auto simp: proxy_main_def Let_def bind_w_eq_Ret PublicKeyPKIX_def)

end
