(* ===== verification/Http_Coordinator.thy ===== *)
theory Http_Coordinator
  imports Frost_Wire Coordinator_State Go_Http
begin

text \<open>
  \<open>cmd/coordinator\<close>: the coordinator of the demonstration set-up, a plain HTTP server that asks three
  signers on the local host, one after the other.  The signers are the world \<open>'w\<close>: a call takes a URL
  and a body to an answer and a new world.
\<close>

record ('s, 'e, 'g, 'w) coordinator =
  co_F :: "('s, 'e, 'g) frost_lib"
  co_Config :: "'e Configuration"
  co_Post :: "'w \<Rightarrow> string \<Rightarrow> bytes \<Rightarrow> http_response go \<times> 'w"
  co_Get :: "'w \<Rightarrow> string \<Rightarrow> http_response go \<times> 'w"

definition signerPorts :: "string list" where
  "signerPorts = [''8081'', ''8082'', ''8083'']"

record ThresholdSignResponse =
  tsr_Message :: string
  tsr_Commitments :: "CommitmentResponse list"
  tsr_Signatures :: "SignatureShareResponse list"
  FinalSigHex :: string

definition ThresholdSignResponse_json :: "ThresholdSignResponse \<Rightarrow> json" where
  "ThresholdSignResponse_json r =
     obj [(''message'', JStr (tsr_Message r)),
          (''commitments'', slice_json CommitmentResponse_json (tsr_Commitments r)),
          (''signatures'', slice_json SignatureShareResponse_json (tsr_Signatures r)),
          (''final_signature'', JStr (FinalSigHex r))]"

definition co_healthHandler :: http_outcome where
  "co_healthHandler = text_reply ''coordinator alive''"

definition signerHealthHandler ::
  "('s, 'e, 'g, 'w) coordinator \<Rightarrow> 'w \<Rightarrow> http_outcome \<times> 'w" where
  "signerHealthHandler C w =
     (case co_Get C w ''http://localhost:8081/health'' of
        (Ret resp, w') \<Rightarrow> (text_reply (''Signer Response: '' @ resp_body resp), w')
      | (Err e, w') \<Rightarrow> (http_Error StatusInternalServerError (err_text e), w')
      | (Panic, w') \<Rightarrow> (Aborted, w'))"

definition co_encodeBase64URL :: "bytes \<Rightarrow> string" where
  "co_encodeBase64URL data = b64_RawURL_encode data"

subsection \<open>The two rounds\<close>

definition ask_commitment ::
  "('s, 'e, 'g, 'w) coordinator \<Rightarrow> 'w \<Rightarrow> string \<Rightarrow> CommitmentResponse go \<times> 'w" where
  "ask_commitment C w port =
     bind_w (co_Post C w (''http://localhost:'' @ port @ ''/commit'') [])
       (\<lambda>resp w'. (decode_CommitmentResponse (resp_body resp), w'))"

definition collectCommitments ::
  "('s, 'e, 'g, 'w) coordinator \<Rightarrow> 'w \<Rightarrow> CommitmentCollection go \<times> 'w" where
  "collectCommitments C w =
     bind_w (traverse_w (ask_commitment C) w signerPorts)
       (\<lambda>cs w'. (Ret \<lparr>CollectedCommitments = cs\<rparr>, w'))"

definition ask_share ::
  "('s, 'e, 'g, 'w) coordinator \<Rightarrow> bytes \<Rightarrow> 'w \<Rightarrow> string \<Rightarrow> SignatureShareResponse go \<times> 'w" where
  "ask_share C body w port =
     bind_w (co_Post C w (''http://localhost:'' @ port @ ''/sign'') body)
       (\<lambda>resp w'. (decode_SignatureShareResponse (resp_body resp), w'))"

definition collectSignaturesWithCommitments ::
  "('s, 'e, 'g, 'w) coordinator \<Rightarrow> 'w \<Rightarrow> string \<Rightarrow> CommitmentResponse list \<Rightarrow>
     SignatureCollection go \<times> 'w" where
  "collectSignaturesWithCommitments C w message commitments =
     (let body = json_Marshal (SignRequest_json \<lparr>Message = message, Commitments = commitments\<rparr>) in
      bind_w (traverse_w (ask_share C body) w signerPorts)
        (\<lambda>ss w'. (Ret \<lparr>Signatures = ss\<rparr>, w')))"

definition aggregateThresholdSignature ::
  "('s, 'e, 'g, 'w) coordinator \<Rightarrow> string \<Rightarrow> CommitmentResponse list \<Rightarrow>
     SignatureShareResponse list \<Rightarrow> ('s, 'e) frost_signature go" where
  "aggregateThresholdSignature C message commitments signatures =
     bind_go (decode_commitments (co_F C) commitments) (\<lambda>commitmentList.
     let commitmentList = CommitmentList_Sort (co_F C) commitmentList in
     bind_go (decode_signature_shares (co_F C) signatures) (\<lambda>signatureShares.
     Config_Aggregate (co_F C) (co_Config C) message signatureShares commitmentList True))"

subsection \<open>Handlers\<close>

text \<open>How every handler ends: the JSON of its result, or the error's text with status 500.\<close>

definition answer_with :: "('a \<Rightarrow> json) \<Rightarrow> 'a go \<times> 'w \<Rightarrow> http_outcome \<times> 'w" where
  "answer_with to_json r =
     (case r of
        (Ret x, w) \<Rightarrow> (json_reply (to_json x), w)
      | (Err e, w) \<Rightarrow> (http_Error StatusInternalServerError (err_text e), w)
      | (Panic, w) \<Rightarrow> (Aborted, w))"

definition collectCommitmentHandler ::
  "('s, 'e, 'g, 'w) coordinator \<Rightarrow> 'w \<Rightarrow> http_outcome \<times> 'w" where
  "collectCommitmentHandler C w = answer_with CommitmentCollection_json (collectCommitments C w)"

definition demo_message :: string where
  "demo_message = ''hello-frost-threshold-signing''"

definition collectSignaturesHandler ::
  "('s, 'e, 'g, 'w) coordinator \<Rightarrow> 'w \<Rightarrow> http_outcome \<times> 'w" where
  "collectSignaturesHandler C w =
     answer_with SignatureCollection_json
       (bind_w (collectCommitments C w) (\<lambda>commitments w1.
        collectSignaturesWithCommitments C w1 demo_message (CollectedCommitments commitments)))"

definition thresholdSignHandler ::
  "('s, 'e, 'g, 'w) coordinator \<Rightarrow> 'w \<Rightarrow> http_outcome \<times> 'w" where
  "thresholdSignHandler C w =
     (let message = demo_message in
      answer_with ThresholdSignResponse_json
        (bind_w (collectCommitments C w) (\<lambda>cc w1.
         bind_w (collectSignaturesWithCommitments C w1 message (CollectedCommitments cc)) (\<lambda>sc w2.
         bind_w (aggregateThresholdSignature C message (CollectedCommitments cc) (Signatures sc), w2)
           (\<lambda>finalSignature w3.
              (Ret \<lparr>tsr_Message = message, tsr_Commitments = CollectedCommitments cc,
                    tsr_Signatures = Signatures sc,
                    FinalSigHex = Signature_Hex (co_F C) finalSignature\<rparr>, w3))))))"

definition frost_jwt_header :: string where
  "frost_jwt_header =
     ''{'' @ dquote ''alg'' @ '':'' @ dquote ''FROST-RISTRETTO255-SHA512'' @ '','' @
     dquote ''typ'' @ '':'' @ dquote ''JWT'' @ ''}''"

definition generateThresholdJWT ::
  "('s, 'e, 'g, 'w) coordinator \<Rightarrow> 'w \<Rightarrow> bytes \<Rightarrow> ThresholdJWTResponse go \<times> 'w" where
  "generateThresholdJWT C w payloadJSON =
     (let header = co_encodeBase64URL frost_jwt_header;
          payload = co_encodeBase64URL payloadJSON;
          signingInput = header @ ''.'' @ payload
      in bind_w (collectCommitments C w) (\<lambda>cc w1.
         bind_w (collectSignaturesWithCommitments C w1 signingInput (CollectedCommitments cc)) (\<lambda>sc w2.
         bind_w (aggregateThresholdSignature C signingInput (CollectedCommitments cc) (Signatures sc), w2)
           (\<lambda>finalSignature w3.
              let signature = co_encodeBase64URL (Signature_Hex (co_F C) finalSignature);
                  token = signingInput @ ''.'' @ signature
              in (Ret \<lparr>Header = header, Payload = payload, SigningInput = signingInput,
                       Signature = signature, Token = token\<rparr>, w3)))))"

definition nl_tabs :: "nat \<Rightarrow> string" where
  "nl_tabs n = CHR 0x0A # replicate n (CHR 0x09)"

definition default_claims :: bytes where
  "default_claims =
     ''{'' @ nl_tabs 3 @
     dquote ''iss'' @ '':'' @ dquote ''kubernetes/serviceaccount'' @ '','' @ nl_tabs 3 @
     dquote ''sub'' @ '':'' @ dquote ''system:serviceaccount:default:demo-sa'' @ '','' @ nl_tabs 3 @
     dquote ''aud'' @ '':['' @ dquote ''https://kubernetes.default.svc'' @ ''],'' @ nl_tabs 3 @
     dquote ''namespace'' @ '':'' @ dquote ''default'' @ '','' @ nl_tabs 3 @
     dquote ''serviceaccount'' @ '':'' @ dquote ''demo-sa'' @ nl_tabs 2 @ ''}''"

text \<open>The claims of a request, if it decodes and has some.\<close>

definition request_claims :: "bytes \<Rightarrow> bytes option" where
  "request_claims body =
     (case decode_ThresholdJWTRequest body of
        Ret req \<Rightarrow> if Claims req = [] then None else Some (Claims req)
      | _ \<Rightarrow> None)"

definition thresholdJWTHandler ::
  "('s, 'e, 'g, 'w) coordinator \<Rightarrow> 'w \<Rightarrow> bytes \<Rightarrow> http_outcome \<times> 'w" where
  "thresholdJWTHandler C w body =
     (let claims = (case request_claims body of None \<Rightarrow> default_claims | Some c \<Rightarrow> c)
      in answer_with ThresholdJWTResponse_json (generateThresholdJWT C w claims))"

definition signJWTHandler ::
  "('s, 'e, 'g, 'w) coordinator \<Rightarrow> 'w \<Rightarrow> bytes \<Rightarrow> http_outcome \<times> 'w" where
  "signJWTHandler C w body =
     (case request_claims body of
        None \<Rightarrow> (http_Error StatusBadRequest ''claims are required'', w)
      | Some claims \<Rightarrow>
          answer_with SignJWTResponse_json
            (bind_w (generateThresholdJWT C w claims)
               (\<lambda>tokenResp w'. (Ret \<lparr>JWTToken = Token tokenResp\<rparr>, w'))))"

subsection \<open>The server\<close>

definition coordinator_serve ::
  "('s, 'e, 'g, 'w) coordinator \<Rightarrow> 'w \<Rightarrow> http_request \<Rightarrow> http_outcome \<times> 'w" where
  "coordinator_serve C w r =
     (let path = req_path r in
      if path = ''/health'' then (co_healthHandler, w)
      else if path = ''/signer-health'' then signerHealthHandler C w
      else if path = ''/collect-commitment'' then collectCommitmentHandler C w
      else if path = ''/collect-signatures'' then collectSignaturesHandler C w
      else if path = ''/threshold-sign'' then thresholdSignHandler C w
      else if path = ''/threshold-jwt'' then thresholdJWTHandler C w (req_body r)
      else if path = ''/sign-jwt'' then signJWTHandler C w (req_body r)
      else (not_found, w))"

text \<open>\<open>main\<close>: with a key file that does not load it panics; otherwise it serves with that configuration.\<close>

definition coordinator_main ::
  "('s, 'e, 'g) frost_lib \<Rightarrow> file_system \<Rightarrow> ('w \<Rightarrow> string \<Rightarrow> bytes \<Rightarrow> http_response go \<times> 'w) \<Rightarrow>
     ('w \<Rightarrow> string \<Rightarrow> http_response go \<times> 'w) \<Rightarrow> ('s, 'e, 'g, 'w) coordinator go" where
  "coordinator_main F fs post get =
     (case coordinator_Init F fs None of
        (Ret _, Some cfg) \<Rightarrow> Ret \<lparr>co_F = F, co_Config = cfg, co_Post = post, co_Get = get\<rparr>
      | _ \<Rightarrow> Panic)"

subsection \<open>Laws\<close>

lemma co_collectCommitments_Ret:
  "collectCommitments C w = (Ret cc, w') \<longleftrightarrow>
     traverse_w (ask_commitment C) w signerPorts = (Ret (CollectedCommitments cc), w')"
  by (cases cc) (auto simp: collectCommitments_def bind_w_eq_Ret)

lemma co_collectSignatures_Ret:
  "collectSignaturesWithCommitments C w m cs = (Ret sc, w') \<longleftrightarrow>
     traverse_w (ask_share C (json_Marshal (SignRequest_json \<lparr>Message = m, Commitments = cs\<rparr>)))
       w signerPorts = (Ret (Signatures sc), w')"
  by (cases sc) (auto simp: collectSignaturesWithCommitments_def bind_w_eq_Ret Let_def)

lemma signerPorts_length [simp]: "length signerPorts = 3"
  by (simp add: signerPorts_def)

lemma collected_lengths:
  "collectCommitments C w = (Ret cc, w') \<Longrightarrow> length (CollectedCommitments cc) = 3"
  "collectSignaturesWithCommitments C v m cs = (Ret sc, v') \<Longrightarrow> length (Signatures sc) = 3"
  by (auto simp: co_collectCommitments_Ret co_collectSignatures_Ret dest: traverse_w_length)

lemma generateThresholdJWT_Ret:
  assumes "generateThresholdJWT C w claims = (Ret t, w')"
  obtains cc sc z w1 where
    "collectCommitments C w = (Ret cc, w1)"
    "collectSignaturesWithCommitments C w1 (SigningInput t) (CollectedCommitments cc) = (Ret sc, w')"
    "aggregateThresholdSignature C (SigningInput t) (CollectedCommitments cc) (Signatures sc) = Ret z"
    "Header t = co_encodeBase64URL frost_jwt_header" "Payload t = co_encodeBase64URL claims"
    "SigningInput t = Header t @ ''.'' @ Payload t"
    "Signature t = co_encodeBase64URL (Signature_Hex (co_F C) z)"
    "Token t = SigningInput t @ ''.'' @ Signature t"
  using assms by (auto simp: generateThresholdJWT_def Let_def bind_w_eq_Ret)

end
