(* ===== verification/Step_Systems.thy ===== *)
theory Step_Systems
  imports Prelude
begin

text \<open>
  The contracts of the step relations in this development.  \<open>step_system\<close> is a relation with an
  invariant; \<open>working_system\<close> adds that every step uses up some work and that a state which is not final
  has a step, so that every run can be completed and none is longer than the work it starts with.
\<close>

locale step_system =
  fixes step :: "'s \<Rightarrow> 's \<Rightarrow> bool" and inv :: "'s \<Rightarrow> bool"
  assumes inv_step: "step s t \<Longrightarrow> inv s \<Longrightarrow> inv t"
begin

lemma steps_inv: "step\<^sup>*\<^sup>* s t \<Longrightarrow> inv s \<Longrightarrow> inv t"
  by (induction rule: rtranclp_induct) (auto intro: inv_step)

end

locale working_system = step_system step inv
  for step :: "'s \<Rightarrow> 's \<Rightarrow> bool" and inv :: "'s \<Rightarrow> bool" +
  fixes work :: "'s \<Rightarrow> nat" and final :: "'s \<Rightarrow> bool"
  assumes work_less: "step s t \<Longrightarrow> work t < work s"
    and progress: "inv s \<Longrightarrow> \<not> final s \<Longrightarrow> \<exists>t. step s t"
begin

lemma completes: "inv s \<Longrightarrow> \<exists>t. step\<^sup>*\<^sup>* s t \<and> final t"
proof (induction "work s" arbitrary: s rule: less_induct)
  case less
  show ?case
  proof (cases "final s")
    case False
    then obtain u where u: "step s u" using progress less.prems by blast
    from less.hyps [OF work_less [OF u] inv_step [OF u less.prems]] u show ?thesis
      by (meson converse_rtranclp_into_rtranclp)
  qed blast
qed

lemma run_bounded: "(step ^^ k) s t \<Longrightarrow> k + work t \<le> work s"
proof (induction k arbitrary: t)
  case (Suc k)
  then obtain u where "(step ^^ k) s u" "step u t" by auto
  with Suc.IH work_less [of u t] show ?case by fastforce
qed simp

lemma stuck_final: "step\<^sup>*\<^sup>* s t \<Longrightarrow> inv s \<Longrightarrow> \<nexists>u. step t u \<Longrightarrow> final t"
  using progress steps_inv by blast

end

end
