(* ===== verification/Proxy_Machine.thy ===== *)
theory Proxy_Machine
  imports Go_Chan Step_Systems "HOL-Library.Multiset"
begin

text \<open>
  The concurrency of \<open>collectCommitmentsParallel\<close> and \<open>collectSharesParallel\<close>: \<open>n\<close> goroutines that each
  make one call and send its result on a channel of capacity \<open>n\<close>, and a collector that receives \<open>n\<close>
  results.  \<open>outcome i\<close> is the result of goroutine \<open>i\<close>'s call, \<open>None\<close> if the call never returns.  A
  step is one goroutine returning from its call, sending, or the collector receiving, in any order.
\<close>

datatype wstate = Calling | Sending | Finished

record 'r machine =
  workers :: "nat \<Rightarrow> wstate"
  results :: "(nat \<times> 'r) chan"
  received :: "(nat \<times> 'r) list"

definition start_machine :: "nat \<Rightarrow> 'r machine" where
  "start_machine n = \<lparr>workers = (\<lambda>_. Calling), results = make_chan n, received = []\<rparr>"

inductive machine_step :: "nat \<Rightarrow> (nat \<Rightarrow> 'r option) \<Rightarrow> 'r machine \<Rightarrow> 'r machine \<Rightarrow> bool"
  for n :: nat and outcome :: "nat \<Rightarrow> 'r option" where
  returns: "i < n \<Longrightarrow> workers s i = Calling \<Longrightarrow> outcome i = Some r \<Longrightarrow>
     machine_step n outcome s (s\<lparr>workers := (workers s)(i := Sending)\<rparr>)"
| sends: "i < n \<Longrightarrow> workers s i = Sending \<Longrightarrow> outcome i = Some r \<Longrightarrow>
     chan_send (results s) (i, r) = Some ch \<Longrightarrow>
     machine_step n outcome s (s\<lparr>workers := (workers s)(i := Finished), results := ch\<rparr>)"
| receives: "length (received s) < n \<Longrightarrow> chan_recv (results s) = Some (x, ch) \<Longrightarrow>
     machine_step n outcome s (s\<lparr>results := ch, received := received s @ [x]\<rparr>)"

inductive_cases machine_stepE: "machine_step n outcome s t"

inductive machine_reach :: "nat \<Rightarrow> (nat \<Rightarrow> 'r option) \<Rightarrow> 'r machine \<Rightarrow> bool"
  for n :: nat and outcome :: "nat \<Rightarrow> 'r option" where
  start: "machine_reach n outcome (start_machine n)"
| step: "machine_reach n outcome s \<Longrightarrow> machine_step n outcome s t \<Longrightarrow> machine_reach n outcome t"

definition finished :: "nat \<Rightarrow> 'r machine \<Rightarrow> nat set" where
  "finished n s = {i. i < n \<and> workers s i = Finished}"

text \<open>
  The invariant: every finished goroutine's result, and nothing else, has been received or waits in
  the channel, once.
\<close>

definition machine_inv :: "nat \<Rightarrow> (nat \<Rightarrow> 'r option) \<Rightarrow> 'r machine \<Rightarrow> bool" where
  "machine_inv n outcome s \<longleftrightarrow>
     chan_ok (results s) \<and> chan_cap (results s) = n \<and>
     distinct (map fst (received s @ chan_buf (results s))) \<and>
     fst ` set (received s @ chan_buf (results s)) = finished n s \<and>
     (\<forall>(i, r) \<in> set (received s @ chan_buf (results s)). outcome i = Some r) \<and>
     (\<forall>i < n. workers s i \<noteq> Calling \<longrightarrow> outcome i \<noteq> None)"

lemma machine_inv_start: "machine_inv n outcome (start_machine n)"
  by (simp add: machine_inv_def start_machine_def finished_def)

lemma finished_finite [simp]: "finite (finished n s)"
  by (simp add: finished_def)

lemma finished_card_le: "card (finished n s) \<le> n"
  using card_mono [of "{..<n}" "finished n s"] by (auto simp: finished_def)

lemma machine_inv_count:
  assumes "machine_inv n outcome s"
  shows "length (received s) + length (chan_buf (results s)) = card (finished n s)"
proof -
  let ?xs = "received s @ chan_buf (results s)"
  have "card (set (map fst ?xs)) = length (map fst ?xs)"
    using assms unfolding machine_inv_def by (intro distinct_card) blast
  moreover have "set (map fst ?xs) = finished n s"
    using assms unfolding machine_inv_def set_map by blast
  ultimately show ?thesis by simp
qed

lemma machine_step_inv:
  assumes "machine_step n outcome s t" "machine_inv n outcome s"
  shows "machine_inv n outcome t"
  using assms(1)
proof cases
  case (returns i r)
  with assms(2) show ?thesis by (auto simp: machine_inv_def finished_def)
next
  case (sends i r ch)
  from assms(2) have ok: "chan_ok (results s)" by (simp add: machine_inv_def)
  note ch = ch.send_keeps [OF ok sends(5)]
  have nf: "i \<notin> finished n s" using sends(3) by (simp add: finished_def)
  have fin: "finished n t = insert i (finished n s)"
    using sends(1-3) by (auto simp: finished_def)
  show ?thesis
    using assms(2) ch nf sends(2,4) fin unfolding machine_inv_def sends(1)
    by (auto simp: image_iff)
next
  case (receives x ch)
  from assms(2) have ok: "chan_ok (results s)" by (simp add: machine_inv_def)
  note ch = ch.recv_keeps [OF ok receives(3)]
  show ?thesis
    using assms(2) ch unfolding machine_inv_def receives(1) finished_def by auto
qed

lemma machine_reach_inv: "machine_reach n outcome s \<Longrightarrow> machine_inv n outcome s"
  by (induction rule: machine_reach.induct) (auto intro: machine_inv_start machine_step_inv)

text \<open>A goroutine that has a result can always send it: the buffer has room for everybody.\<close>

lemma send_never_blocks:
  assumes "machine_inv n outcome s" "i < n" "workers s i \<noteq> Finished"
  shows "chan_send (results s) x \<noteq> None"
proof -
  have "finished n s \<subset> {..<n}" using assms(2,3) by (auto simp: finished_def)
  then have "card (finished n s) < card {..<n}" by (intro psubset_card_mono) simp_all
  then have "card (finished n s) < n" by simp
  with machine_inv_count [OF assms(1)] have "length (chan_buf (results s)) < chan_cap (results s)"
    using assms(1) by (simp add: machine_inv_def)
  with assms(1) show ?thesis by (simp add: chan_send_def)
qed

text \<open>No deadlock: while some call can return or some result is not received, a step is possible.\<close>

lemma machine_progress:
  assumes "machine_inv n outcome s" "\<forall>i < n. outcome i \<noteq> None" "length (received s) < n"
  shows "\<exists>t. machine_step n outcome s t"
proof (cases "finished n s = {..<n}")
  case True
  then have "card (finished n s) = n" by simp
  with machine_inv_count [OF assms(1)] assms(3) have "length (chan_buf (results s)) \<noteq> 0"
    by linarith
  then obtain x xs where "chan_buf (results s) = x # xs" by (cases "chan_buf (results s)") auto
  then have "chan_recv (results s) = Some (x, (results s)\<lparr>chan_buf := xs\<rparr>)"
    by (simp add: chan_recv_def)
  from machine_step.receives [OF assms(3) this] show ?thesis by (rule exI)
next
  case False
  then obtain i where i: "i < n" "workers s i \<noteq> Finished" by (auto simp: finished_def)
  with assms(2) obtain r where r: "outcome i = Some r" by blast
  show ?thesis
  proof (cases "workers s i")
    case Calling
    with i r show ?thesis using machine_step.returns by fast
  next
    case Sending
    from send_never_blocks [OF assms(1) i] obtain ch where "chan_send (results s) (i, r) = Some ch"
      by fast
    with i r Sending show ?thesis using machine_step.sends by fast
  next
    case Finished
    with i show ?thesis by simp
  qed
qed

text \<open>Every step makes the amount of work left smaller, so every run ends.\<close>

definition wstate_work :: "wstate \<Rightarrow> nat" where
  "wstate_work w = (case w of Calling \<Rightarrow> 3 | Sending \<Rightarrow> 2 | Finished \<Rightarrow> 0)"

definition machine_work :: "nat \<Rightarrow> 'r machine \<Rightarrow> nat" where
  "machine_work n s = (\<Sum>i<n. wstate_work (workers s i)) + length (chan_buf (results s))"

lemma sum_fun_upd:
  fixes f :: "'a \<Rightarrow> nat" and i n :: nat
  shows "i < n \<Longrightarrow> (\<Sum>j<n. f ((w(i := v)) j)) + f (w i) = (\<Sum>j<n. f (w j)) + f v"
proof -
  assume i: "i < n"
  have "(\<Sum>j<n. f ((w(i := v)) j)) = f v + (\<Sum>j \<in> {..<n} - {i}. f (w j))"
    using i by (subst sum.remove [of _ i]) auto
  moreover have "(\<Sum>j<n. f (w j)) = f (w i) + (\<Sum>j \<in> {..<n} - {i}. f (w j))"
    using i by (subst sum.remove [of _ i]) auto
  ultimately show ?thesis by simp
qed

lemma machine_step_work: "machine_step n outcome s t \<Longrightarrow> machine_work n t < machine_work n s"
proof (erule machine_stepE)
  fix i r
  assume "t = s\<lparr>workers := (workers s)(i := Sending)\<rparr>" "i < n" "workers s i = Calling"
  then show ?thesis
    using sum_fun_upd [of i n wstate_work "workers s" Sending]
    by (simp add: machine_work_def wstate_work_def)
next
  fix i r ch
  assume "t = s\<lparr>workers := (workers s)(i := Finished), results := ch\<rparr>" "i < n"
    "workers s i = Sending" "chan_send (results s) (i, r) = Some ch"
  then show ?thesis
    using sum_fun_upd [of i n wstate_work "workers s" Finished]
    by (auto simp: machine_work_def wstate_work_def chan_send_def split: if_splits)
next
  fix x ch
  assume "t = s\<lparr>results := ch, received := received s @ [x]\<rparr>" "chan_recv (results s) = Some (x, ch)"
  then show ?thesis
    by (auto simp: machine_work_def chan_recv_def split: list.splits)
qed

interpretation collection: working_system "machine_step n outcome"
    "\<lambda>s. machine_inv n outcome s \<and> (\<forall>i < n. outcome i \<noteq> None)" "machine_work n" "\<lambda>s. n \<le> length (received s)"
  for n outcome
  by unfold_locales (use machine_step_inv machine_step_work machine_progress in \<open>auto simp: not_le\<close>)

text \<open>
  When the collector is done, all goroutines are (none is left behind), and what it received is every
  goroutine's result, once, in some order.
\<close>

lemma machine_done:
  assumes "machine_inv n outcome s" "n \<le> length (received s)"
  shows "finished n s = {..<n}" and "chan_buf (results s) = []"
    and "distinct (map fst (received s))" and "set (map fst (received s)) = {0..<n}"
    and "\<forall>(i, r) \<in> set (received s). outcome i = Some r"
proof -
  have c: "card (finished n s) = n" and "length (chan_buf (results s)) = 0"
    using machine_inv_count [OF assms(1)] finished_card_le [of n s] assms(2) by linarith+
  then have b: "chan_buf (results s) = []" by simp
  have sub: "finished n s \<subseteq> {..<n}" by (auto simp: finished_def)
  show f: "finished n s = {..<n}" using card_subset_eq [OF _ sub] c by simp
  show "chan_buf (results s) = []" by (rule b)
  show "distinct (map fst (received s))" "\<forall>(i, r) \<in> set (received s). outcome i = Some r"
    using assms(1) b by (auto simp: machine_inv_def)
  show "set (map fst (received s)) = {0..<n}"
    using assms(1) b f unfolding machine_inv_def set_map by (simp add: atLeast0LessThan)
qed

text \<open>
  A call that never returns keeps the collector waiting for ever: while another goroutine's result is
  not received there is a step, and when all of them are, the collector still waits for this one.
\<close>

lemma machine_hangs:
  assumes "machine_inv n outcome s" "i < n" "outcome i = None"
  shows "length (received s) < n"
proof (rule ccontr)
  assume "\<not> length (received s) < n"
  then have "i \<in> finished n s" using machine_done(1) [OF assms(1)] assms(2) by simp
  then have "workers s i \<noteq> Calling" by (simp add: finished_def)
  with assms show False by (auto simp: machine_inv_def)
qed

lemma hanging_progress:
  assumes "machine_inv n outcome s" "i < n" "outcome i = None" "\<forall>j < n. j \<noteq> i \<longrightarrow> outcome j \<noteq> None"
    and "\<not> {..<n} - {i} \<subseteq> fst ` set (received s)"
  shows "\<exists>t. machine_step n outcome s t"
proof -
  obtain j where j: "j < n" "j \<noteq> i" "j \<notin> fst ` set (received s)" using assms(5) by auto
  with assms(4) obtain r where r: "outcome j = Some r" by blast
  show ?thesis
  proof (cases "workers s j")
    case Calling
    with j r show ?thesis using machine_step.returns by fast
  next
    case Sending
    then have "workers s j \<noteq> Finished" by simp
    from send_never_blocks [OF assms(1) j(1) this] obtain ch where "chan_send (results s) (j, r) = Some ch"
      by fast
    with j r Sending show ?thesis using machine_step.sends by fast
  next
    case Finished
    then have "j \<in> fst ` set (received s @ chan_buf (results s))"
      using assms(1) j(1) by (simp add: machine_inv_def finished_def)
    with j(3) obtain x xs where "chan_buf (results s) = x # xs" by (cases "chan_buf (results s)") auto
    then have "chan_recv (results s) = Some (x, (results s)\<lparr>chan_buf := xs\<rparr>)"
      by (simp add: chan_recv_def)
    from machine_step.receives [OF machine_hangs [OF assms(1-3)] this] show ?thesis by (rule exI)
  qed
qed

interpretation hanging: working_system "machine_step n outcome"
    "\<lambda>s. machine_inv n outcome s \<and> i < n \<and> outcome i = None \<and> (\<forall>j < n. j \<noteq> i \<longrightarrow> outcome j \<noteq> None)"
    "machine_work n" "\<lambda>s. {..<n} - {i} \<subseteq> fst ` set (received s)"
  for n outcome i
  by unfold_locales (blast intro: machine_step_inv machine_step_work hanging_progress)+

lemma machine_received_names:
  assumes "machine_inv n outcome s" "i < n" "outcome i = None" "{..<n} - {i} \<subseteq> fst ` set (received s)"
  shows "set (map fst (received s)) = {..<n} - {i}" "distinct (map fst (received s))"
    "\<forall>(j, r) \<in> set (received s). outcome j = Some r" "chan_buf (results s) = []"
    "\<nexists>t. machine_step n outcome s t"
proof -
  have fin: "finished n s \<subseteq> {..<n} - {i}"
    using assms(1-3) by (auto simp: machine_inv_def finished_def)
  moreover have sub: "set (map fst (received s)) \<subseteq> finished n s" using assms(1) by (auto simp: machine_inv_def)
  ultimately show names: "set (map fst (received s)) = {..<n} - {i}" using assms(4) by auto
  then have all: "finished n s = {..<n} - {i}" using fin sub by blast
  show dist: "distinct (map fst (received s))" and "\<forall>(j, r) \<in> set (received s). outcome j = Some r"
    using assms(1) by (auto simp: machine_inv_def)
  have "length (received s) = card (finished n s)"
    using distinct_card [OF dist] unfolding names all by simp
  then show buf: "chan_buf (results s) = []" using machine_inv_count [OF assms(1)] by simp
  have "workers s j = Finished" if "j < n" "j \<noteq> i" for j using all that by (auto simp: finished_def)
  moreover have "workers s i = Calling" using assms(1-3) by (auto simp: machine_inv_def)
  ultimately show "\<nexists>t. machine_step n outcome s t"
    using assms(3) buf by (auto elim!: machine_stepE simp: chan_recv_def) (metis wstate.distinct option.distinct(1))+
qed

end
