(* ===== verification/Deployment.thy ===== *)
theory Deployment
  imports Dkg_Coordinator Grpc_Server Http_Coordinator Proxy_Machine
begin

text \<open>
  The programs together: signers at their addresses, called by URL.  A \<open>site\<close> is a signer's address
  and environment, the world is the list of the signers' states, and \<open>reach\<close> sends a request to the
  signer its URL names, if that one is up.  The laws say what the proxy gets from real signers.
\<close>

record ('s, 'e, 'g) site =
  site_addr :: string
  site_env :: "('s, 'e, 'g) signer_env"

subsection \<open>URLs\<close>

text \<open>Scheme and host of a URL, and its path from the third slash on.\<close>

fun split_slash :: "nat \<Rightarrow> string \<Rightarrow> string \<times> string" where
  "split_slash n [] = ([], [])"
| "split_slash n (c # cs) =
     (if c = CHR ''/'' \<and> n = 0 then ([], c # cs)
      else (let (a, p) = split_slash (if c = CHR ''/'' then n - 1 else n) cs in (c # a, p)))"

definition url_addr :: "string \<Rightarrow> string" where "url_addr url = fst (split_slash 2 url)"
definition url_path :: "string \<Rightarrow> string" where "url_path url = snd (split_slash 2 url)"

definition addr_ok :: "string \<Rightarrow> bool" where
  "addr_ok a = (count_list a (CHR ''/'') = 2)"

lemma split_slash_append:
  "count_list a (CHR ''/'') = n \<Longrightarrow> split_slash n (a @ CHR ''/'' # p) = (a, CHR ''/'' # p)"
  by (induction a arbitrary: n) (auto split: if_splits)

lemma url_parts:
  "addr_ok a \<Longrightarrow> url_addr (a @ CHR ''/'' # p) = a" "addr_ok a \<Longrightarrow> url_path (a @ CHR ''/'' # p) = CHR ''/'' # p"
  by (simp_all add: addr_ok_def url_addr_def url_path_def split_slash_append)

fun position :: "'a \<Rightarrow> 'a list \<Rightarrow> nat option" where
  "position x [] = None"
| "position x (y # ys) = (if x = y then Some 0 else map_option Suc (position x ys))"

lemma position_nth: "distinct xs \<Longrightarrow> i < length xs \<Longrightarrow> position (xs ! i) xs = Some i"
proof (induction xs arbitrary: i)
  case Nil
  then show ?case by simp
next
  case (Cons y ys)
  then show ?case by (cases i) auto
qed

subsection \<open>Calls\<close>

definition unreachable :: error where
  "unreachable = Msg ''dial tcp: connection refused''"

definition reach ::
  "nat set \<Rightarrow> ('s::field, 'e::ab_group_add, 'g) site list \<Rightarrow> ('s, 'e, 'g) signer_state list \<Rightarrow>
     string \<Rightarrow> bytes \<Rightarrow> http_response go \<times> ('s, 'e, 'g) signer_state list" where
  "reach up sites ws url body =
     (case position (url_addr url) (map site_addr sites) of
        None \<Rightarrow> (Err unreachable, ws)
      | Some j \<Rightarrow>
          if j \<in> up then
            (let (r, s) = http_Do (signer_serve (site_env (sites ! j))) (ws ! j)
                            \<lparr>req_path = url_path url, req_body = body\<rparr>
             in (r, ws[j := s]))
          else (Err unreachable, ws))"

definition sites_ok :: "('s, 'e, 'g) site list \<Rightarrow> bool" where
  "sites_ok sites \<longleftrightarrow> list_all (\<lambda>t. addr_ok (site_addr t)) sites \<and> distinct (map site_addr sites)"

lemma reach_up:
  assumes "sites_ok sites" "j < length sites" "j \<in> up" "p \<noteq> ''dkg/round2''"
  shows "reach up sites ws (site_addr (sites ! j) @ CHR ''/'' # p) body =
    (let (r, s) = signer_serve (site_env (sites ! j)) (ws ! j)
                    \<lparr>req_path = CHR ''/'' # p, req_body = body\<rparr>
     in (client_view r, ws[j := s]))"
proof -
  have "addr_ok (site_addr (sites ! j))" using assms(1,2) by (simp add: sites_ok_def list_all_length)
  moreover have "position (site_addr (sites ! j)) (map site_addr sites) = Some j"
    using position_nth [of "map site_addr sites" j] assms(1,2) by (simp add: sites_ok_def)
  ultimately show ?thesis using assms(3) assms(4)
      signer_Do [of "\<lparr>req_path = CHR ''/'' # p, req_body = body\<rparr>" "site_env (sites ! j)" "ws ! j"]
    by (simp add: reach_def url_parts split_beta Let_def)
qed

lemma reach_down:
  assumes "sites_ok sites" "j < length sites" "j \<notin> up"
  shows "reach up sites ws (site_addr (sites ! j) @ CHR ''/'' # p) body = (Err unreachable, ws)"
proof -
  have "addr_ok (site_addr (sites ! j))" using assms(1,2) by (simp add: sites_ok_def list_all_length)
  moreover have "position (site_addr (sites ! j)) (map site_addr sites) = Some j"
    using position_nth [of "map site_addr sites" j] assms(1,2) by (simp add: sites_ok_def)
  ultimately show ?thesis using assms(3) by (simp add: reach_def url_parts)
qed

lemma reach_up_commit:
  assumes "sites_ok sites" "j < length sites" "j \<in> up"
  shows "fst (reach up sites ws (site_addr (sites ! j) @ ''/commit'') body) =
    client_view (fst (commitHandler (site_env (sites ! j)) (ws ! j)))"
  using reach_up [OF assms, of "''commit''" ws body]
  by (simp add: signer_serve_def split: prod.splits)

lemma reach_up_sign:
  assumes "sites_ok sites" "j < length sites" "j \<in> up"
  shows "fst (reach up sites ws (site_addr (sites ! j) @ ''/sign'') body) =
    client_view (fst (signHandler (site_env (sites ! j)) (ws ! j) body))"
  using reach_up [OF assms, of "''sign''" ws body]
  by (simp add: signer_serve_def split: prod.splits)

subsection \<open>A signing run against real signers\<close>

text \<open>
  What FROST promises (RFC 9591): signers of the scheme with different identifiers, threshold many or
  more, that commit and then sign the same message under the list of their commitments, make shares
  that aggregate, in any order, also when the shares are checked one by one.  \<open>valid\<close> says which
  signer objects belong to the scheme of \<open>cfg\<close>.
\<close>

definition frost_complete :: "('s, 'e, 'g) frost_lib \<Rightarrow> 'e Configuration \<Rightarrow> ('g \<Rightarrow> bool) \<Rightarrow> bool" where
  "frost_complete F cfg valid \<longleftrightarrow>
     (\<forall>gs m. (\<forall>g \<in> set gs. valid g) \<and> distinct (map (Signer_Identifier F) gs) \<and>
        cfg_Threshold cfg \<le> length gs \<longrightarrow>
        (let L = CommitmentList_Sort F (map (\<lambda>g. fst (Signer_Commit F g)) gs) in
         \<exists>ss. list_all2 (\<lambda>g s. fst (Signer_Sign F (snd (Signer_Commit F g)) m L) = Ret s) gs ss \<and>
              (\<forall>ss'. mset ss' = mset ss \<longrightarrow> is_ret (Config_Aggregate F cfg m ss' L True))))"

text \<open>The signers' states when each signer that is up has served one \<open>/commit\<close>.\<close>

definition after_commits ::
  "nat set \<Rightarrow> ('s, 'e, 'g) site list \<Rightarrow> ('s, 'e, 'g) signer_state list \<Rightarrow>
     ('s, 'e, 'g) signer_state list" where
  "after_commits up sites ws =
     map (\<lambda>j. if j \<in> up then snd (commitHandler (site_env (sites ! j)) (ws ! j)) else ws ! j)
       [0..<length sites]"

definition real_run ::
  "nat set \<Rightarrow> ('s::field, 'e::ab_group_add, 'g) site list \<Rightarrow> ('s, 'e, 'g) signer_state list \<Rightarrow>
     nat list \<Rightarrow> nat list \<Rightarrow> 'r \<Rightarrow> 'r run" where
  "real_run up sites ws order1 order2 rnd =
     \<lparr>commit_calls = (\<lambda>_ url body. fst (reach up sites ws url body)), commit_order = order1,
      sign_calls = (\<lambda>_ url body. fst (reach up sites (after_commits up sites ws) url body)),
      sign_order = order2, rand_read = rnd\<rparr>"

definition commit_of :: "('s, 'e, 'g) frost_lib \<Rightarrow> ('s, 'e, 'g) signer_state \<Rightarrow> 'e frost_Commitment" where
  "commit_of F s = fst (Signer_Commit F (st_Signer s))"

text \<open>The signers use the library \<open>F\<close> under different addresses; \<open>up\<close> are those that answer.\<close>

definition deployment_ok ::
  "('s, 'e, 'g) frost_lib \<Rightarrow> ('s, 'e, 'g) site list \<Rightarrow> nat set \<Rightarrow> bool" where
  "deployment_ok F sites up \<longleftrightarrow>
     sites_ok sites \<and> frost_codecs F \<and> (\<forall>t \<in> set sites. se_F (site_env t) = F) \<and>
     up \<subseteq> {..<length sites}"

lemma deployment_at:
  assumes "deployment_ok F sites up" "j \<in> up"
  shows "sites_ok sites" "frost_codecs F" "j < length sites" "se_F (site_env (sites ! j)) = F"
  using assms by (auto simp: deployment_ok_def)

lemma commit_worker_up:
  assumes "deployment_ok F sites up" "j \<in> up"
  shows "snd (commit_worker (\<lambda>_ url body. fst (reach up sites ws url body)) i (site_addr (sites ! j))) =
    Ret (commitment_message F (commit_of F (ws ! j)))"
proof -
  note d = deployment_at [OF assms]
  obtain c sg where c: "Signer_Commit F (st_Signer (ws ! j)) = (c, sg)" by fastforce
  from commit_answer [of "site_env (sites ! j)" "ws ! j", unfolded d(4), OF d(2) c]
  show ?thesis
    by (auto simp: commit_worker_def reach_up_commit [OF d(1,3) assms(2)] commit_of_def c)
qed

lemma commit_worker_down:
  assumes "deployment_ok F sites up" "j < length sites" "j \<notin> up"
  shows "snd (commit_worker (\<lambda>_ url body. fst (reach up sites ws url body)) i (site_addr (sites ! j))) =
    Err unreachable"
proof -
  have "sites_ok sites" using assms(1) by (simp add: deployment_ok_def)
  from reach_down [OF this assms(2,3), of ws "''commit''" "[]"]
  show ?thesis by (simp add: commit_worker_def)
qed

lemma responsive_real:
  assumes "deployment_ok F sites up"
  shows "responsive (\<lambda>_ url body. fst (reach up sites ws url body)) (map site_addr sites) = up"
proof -
  have "answered (commit_worker (\<lambda>_ url body. fst (reach up sites ws url body)) j (site_addr (sites ! j)))
      \<longleftrightarrow> j \<in> up" if "j < length sites" for j
    using that commit_worker_up [OF assms, of j ws j] commit_worker_down [OF assms, of j ws j]
    by (cases "j \<in> up") (auto simp: answered_def)
  with assms show ?thesis by (auto simp: responsive_def deployment_ok_def)
qed

lemma after_commits_signer:
  assumes "deployment_ok F sites up" "j \<in> up"
  shows "st_Signer (after_commits up sites ws ! j) = snd (Signer_Commit F (st_Signer (ws ! j)))"
  using deployment_at [OF assms] assms(2) by (simp add: after_commits_def commitHandler_signer)

lemma share_worker_up:
  assumes j: "deployment_ok F sites up" "j \<in> up" and m: "valid_utf8 m"
    and sg: "fst (Signer_Sign F (st_Signer (ws ! j)) m (CommitmentList_Sort F cs)) = Ret sh"
  shows "share_worker (\<lambda>_ url body. fst (reach up sites ws url body))
     (json_Marshal (SignRequest_json \<lparr>Message = m, Commitments = map (commitment_message F) cs\<rparr>))
     i (site_addr (sites ! j)) = Ret (share_message F sh)"
proof -
  note d = deployment_at [OF j]
  obtain sg' where "Signer_Sign F (st_Signer (ws ! j)) m (CommitmentList_Sort F cs) = (Ret sh, sg')"
    using sg by (metis prod.collapse)
  from sign_answer [of "site_env (sites ! j)", unfolded d(4), OF d(2) m this]
  show ?thesis by (auto simp: share_worker_def reach_up_sign [OF d(1,3) j(2)])
qed

text \<open>
  The signers \<open>js\<close> can finish a session: they committed in the states \<open>ws\<close>, and in the states \<open>ws2\<close>,
  in which the second round finds them, they sign \<open>m\<close>, with shares that aggregate in every order.
\<close>

definition session_ok ::
  "('s, 'e, 'g) frost_lib \<Rightarrow> 'e Configuration \<Rightarrow> ('s, 'e, 'g) signer_state list \<Rightarrow>
     ('s, 'e, 'g) signer_state list \<Rightarrow> nat list \<Rightarrow> bytes \<Rightarrow> bool" where
  "session_ok F cfg ws ws2 js m \<longleftrightarrow>
     (let L = CommitmentList_Sort F (map (\<lambda>j. commit_of F (ws ! j)) js) in
      \<exists>ss. length ss = length js \<and>
        (\<forall>i < length js. fst (Signer_Sign F (st_Signer (ws2 ! (js ! i))) m L) = Ret (ss ! i)) \<and>
        (\<forall>ss'. mset ss' = mset ss \<longrightarrow> is_ret (Config_Aggregate F cfg m ss' L True)))"

text \<open>A run whose second round finds the signers in the states \<open>ws2\<close>.\<close>

definition later_run ::
  "nat set \<Rightarrow> ('s::field, 'e::ab_group_add, 'g) site list \<Rightarrow> ('s, 'e, 'g) signer_state list \<Rightarrow>
     ('s, 'e, 'g) signer_state list \<Rightarrow> nat list \<Rightarrow> nat list \<Rightarrow> 'r \<Rightarrow> 'r run" where
  "later_run up sites ws ws2 order1 order2 rnd =
     (real_run up sites ws order1 order2 rnd)
       \<lparr>sign_calls := (\<lambda>_ url body. fst (reach up sites ws2 url body))\<rparr>"

lemma real_run_later:
  "real_run up sites ws order1 order2 rnd =
     later_run up sites ws (after_commits up sites ws) order1 order2 rnd"
  by (simp add: later_run_def real_run_def)

lemma later_run_simps [simp]:
  "commit_calls (later_run up sites ws ws2 order1 order2 rnd) = (\<lambda>_ url body. fst (reach up sites ws url body))"
  "commit_order (later_run up sites ws ws2 order1 order2 rnd) = order1"
  "sign_calls (later_run up sites ws ws2 order1 order2 rnd) = (\<lambda>_ url body. fst (reach up sites ws2 url body))"
  "sign_order (later_run up sites ws ws2 order1 order2 rnd) = order2"
  "rand_read (later_run up sites ws ws2 order1 order2 rnd) = rnd"
  by (simp_all add: later_run_def real_run_def)

text \<open>
  A FROST session of the signers \<open>js\<close>, each in its own state: the shares the library gives them, and
  that these aggregate in every order.
\<close>

lemma frost_session:
  assumes complete: "frost_complete F cfg valid"
    and valid: "\<forall>j \<in> set js. valid (st_Signer (ws ! j))"
    and ids: "inj_on (\<lambda>j. Signer_Identifier F (st_Signer (ws ! j))) (set js)"
    and js: "distinct js" "cfg_Threshold cfg \<le> length js"
  obtains ss where "length ss = length js"
    "\<And>i. i < length js \<Longrightarrow> fst (Signer_Sign F (snd (Signer_Commit F (st_Signer (ws ! (js ! i))))) m
        (CommitmentList_Sort F (map (\<lambda>j. commit_of F (ws ! j)) js))) = Ret (ss ! i)"
    "\<And>ss'. mset ss' = mset ss \<Longrightarrow> is_ret (Config_Aggregate F cfg m ss'
        (CommitmentList_Sort F (map (\<lambda>j. commit_of F (ws ! j)) js)) True)"
proof -
  let ?gs = "map (\<lambda>j. st_Signer (ws ! j)) js" and ?cs = "map (\<lambda>j. commit_of F (ws ! j)) js"
  let ?L = "CommitmentList_Sort F ?cs"
  have "distinct (map (Signer_Identifier F) ?gs)" using js(1) ids by (simp add: distinct_map o_def)
  moreover have "\<forall>g \<in> set ?gs. valid g" using valid by auto
  moreover have "cfg_Threshold cfg \<le> length ?gs" using js(2) by simp
  moreover have "map (\<lambda>g. fst (Signer_Commit F g)) ?gs = ?cs" by (simp add: commit_of_def)
  ultimately obtain ss where
    "list_all2 (\<lambda>g s. fst (Signer_Sign F (snd (Signer_Commit F g)) m ?L) = Ret s) ?gs ss"
    "\<forall>ss'. mset ss' = mset ss \<longrightarrow> is_ret (Config_Aggregate F cfg m ss' ?L True)"
    using complete unfolding frost_complete_def Let_def by metis
  then show thesis by (intro that [of ss]) (auto simp: list_all2_conv_all_nth)
qed

lemma mset_in_order:
  assumes "distinct order" "set order = {0..<length ss}"
  shows "mset (map (\<lambda>i. ss ! i) order) = mset ss"
proof -
  have "set order = set [0..<length ss]" using assms(2) by simp
  then have "mset order = mset [0..<length ss]"
    using set_eq_iff_mset_eq_distinct [OF assms(1) distinct_upt] by blast
  then have "mset (map (\<lambda>i. ss ! i) order) = mset (map (\<lambda>i. ss ! i) [0..<length ss])" by simp
  then show ?thesis by (simp only: map_nth)
qed

lemma session_after_commits:
  assumes dep: "deployment_ok F sites up" and complete: "frost_complete F cfg valid"
    and valid: "\<forall>j \<in> up. valid (st_Signer (ws ! j))"
    and ids: "inj_on (\<lambda>j. Signer_Identifier F (st_Signer (ws ! j))) up"
    and js: "set js \<subseteq> up" "distinct js" "cfg_Threshold cfg \<le> length js"
  shows "session_ok F cfg ws (after_commits up sites ws) js m"
proof -
  let ?L = "CommitmentList_Sort F (map (\<lambda>j. commit_of F (ws ! j)) js)"
  have "\<forall>j \<in> set js. valid (st_Signer (ws ! j))" using valid js(1) by blast
  from frost_session [OF complete this inj_on_subset [OF ids js(1)] js(2,3), of m] obtain ss where
    ss: "length ss = length js" "\<And>i. i < length js \<Longrightarrow> fst (Signer_Sign F
        (snd (Signer_Commit F (st_Signer (ws ! (js ! i))))) m ?L) = Ret (ss ! i)"
      "\<And>ss'. mset ss' = mset ss \<Longrightarrow> is_ret (Config_Aggregate F cfg m ss' ?L True)" by metis
  have "st_Signer (after_commits up sites ws ! (js ! i)) = snd (Signer_Commit F (st_Signer (ws ! (js ! i))))"
    if "i < length js" for i
    using that js(1) by (intro after_commits_signer [OF dep]) auto
  with ss show ?thesis unfolding session_ok_def Let_def by (intro exI [of _ ss]) simp
qed

text \<open>
  The three signers \<open>js\<close> the proxy chose make its second round succeed, whatever the order in which
  their shares arrive.
\<close>

lemma rounds_with:
  assumes dep: "deployment_ok F sites up" and session: "session_ok F cfg ws ws2 js m"
    and js: "set js \<subseteq> up"
    and order: "distinct order" "set order = {0..<length js}" and m: "valid_utf8 m"
  shows "\<exists>shares. collectSharesParallel (\<lambda>_ url body. fst (reach up sites ws2 url body)) order m
      (map (\<lambda>j. commitment_message F (commit_of F (ws ! j))) js) (map (\<lambda>j. site_addr (sites ! j)) js) =
        Ret shares \<and>
    is_ret (aggregateSignature F cfg m
      (map (\<lambda>j. commitment_message F (commit_of F (ws ! j))) js) shares)"
proof -
  let ?cs = "map (\<lambda>j. commit_of F (ws ! j)) js"
  have codecs: "frost_codecs F" using dep by (simp add: deployment_ok_def)
  from session obtain ss where
    ss: "length ss = length js" "\<And>i. i < length js \<Longrightarrow> fst (Signer_Sign F
        (st_Signer (ws2 ! (js ! i))) m (CommitmentList_Sort F ?cs)) = Ret (ss ! i)"
    and agg: "\<And>ss'. mset ss' = mset ss \<Longrightarrow>
      is_ret (Config_Aggregate F cfg m ss' (CommitmentList_Sort F ?cs) True)"
    unfolding session_ok_def Let_def by blast
  have worker: "share_worker (\<lambda>_ url body. fst (reach up sites ws2 url body))
     (json_Marshal (SignRequest_json \<lparr>Message = m, Commitments = map (commitment_message F) ?cs\<rparr>))
     i (map (\<lambda>j. site_addr (sites ! j)) js ! i) = Ret (share_message F (ss ! i))" if "i \<in> set order" for i
  proof -
    have i: "i < length js" using that order(2) by simp
    then have up: "js ! i \<in> up" using js by auto
    from share_worker_up [OF dep up m ss(2) [OF i]] i show ?thesis by simp
  qed
  have "collectSharesParallel (\<lambda>_ url body. fst (reach up sites ws2 url body)) order m
      (map (commitment_message F) ?cs) (map (\<lambda>j. site_addr (sites ! j)) js) =
        Ret (map (\<lambda>i. share_message F (ss ! i)) order)"
    unfolding collectSharesParallel_def Let_def by (rule traverse_map_Ret) (rule worker)
  moreover have "is_ret (aggregateSignature F cfg m (map (commitment_message F) ?cs)
      (map (share_message F) (map (\<lambda>i. ss ! i) order)))"
    using agg [OF mset_in_order [OF order(1)]] order(2) ss(1)
    by (simp add: aggregateSignature_def decode_commitment_messages [OF codecs]
        decode_share_messages [OF codecs] Let_def del: map_map)
  ultimately show ?thesis by (simp add: o_def)
qed

text \<open>The commitments of a finished first round are those of the signers it chose.\<close>

lemma commitments_real:
  assumes dep: "deployment_ok F sites up" and js: "set js \<subseteq> up"
    and cs: "list_all2 (\<lambda>i c. snd (commit_worker (\<lambda>_ url body. fst (reach up sites ws url body)) i
      (map site_addr sites ! i)) = Ret c) js cs"
  shows "cs = map (\<lambda>j. commitment_message F (commit_of F (ws ! j))) js"
proof (rule nth_equalityI)
  show len: "length cs = length (map (\<lambda>j. commitment_message F (commit_of F (ws ! j))) js)"
    using cs by (simp add: list_all2_conv_all_nth)
  fix i assume "i < length cs"
  then have i: "i < length js" using len by simp
  then have up: "js ! i \<in> up" using js by auto
  then have "js ! i < length sites" using dep by (auto simp: deployment_ok_def)
  moreover have "snd (commit_worker (\<lambda>_ url body. fst (reach up sites ws url body)) (js ! i)
      (map site_addr sites ! (js ! i))) = Ret (cs ! i)"
    using cs i by (simp only: list_all2_conv_all_nth)
  ultimately have "Ret (cs ! i) = Ret (commitment_message F (commit_of F (ws ! (js ! i))))"
    using commit_worker_up [OF dep up, of ws "js ! i"] by (simp only: nth_map)
  with i show "cs ! i = map (\<lambda>j. commitment_message F (commit_of F (ws ! j))) js ! i" by simp
qed

text \<open>
  End to end: with three signers up, a valid run ends in a token; with fewer it ends in the error that
  counts them.
\<close>

lemma makeSignFn_later:
  assumes dep: "deployment_ok F sites up"
    and X: "px_F X = F" "px_addresses X = map site_addr sites"
    and run: "valid_run (length sites) (later_run up sites ws ws2 order1 order2 rnd)"
    and claims: "ascii claims"
    and session: "\<And>js. length js = threshold \<Longrightarrow> distinct js \<Longrightarrow> set js \<subseteq> up \<Longrightarrow>
      session_ok F (px_config X) ws ws2 js (jwt_header (px_keyID X) @ ''.'' @ claims)"
    and key: "SignES256 (px_E X) rnd (px_ecKey X) (jwt_header (px_keyID X) @ ''.'' @ claims) = Ret sig"
  shows "makeSignFn X (later_run up sites ws ws2 order1 order2 rnd) claims =
    (if threshold \<le> card up then Ret (jwt_header (px_keyID X), sig) else Err (not_enough (card up)))"
proof (cases "threshold \<le> card up")
  case False
  let ?post = "\<lambda>(_::nat) url body. fst (reach up sites ws url body)"
  have "collectCommitmentsParallel ?post order1 (map site_addr sites) =
      Err (not_enough (card (responsive ?post (map site_addr sites))))"
    by (rule collectCommitments_Err)
       (use False run responsive_real [OF dep] in \<open>simp_all add: valid_run_def\<close>)
  then show ?thesis
    using False by (simp add: makeSignFn_def X responsive_real [OF dep] Let_def)
next
  case True
  let ?post = "\<lambda>(_::nat) url body. fst (reach up sites ws url body)"
  let ?m = "jwt_header (px_keyID X) @ ''.'' @ claims"
  have m: "valid_utf8 ?m"
    using claims b64_encode_ascii by (intro ascii_valid_utf8) (auto simp: ascii_def jwt_header_def encodeBase64URL_def)
  have order: "distinct order1" "set order1 = {0..<length (map site_addr sites)}"
      "distinct order2" "set order2 = {0..<threshold}"
    using run by (simp_all add: valid_run_def)
  have "is_ret (collectCommitmentsParallel ?post order1 (map site_addr sites))"
    using True by (simp only: collectCommitments_ret [OF order(1,2)] responsive_real [OF dep])
  then obtain cs act where col: "collectCommitmentsParallel ?post order1 (map site_addr sites) = Ret (cs, act)"
    by (auto simp: is_ret_iff)
  from collectCommitments_Ret [OF col order(1,2)] obtain js where
    js: "length js = threshold" "distinct js" "set js \<subseteq> up" "act = map (\<lambda>i. map site_addr sites ! i) js"
      "list_all2 (\<lambda>i c. snd (commit_worker ?post i (map site_addr sites ! i)) = Ret c) js cs"
    unfolding responsive_real [OF dep] by blast
  have "map site_addr sites ! j = site_addr (sites ! j)" if "j \<in> set js" for j
    using that js(3) dep by (auto simp: deployment_ok_def)
  then have act: "act = map (\<lambda>j. site_addr (sites ! j)) js" by (simp add: js(4))
  note cs = commitments_real [OF dep js(3,5)]
  have "set order2 = {0..<length js}" using order(4) js(1) by simp
  from rounds_with [OF dep session [OF js(1-3)] js(3) order(3) this m] obtain shares z
    where "collectSharesParallel (\<lambda>_ url body. fst (reach up sites ws2 url body)) order2 ?m cs act = Ret shares"
      "aggregateSignature F (px_config X) ?m cs shares = Ret z"
    unfolding cs act is_ret_iff by auto
  with col key True show ?thesis by (simp add: makeSignFn_def X Let_def)
qed

lemma makeSignFn_real:
  assumes dep: "deployment_ok F sites up" and complete: "frost_complete F (px_config X) valid"
    and X: "px_F X = F" "px_addresses X = map site_addr sites" "cfg_Threshold (px_config X) = threshold"
    and valid: "\<forall>j \<in> up. valid (st_Signer (ws ! j))"
    and ids: "inj_on (\<lambda>j. Signer_Identifier F (st_Signer (ws ! j))) up"
    and run: "valid_run (length sites) (real_run up sites ws order1 order2 rnd)"
    and claims: "ascii claims"
    and key: "SignES256 (px_E X) rnd (px_ecKey X) (jwt_header (px_keyID X) @ ''.'' @ claims) = Ret sig"
  shows "makeSignFn X (real_run up sites ws order1 order2 rnd) claims =
    (if threshold \<le> card up then Ret (jwt_header (px_keyID X), sig) else Err (not_enough (card up)))"
  using run claims key X(3) session_after_commits [OF dep complete valid ids]
  unfolding real_run_later by (intro makeSignFn_later [OF dep X(1,2)]) auto

end
