(* ===== verification/Ceremony.thy ===== *)
theory Ceremony
  imports Deployment
begin

text \<open>
  A whole key generation against real signers: what the coordinator holds when it has collected the
  shares, what each signer then computes, and what all of it changes.
\<close>

definition real_client :: "('s::field, 'e::ab_group_add, 'g) site list \<Rightarrow>
    ('s, 'e, 'g) signer_state list dkg_client" where
  "real_client sites =
     \<lparr>dc_Get = (\<lambda>ws url. reach {..<length sites} sites ws url []),
      dc_Post = (\<lambda>ws url body. reach {..<length sites} sites ws url body)\<rparr>"

text \<open>Signer number \<open>i\<close> (from 0) runs with \<open>SIGNER_ID = i + 1\<close>, on one group.\<close>

definition ceremony_ok ::
  "('s::field, 'e::ab_group_add) dkg_group \<Rightarrow> ('s, 'e, 'g) site list \<Rightarrow>
     ('s, 'e, 'g) signer_state list \<Rightarrow> bool" where
  "ceremony_ok G sites ws \<longleftrightarrow>
     sites_ok sites \<and> length ws = length sites \<and> length sites < 2 ^ 16 \<and> dkg_lawful G \<and>
     (\<forall>i < length sites. se_G (site_env (sites ! i)) = G \<and>
        dkg_id (se_env (site_env (sites ! i))) = target_id i)"

subsection \<open>One call to one signer\<close>

lemma target_id_unat: "i + 1 < 2 ^ 16 \<Longrightarrow> unat (target_id i) = i + 1"
  unfolding target_id_def by (simp only: unat_of_nat) (simp add: take_bit_nat_eq_self)

lemma target_id_inj: "inj_on target_id {..<n}" if "n < 2 ^ 16"
proof (rule inj_onI)
  fix i j assume ij: "i \<in> {..<n}" "j \<in> {..<n}" "target_id i = target_id j"
  have "i + 1 < 2 ^ 16" "j + 1 < 2 ^ 16" using ij(1,2) that by simp_all
  then have "i + 1 = j + 1" using ij(3) target_id_unat by metis
  then show "i = j" by simp
qed

lemma reach_path:
  assumes "ceremony_ok G sites ws" "i < length sites" "path = CHR ''/'' # p" "p \<noteq> ''dkg/round2''"
  shows "reach {..<length sites} sites vs (site_addr (sites ! i) @ path) body =
    (let (r, s) = signer_serve (site_env (sites ! i)) (vs ! i) \<lparr>req_path = path, req_body = body\<rparr>
     in (client_view r, vs[i := s]))"
  using reach_up [of sites i "{..<length sites}" p vs body] assms by (simp add: ceremony_ok_def)

lemma serve_dkg:
  "signer_serve E s \<lparr>req_path = ''/dkg/round1'', req_body = b\<rparr> = dkgRound1Handler E s"
  "signer_serve E s \<lparr>req_path = ''/dkg/commitments'', req_body = b\<rparr> = dkgCommitmentsHandler s b"
  "signer_serve E s \<lparr>req_path = ''/dkg/finalize'', req_body = b\<rparr> = (dkgFinalizeHandler E s b, s)"
  "signer_serve E s \<lparr>req_path = round2_path k, req_body = b\<rparr> = (dkgRound2Handler E s (round2_path k), s)"
  by (simp_all add: signer_serve_def strip_prefix_def round2_path_def)

text \<open>A loop over the signers in which the step for a signer changes that signer only.\<close>

lemma traverse_sites_from:
  assumes "\<And>vs i. i < n \<Longrightarrow> length vs = n \<Longrightarrow> vs ! i = ws ! i \<Longrightarrow>
      f vs (i, addrs ! i) = (Ret (h i), vs[i := g i])"
    and "length vs = n" "k \<le> n" "\<forall>i. k \<le> i \<and> i < n \<longrightarrow> vs ! i = ws ! i"
  shows "traverse_w f vs (map (\<lambda>i. (i, addrs ! i)) [k..<n]) =
    (Ret (map h [k..<n]), map (\<lambda>i. if i < k then vs ! i else g i) [0..<n])"
  using assms(2-4)
proof (induction "n - k" arbitrary: k vs)
  case 0
  then have "k = n" by simp
  moreover have "map (\<lambda>i. if i < n then vs ! i else g i) [0..<n] = map (\<lambda>i. vs ! i) [0..<length vs]"
    using 0 by simp
  ultimately show ?case by (simp add: map_nth del: map_eq_conv)
next
  case (Suc d)
  then have k: "k < n" by simp
  have step: "f vs (k, addrs ! k) = (Ret (h k), vs[k := g k])" using assms(1) Suc.prems k by simp
  have "traverse_w f (vs[k := g k]) (map (\<lambda>i. (i, addrs ! i)) [Suc k..<n]) =
      (Ret (map h [Suc k..<n]),
       map (\<lambda>i. if i < Suc k then vs[k := g k] ! i else g i) [0..<n])"
    by (rule Suc.hyps(1)) (use Suc k in auto)
  moreover have "map (\<lambda>i. if i < Suc k then vs[k := g k] ! i else g i) [0..<n] =
      map (\<lambda>i. if i < k then vs ! i else g i) [0..<n]"
    using k Suc.prems(1) by (auto simp: nth_list_update less_Suc_eq)
  ultimately show ?case using step k by (simp add: upt_conv_Cons)
qed

lemma enumerate_addrs: "enumerate 0 addrs = map (\<lambda>i. (i, addrs ! i)) [0..<length addrs]"
  by (rule nth_equalityI) (simp_all add: nth_enumerate_eq)

lemma traverse_sites:
  assumes "\<And>vs i. i < length addrs \<Longrightarrow> length vs = length addrs \<Longrightarrow> vs ! i = ws ! i \<Longrightarrow>
      f vs (i, addrs ! i) = (Ret (h i), vs[i := g i])"
    and "length ws = length addrs"
  shows "traverse_w f ws (enumerate 0 addrs) =
    (Ret (map h [0..<length addrs]), map g [0..<length addrs])"
  using traverse_sites_from [of "length addrs" ws f addrs h g ws 0] assms
  by (simp add: enumerate_addrs)

subsection \<open>The phases\<close>

text \<open>Signer \<open>i\<close> keeps the polynomial \<open>f\<close>, of three coefficients, under its own number.\<close>

definition dealer :: "nat \<Rightarrow> 's list \<Rightarrow> ('s, 'e, 'g) signer_state \<Rightarrow> bool" where
  "dealer i f s \<longleftrightarrow> length f = 3 \<and>
     (\<exists>p. dkgParticipant s = Some p \<and> p_ID p = target_id i \<and> p_polynomial p = Some f)"

lemma ask_round1_real:
  assumes "ceremony_ok G sites ws" "i < length sites"
  shows "\<exists>c f. (\<forall>vs. vs ! i = ws ! i \<longrightarrow>
      ask_round1 (real_client sites) vs (i, site_addr (sites ! i)) =
        (Ret c, vs[i := snd (dkgRound1Handler (site_env (sites ! i)) (ws ! i))])) \<and>
    wf_DkgCommitment c \<and> commits_to G c f \<and>
    dealer i f (snd (dkgRound1Handler (site_env (sites ! i)) (ws ! i)))"
proof -
  let ?E = "site_env (sites ! i)"
  have G: "se_G ?E = G" "dkg_lawful G" "dkg_id (se_env ?E) = target_id i"
    using assms by (simp_all add: ceremony_ok_def)
  from round1_answer [of ?E "ws ! i", unfolded G(1), OF G(2)] obtain resp c p f where
    a: "client_view (fst (dkgRound1Handler ?E (ws ! i))) = Ret resp"
      "unmarshal_DkgCommitment (resp_body resp) = Ret c" "wf_DkgCommitment c"
      "dkgParticipant (snd (dkgRound1Handler ?E (ws ! i))) = Some p" "p_polynomial p = Some f"
      "length f = 3" "commits_to G c f" by blast
  have id: "p_ID p = target_id i" using a(4) dkgRound1Handler_state(2) [of ?E "ws ! i"] G(3) by auto
  have "ask_round1 (real_client sites) vs (i, site_addr (sites ! i)) =
      (Ret c, vs[i := snd (dkgRound1Handler ?E (ws ! i))])" if "vs ! i = ws ! i" for vs
    using a(1,2) that reach_path [OF assms, of "''/dkg/round1''" "''dkg/round1''" vs "[]"]
    by (simp add: ask_round1_def getJSON_def real_client_def serve_dkg unmarshal_DkgCommitment_def
        split: prod.splits)
  then show ?thesis using a id unfolding dealer_def by blast
qed

text \<open>What holds of the signers between round 1 and the end.\<close>

definition dealt_state ::
  "('s, 'e) dkg_group \<Rightarrow> ('s, 'e, 'g) signer_state list \<Rightarrow> DkgCommitment list \<Rightarrow> 's list list \<Rightarrow>
     ('s, 'e, 'g) signer_state list \<Rightarrow> bool" where
  "dealt_state G ws cs fs ws' \<longleftrightarrow>
     length cs = length ws \<and> length fs = length ws \<and> length ws' = length ws \<and>
     (\<forall>i < length ws. wf_DkgCommitment (cs ! i) \<and> commits_to G (cs ! i) (fs ! i) \<and>
        dealer i (fs ! i) (ws' ! i) \<and> signing_part (ws' ! i) = signing_part (ws ! i))"

lemma round1_phase:
  assumes "ceremony_ok G sites ws"
  shows "\<exists>cs fs ws1. traverse_w (ask_round1 (real_client sites)) ws (enumerate 0 (map site_addr sites)) =
      (Ret cs, ws1) \<and> dealt_state G ws cs fs ws1"
proof -
  define g where "g i = snd (dkgRound1Handler (site_env (sites ! i)) (ws ! i))" for i
  from ask_round1_real [OF assms] obtain c f where
    cf: "\<And>i vs. i < length sites \<Longrightarrow> vs ! i = ws ! i \<Longrightarrow>
        ask_round1 (real_client sites) vs (i, site_addr (sites ! i)) = (Ret (c i), vs[i := g i])"
      "\<And>i. i < length sites \<Longrightarrow> wf_DkgCommitment (c i) \<and> commits_to G (c i) (f i) \<and> dealer i (f i) (g i)"
    unfolding g_def by metis
  have len: "length ws = length sites" using assms by (simp add: ceremony_ok_def)
  have "traverse_w (ask_round1 (real_client sites)) ws (enumerate 0 (map site_addr sites)) =
      (Ret (map c [0..<length (map site_addr sites)]), map g [0..<length (map site_addr sites)])"
    by (rule traverse_sites) (use cf(1) len in auto)
  moreover have "dealt_state G ws (map c [0..<length sites]) (map f [0..<length sites])
      (map g [0..<length sites])"
    using cf(2) len by (simp add: dealt_state_def g_def dkgRound1Handler_state)
  ultimately show ?thesis by auto
qed

lemma broadcast_real:
  assumes "ceremony_ok G sites ws" "i < length sites" "list_all wf_DkgCommitment cs"
  shows "broadcast (real_client sites) cs vs (i, site_addr (sites ! i)) =
    (Ret None, vs[i := (vs ! i)\<lparr>allCommitments := map Some cs\<rparr>])"
  using reach_path [OF assms(1,2), of "''/dkg/commitments''" "''dkg/commitments''" vs]
    decode_dkg_commitments_Marshal [OF assms(3)]
  by (simp add: broadcast_def postJSON_def real_client_def serve_dkg dkgCommitmentsHandler_def
      client_view_def exit_with_def Let_def)

lemma broadcast_phase:
  assumes "ceremony_ok G sites ws0" "dealt_state G ws0 cs fs ws"
  shows "\<exists>us ws2. traverse_w (broadcast (real_client sites) cs) ws (enumerate 0 (map site_addr sites)) =
      (Ret us, ws2) \<and> dealt_state G ws0 cs fs ws2 \<and>
      (\<forall>i < length sites. allCommitments (ws2 ! i) = map Some cs)"
proof -
  define g where "g i = (ws ! i)\<lparr>allCommitments := map Some cs\<rparr>" for i
  have len: "length ws0 = length sites" "length ws = length sites"
    using assms by (simp_all add: ceremony_ok_def dealt_state_def)
  have wf: "list_all wf_DkgCommitment cs"
    using assms(2) by (auto simp: dealt_state_def list_all_length)
  have "traverse_w (broadcast (real_client sites) cs) ws (enumerate 0 (map site_addr sites)) =
      (Ret (map (\<lambda>_. None) [0..<length (map site_addr sites)]), map g [0..<length (map site_addr sites)])"
    by (rule traverse_sites) (use broadcast_real [OF assms(1) _ wf] len in \<open>auto simp: g_def\<close>)
  moreover have "dealt_state G ws0 cs fs (map g [0..<length sites])"
    using assms(2) len by (simp add: dealt_state_def g_def dealer_def signing_part_def)
  ultimately show ?thesis by (auto simp: g_def)
qed

text \<open>The package of signer \<open>i\<close> for signer \<open>j\<close>: the value of \<open>i\<close>'s polynomial at \<open>j\<close>'s number.\<close>

definition share_ok ::
  "('s::field, 'e) dkg_group \<Rightarrow> nat \<Rightarrow> nat \<Rightarrow> 's list \<Rightarrow> SharePackage \<Rightarrow> bool" where
  "share_ok G i j f pkg \<longleftrightarrow>
     FromID pkg = target_id i \<and> ToID pkg = target_id j \<and> valid_utf8 (PkgShare pkg) \<and>
     open_share G pkg = Ret (poly_value f (of_nat (j + 1)))"

lemma ask_round2_real:
  assumes "ceremony_ok G sites ws0" "dealt_state G ws0 cs fs ws" "i < length sites" "j < length sites"
  shows "\<exists>pkg. share_ok G i j (fs ! i) pkg \<and>
    (\<forall>m. ask_round2 (real_client sites) i (site_addr (sites ! i)) (ws, m) j =
       (Ret (), ws, m(target_id j := m (target_id j) @ [pkg])))"
proof -
  let ?E = "site_env (sites ! i)"
  have G: "se_G ?E = G" "dkg_lawful G" and j: "j + 1 < 2 ^ 16" and len: "length ws0 = length sites"
    using assms by (simp_all add: ceremony_ok_def)
  have "dealer i (fs ! i) (ws ! i)" using assms(2,3) len by (simp add: dealt_state_def)
  then obtain p where p: "dkgParticipant (ws ! i) = Some p" "p_ID p = target_id i"
      "p_polynomial p = Some (fs ! i)" and "length (fs ! i) = 3"
    unfolding dealer_def by auto
  then have ne: "fs ! i \<noteq> []" by auto
  from round2_answer [of ?E, unfolded G(1), OF G(2) p(1,3) ne j] obtain resp pkg where
    a: "client_view (dkgRound2Handler ?E (ws ! i) (round2_path (j + 1))) = Ret resp"
      "unmarshal_SharePackage (resp_body resp) = Ret pkg" "valid_utf8 (PkgShare pkg)"
      "FromID pkg = target_id i" "ToID pkg = target_id j"
      "open_share G pkg = Ret (poly_value (fs ! i) (of_nat (j + 1)))"
    unfolding p(2) target_id_def by blast
  have url: "site_addr (sites ! i) @ ''/dkg/round2/'' @ show_nat (unat (target_id j)) =
      site_addr (sites ! i) @ round2_path (j + 1)"
    by (simp only: target_id_unat [OF j] round2_path_def)
  have path: "round2_path (j + 1) = CHR ''/'' # (''dkg/round2/'' @ show_nat (j + 1))"
    by (simp add: round2_path_def)
  have no_redirect: "''dkg/round2/'' @ show_nat (j + 1) \<noteq> ''dkg/round2''" by simp
  have "reach {..<length sites} sites ws (site_addr (sites ! i) @ round2_path (j + 1)) [] =
      (Ret resp, ws)"
    unfolding reach_path [OF assms(1,3) path no_redirect] serve_dkg Let_def prod.case a(1) by simp
  then have "ask_round2 (real_client sites) i (site_addr (sites ! i)) (ws, m) j =
       (Ret (), ws, m(target_id j := m (target_id j) @ [pkg]))" for m
    unfolding ask_round2_Ret getJSON_def url
    using a(2) by (simp add: real_client_def unmarshal_SharePackage_def)
  then show ?thesis using a(3-6) unfolding share_ok_def by blast
qed

lemma filter_target:
  assumes "n < 2 ^ 16" "j < n"
  shows "filter (\<lambda>k. target_id k = target_id j) [0..<n] = [j]"
proof -
  have "filter (\<lambda>k. target_id k = target_id j) [0..<n] = filter (\<lambda>k. k = j) [0..<n]"
    using target_id_inj [OF assms(1)] assms(2) by (intro filter_cong) (auto dest: inj_onD)
  also have "\<dots> = [j]" using assms(2) by (induction n) (auto simp: less_Suc_eq)
  finally show ?thesis .
qed

lemma deal_real:
  assumes "ceremony_ok G sites ws"
  shows "\<exists>cs fs m ws'. deal (real_client sites) (map site_addr sites) ws = (Ret m, ws') \<and>
    dealt_state G ws cs fs ws' \<and> (\<forall>i < length sites. allCommitments (ws' ! i) = map Some cs) \<and>
    (\<forall>j < length sites. length (m (target_id j)) = length sites \<and>
       (\<forall>i < length sites. share_ok G i j (fs ! i) (m (target_id j) ! i)))"
proof -
  let ?C = "real_client sites" and ?n = "length sites"
  let ?addrs = "map site_addr sites"
  from round1_phase [OF assms] obtain cs fs ws1 where
    r1: "traverse_w (ask_round1 ?C) ws (enumerate 0 ?addrs) = (Ret cs, ws1)" "dealt_state G ws cs fs ws1"
    by blast
  from broadcast_phase [OF assms r1(2)] obtain us ws2 where
    b: "traverse_w (broadcast ?C cs) ws1 (enumerate 0 ?addrs) = (Ret us, ws2)"
      "dealt_state G ws cs fs ws2" "\<forall>i < ?n. allCommitments (ws2 ! i) = map Some cs"
    by blast
  from ask_round2_real [OF assms b(2)] obtain pkg where
    pkg: "\<And>i j. i < ?n \<Longrightarrow> j < ?n \<Longrightarrow> share_ok G i j (fs ! i) (pkg i j)"
      "\<And>i j m. i < ?n \<Longrightarrow> j < ?n \<Longrightarrow> ask_round2 ?C i (site_addr (sites ! i)) (ws2, m) j =
         (Ret (), ws2, m(target_id j := m (target_id j) @ [pkg i j]))"
    by metis
  define row where "row i t = map (pkg i) (filter (\<lambda>j. target_id j = t) [0..<?n])" for i t
  have "round2_row ?C ?n (ws2, m) (i, ?addrs ! i) =
      (Ret (map (\<lambda>_. ()) [0..<?n]), ws2, \<lambda>t. m t @ row i t)" if "i \<in> set [0..<?n]" for m i
  proof -
    have "traverse_w (ask_round2 ?C i (site_addr (sites ! i))) (ws2, m) [0..<?n] =
        (Ret (map (\<lambda>_. ()) [0..<?n]), ws2,
         \<lambda>t. m t @ map (pkg i) (filter (\<lambda>j. target_id j = t) [0..<?n]))"
      by (rule ask_round2_loop) (use that pkg(2) in auto)
    with that show ?thesis by (simp add: round2_row_def row_def)
  qed
  note loop = round2_loop [of "[0..<?n]" ?C ?n ws2 ?addrs, OF this, simplified append_Nil]
  have r2: "traverse_w (round2_row ?C (length ?addrs)) (ws2, \<lambda>_. []) (enumerate 0 ?addrs) =
      (Ret (map (\<lambda>_. map (\<lambda>_. ()) [0..<?n]) [0..<?n]), ws2, \<lambda>t. concat (map (\<lambda>i. row i t) [0..<?n]))"
    using loop [of "\<lambda>_. []"] unfolding enumerate_addrs by simp
  define m where "m t = concat (map (\<lambda>i. row i t) [0..<?n])" for t
  have "m (target_id j) = map (\<lambda>i. pkg i j) [0..<?n]" if "j < ?n" for j
    using filter_target [OF _ that] assms by (simp add: m_def row_def ceremony_ok_def concat_map_singleton)
  moreover have "deal ?C ?addrs ws = (Ret m, ws2)"
    unfolding deal_def Let_def r1(1) b(1) r2 bind_w.simps by (simp add: m_def [abs_def])
  moreover from calculation have "\<forall>j < ?n. length (m (target_id j)) = ?n \<and>
      (\<forall>i < ?n. share_ok G i j (fs ! i) (m (target_id j) ! i))"
    using pkg(1) by simp
  ultimately show ?thesis using b(2,3) by blast
qed

subsection \<open>What the signers compute\<close>

lemma group_key_real:
  assumes "dkg_lawful G" "length cs = length fs"
    and "\<forall>i < length fs. commits_to G (cs ! i) (fs ! i) \<and> length (fs ! i) = 3"
  shows "ComputeGroupPublicKey G (map Some cs) = Ret (base_mul G (dealt fs 0))"
proof -
  have "list_all2 (\<lambda>c v. \<exists>x xs. CoeffCommitments c = x # xs \<and> open_commitment G x = Ret v)
      cs (map (\<lambda>f. base_mul G (poly_value f 0)) fs)"
  proof (rule list_all2_all_nthI)
    show "length cs = length (map (\<lambda>f. base_mul G (poly_value f 0)) fs)" using assms(2) by simp
    fix i assume "i < length cs"
    then have i: "i < length fs" using assms(2) by simp
    with assms(3) have "commits_to G (cs ! i) (fs ! i)" "length (fs ! i) = 3" by blast+
    then show "\<exists>x xs. CoeffCommitments (cs ! i) = x # xs \<and>
        open_commitment G x = Ret (map (\<lambda>f. base_mul G (poly_value f 0)) fs ! i)"
      using i by (cases "fs ! i") (auto simp: commits_to_def list_all2_Cons2)
  qed
  from add_commitments_sum [OF this, of 0] show ?thesis
    by (simp add: ComputeGroupPublicKey_def dealt_def base_mul_sum [OF assms(1)])
qed

text \<open>Its own share is among those a signer is sent, and \<open>Finalize\<close> adds it once more.\<close>

lemma finalize_real:
  assumes "dkg_lawful G" "p_ID p = target_id j" "p_polynomial p = Some (fs ! j)" "length (fs ! j) = 3"
    and "j + 1 < 2 ^ 16" "length pkgs = length fs" "\<forall>i < length fs. share_ok G i j (fs ! i) (pkgs ! i)"
  shows "Finalize G p (map Some pkgs) cs vk =
    (let secret = poly_value (fs ! j) (of_nat (j + 1)) + dealt fs (of_nat (j + 1)) in
     Ret \<lparr>Secret = secret, VerificationKey = vk,
          PubShare = \<lparr>PublicKey = base_mul G secret, PubID = target_id j\<rparr>\<rparr>)"
proof -
  let ?x = "of_nat (j + 1) :: 'a"
  have ne: "fs ! j \<noteq> []" using assms(4) by auto
  have "list_all2 (\<lambda>pkg v. ToID pkg = p_ID p \<and> open_share G pkg = Ret v) pkgs
      (map (\<lambda>f. poly_value f ?x) fs)"
    using assms(2,6,7) by (auto simp: list_all2_conv_all_nth share_ok_def)
  from Finalize_secret [OF assms(1,3) ne this] show ?thesis
    unfolding assms(2) target_id_unat [OF assms(5)] dealt_def .
qed

text \<open>Without its own share among them, the sum is the participant's share of the group's secret.\<close>

lemma sum_list_without:
  fixes g :: "nat \<Rightarrow> 'a::ab_group_add"
  assumes "j < n"
  shows "g j + sum_list (map g (filter (\<lambda>i. i \<noteq> j) [0..<n])) = sum_list (map g [0..<n])"
proof -
  have "sum_list (map g (filter (\<lambda>i. i \<noteq> j) [0..<n])) = sum g ({0..<n} - {j})"
    by (subst sum_list_distinct_conv_sum_set) (auto intro: sum.cong)
  moreover have "sum_list (map g [0..<n]) = sum g {0..<n}"
    by (subst sum_list_distinct_conv_sum_set) auto
  ultimately show ?thesis using assms by (simp add: sum.remove [of "{0..<n}" j])
qed

lemma finalize_others:
  assumes G: "dkg_lawful G" and p: "p_ID p = target_id j" "p_polynomial p = Some (fs ! j)" "length (fs ! j) = 3"
    and j: "j + 1 < 2 ^ 16" "j < n" "length fs = n"
    and shares: "\<forall>i < n. i \<noteq> j \<longrightarrow> share_ok G i j (fs ! i) (pkg i)"
  shows "Finalize G p (map (\<lambda>i. Some (pkg i)) (filter (\<lambda>i. i \<noteq> j) [0..<n])) cs vk =
    Ret \<lparr>Secret = dealt fs (of_nat (j + 1)), VerificationKey = vk,
         PubShare = \<lparr>PublicKey = base_mul G (dealt fs (of_nat (j + 1))), PubID = target_id j\<rparr>\<rparr>"
proof -
  let ?x = "of_nat (j + 1) :: 'a" and ?is = "filter (\<lambda>i. i \<noteq> j) [0..<n]"
  have ne: "fs ! j \<noteq> []" using p(3) by auto
  have "list_all2 (\<lambda>pkg v. ToID pkg = p_ID p \<and> open_share G pkg = Ret v) (map pkg ?is)
      (map (\<lambda>i. poly_value (fs ! i) ?x) ?is)"
    using shares p(1) by (auto simp: list_all2_map1 list_all2_map2 list_all2_same share_ok_def)
  from Finalize_secret [OF G p(2) ne this, of cs vk]
  have "Finalize G p (map Some (map pkg ?is)) cs vk =
    (let secret = poly_value (fs ! j) ?x + sum_list (map (\<lambda>i. poly_value (fs ! i) ?x) ?is) in
     Ret \<lparr>Secret = secret, VerificationKey = vk,
          PubShare = \<lparr>PublicKey = base_mul G secret, PubID = target_id j\<rparr>\<rparr>)"
    unfolding p(1) target_id_unat [OF j(1)] .
  moreover have "poly_value (fs ! j) ?x + sum_list (map (\<lambda>i. poly_value (fs ! i) ?x) ?is) = dealt fs ?x"
  proof -
    have "map (\<lambda>f. poly_value f ?x) fs = map (\<lambda>i. poly_value (fs ! i) ?x) [0..<n]"
      using j(3) by (auto intro: nth_equalityI)
    then show ?thesis unfolding dealt_def sum_list_without [OF j(2), of "\<lambda>i. poly_value (fs ! i) ?x"] by simp
  qed
  ultimately show ?thesis by (simp add: o_def Let_def)
qed

lemma finalize_answer:
  fixes ws :: "('s::field, 'e::ab_group_add, 'g) signer_state list"
  assumes ok: "ceremony_ok G sites ws0" and dealt: "dealt_state G ws0 cs fs ws" and j: "j < length sites"
    and key: "allCommitments (ws ! j) = map Some cs"
    and len: "length pkgs = length sites" and shares: "\<forall>i < length sites. share_ok G i j (fs ! i) (pkgs ! i)"
    and hex: "\<And>k. 16 \<le> length (KeyShare_Hex (se_F (site_env (sites ! j))) k)"
  shows "dkgFinalizeHandler (site_env (sites ! j)) (ws ! j) (json_Marshal (slice_json SharePackage_json pkgs)) =
    json_reply (obj [(''signer'', JStr (show_nat (j + 1))), (''status'', JStr ''ok'')])"
proof -
  have G: "se_G (site_env (sites ! j)) = G" "dkg_lawful G" and j16: "j + 1 < 2 ^ 16"
    and n: "length ws0 = length sites" "length fs = length sites" "length cs = length fs"
    using ok dealt j by (simp_all add: ceremony_ok_def dealt_state_def)
  have d: "dealer j (fs ! j) (ws ! j)" using dealt j n by (simp add: dealt_state_def)
  then obtain p where p: "dkgParticipant (ws ! j) = Some p" "p_ID p = target_id j"
      "p_polynomial p = Some (fs ! j)" "length (fs ! j) = 3"
    unfolding dealer_def by auto
  have "\<forall>i < length fs. commits_to G (cs ! i) (fs ! i) \<and> length (fs ! i) = 3"
    using dealt n by (auto simp: dealt_state_def dealer_def)
  note gk = group_key_real [OF G(2) n(3) this]
  have "\<forall>q \<in> set pkgs. valid_utf8 (PkgShare q)"
    using shares len by (auto simp: share_ok_def in_set_conv_nth)
  note dec = decode_share_packages_Marshal [OF this]
  from finalize_real [OF G(2) p(2-4) j16, of pkgs "map Some cs"] shares len n
  obtain k where k: "Finalize G p (map Some pkgs) (map Some cs) (base_mul G (dealt fs 0)) = Ret k"
    by (auto simp: Let_def)
  show ?thesis
    using hex [of k] by (simp add: dkgFinalizeHandler_def dec key G gk p(1) k p(2) target_id_unat [OF j16] not_less
        del: of_nat_Suc)
qed

text \<open>The ceremony succeeds, and leaves every signer's signing state as it was.\<close>

lemma ceremony_real:
  assumes ok: "ceremony_ok G sites ws"
    and hex: "\<forall>t \<in> set sites. \<forall>k. 16 \<le> length (KeyShare_Hex (se_F (site_env t)) k)"
  shows "\<exists>ws'. ceremony_main (real_client sites) (map site_addr sites) ws = (Ret (), ws') \<and>
    map signing_part ws' = map signing_part ws"
proof -
  let ?n = "length sites"
  from deal_real [OF ok] obtain cs fs m ws' where
    d: "deal (real_client sites) (map site_addr sites) ws = (Ret m, ws')" "dealt_state G ws cs fs ws'"
      "\<forall>i < ?n. allCommitments (ws' ! i) = map Some cs"
      "\<forall>j < ?n. length (m (target_id j)) = ?n \<and> (\<forall>i < ?n. share_ok G i j (fs ! i) (m (target_id j) ! i))"
    by blast
  have len: "length ws' = ?n" "length ws = ?n" using ok d(2) by (simp_all add: ceremony_ok_def dealt_state_def)
  have step: "deliver_shares (real_client sites) m vs (i, site_addr (sites ! i)) =
      (Ret None, vs[i := ws' ! i])" if "i < ?n" "vs ! i = ws' ! i" for vs i
  proof -
    have "dkgFinalizeHandler (site_env (sites ! i)) (ws' ! i)
        (json_Marshal (slice_json SharePackage_json (m (target_id i)))) =
        json_reply (obj [(''signer'', JStr (show_nat (i + 1))), (''status'', JStr ''ok'')])"
      by (rule finalize_answer [OF ok d(2) that(1)]) (use d(3,4) hex that(1) in auto)
    with that show ?thesis
      using reach_path [OF ok that(1), of "''/dkg/finalize''" "''dkg/finalize''" vs]
      by (simp add: deliver_shares_def postJSON_def real_client_def serve_dkg json_reply_body
          exit_with_def Let_def)
  qed
  have "traverse_w (deliver_shares (real_client sites) m) ws' (enumerate 0 (map site_addr sites)) =
      (Ret (map (\<lambda>_. None) [0..<length (map site_addr sites)]),
       map (\<lambda>i. ws' ! i) [0..<length (map site_addr sites)])"
    by (rule traverse_sites) (use step len in auto)
  moreover have "map (\<lambda>i. ws' ! i) [0..<length (map site_addr sites)] = ws'"
    using len map_nth [of ws'] by simp
  moreover have "map signing_part ws' = map signing_part ws"
    using d(2) len by (auto simp: dealt_state_def intro: nth_equalityI)
  ultimately show ?thesis using d(1) by (simp add: ceremony_main_def)
qed

end
