(* ===== verification/Keygen.thy ===== *)
theory Keygen
  imports Coordinator_State
begin

text \<open>
  \<open>cmd/keygen\<close>, which deals the key shares and writes the key file the servers read.  \<open>shard\<close> is the
  outcome of \<open>secretsharing.Shard\<close> for three of five; \<open>panic(err)\<close> makes every error a panic.
\<close>

fun must :: "'a go \<Rightarrow> 'a go" where
  "must (Ret x) = Ret x"
| "must (Err e) = Panic"
| "must Panic = Panic"

definition must_w :: "'a go \<times> 'w \<Rightarrow> 'a go \<times> 'w" where
  "must_w r = (must (fst r), snd r)"

definition new_config :: "('s, 'e, 'g) frost_lib \<Rightarrow> ('s, 'e) KeyShare \<Rightarrow> ('s, 'e) KeyShare list \<Rightarrow>
    'e Configuration" where
  "new_config F first shares =
     \<lparr>cfg_Threshold = 3, cfg_MaxSigners = 5, cfg_VerificationKey = VerificationKey first,
      cfg_SignerPublicKeyShares = map (KeyShare_Public F) shares\<rparr>"

definition keygen_main ::
  "('s, 'e, 'g) frost_lib \<Rightarrow> ('e Configuration \<Rightarrow> string) \<Rightarrow> ('s, 'e) KeyShare list go \<Rightarrow>
     file_system \<Rightarrow> unit go \<times> file_system" where
  "keygen_main F Configuration_Hex shard fs =
     bind_w (must shard, fs) (\<lambda>shares fs.
     bind_w (index shares 0, fs) (\<lambda>first fs.
     bind_w (must (Config_Init F (new_config F first shares)), fs) (\<lambda>config fs.
     let stored = \<lparr>stored_Config = Configuration_Hex config,
                   stored_Shares = map (KeyShare_Hex F) shares\<rparr> in
     bind_w (must_w (Create ''data/frost-keys.json'' fs)) (\<lambda>_ fs.
     must_w (write_file ''data/frost-keys.json'' (json_Encode (StoredKeys_json stored)) fs)))))"

subsection \<open>The key file is read back as it was written\<close>

lemma must_eq_Ret [simp]: "must m = Ret x \<longleftrightarrow> m = Ret x"
  by (cases m) auto

lemma must_w_eq_Ret [simp]: "must_w r = (Ret x, w) \<longleftrightarrow> r = (Ret x, w)"
  by (cases r) (auto simp: must_w_def)

text \<open>The documented behaviour of the share encoding.\<close>

definition share_codec :: "('s, 'e, 'g) frost_lib \<Rightarrow> bool" where
  "share_codec F \<longleftrightarrow> (\<forall>k. KeyShare_DecodeHex F (KeyShare_Hex F k) = Ret k \<and> ascii (KeyShare_Hex F k))"

lemma stored_tags_ascii [simp]: "valid_utf8 ''config''" "valid_utf8 ''shares''"
  by (rule ascii_valid_utf8, simp)+

lemma into_StoredKeys_json: "into_StoredKeys x (StoredKeys_json s) = Some s"
  by (simp add: into_StoredKeys_def StoredKeys_json_def into_obj_simps into_slice_json)

lemma unmarshal_stored_Encode:
  assumes "ascii (stored_Config s)" "list_all ascii (stored_Shares s)"
  shows "unmarshal_stored (json_Encode (StoredKeys_json s)) = Ret s"
proof -
  have "canonical (StoredKeys_json s)"
    using assms
    by (auto simp: StoredKeys_json_def canonical_obj ascii_def list_all_iff
        intro!: canonical_slice_json ascii_valid_utf8)
  moreover have "depth (StoredKeys_json s) \<le> Suc (Suc 0)"
    unfolding StoredKeys_json_def by (intro depth_obj) (auto intro: depth_slice_json)
  ultimately show ?thesis
    unfolding unmarshal_stored_def wrap_err_eq_Ret
    by (intro json_Unmarshal_Encode into_StoredKeys_json) (simp_all add: json_max_depth_def)
qed

lemma decode_shares_Hex: "share_codec F \<Longrightarrow> decode_shares F (map (KeyShare_Hex F) ks) = Ret ks"
  unfolding decode_shares_def by (rule traverse_map_inverse) (simp add: share_codec_def)

lemma keygen_main_Ret:
  assumes "keygen_main F hex shard fs = (Ret u, fs')"
  obtains shares cfg where "shard = Ret shares" "shares \<noteq> []" "config_of F shares = Ret cfg"
    "ReadFile ''data/frost-keys.json'' fs' =
       Ret (json_Encode (StoredKeys_json \<lparr>stored_Config = hex cfg, stored_Shares = map (KeyShare_Hex F) shares\<rparr>))"
    "\<And>p. p \<noteq> ''data/frost-keys.json'' \<Longrightarrow> entries fs' p = entries fs p"
proof -
  let ?path = "''data/frost-keys.json''"
  from assms obtain shares first cfg fs1 where
    s: "shard = Ret shares" "index shares 0 = Ret first" "Config_Init F (new_config F first shares) = Ret cfg"
    and c: "Create ?path fs = (Ret (), fs1)"
    and w: "write_file ?path (json_Encode (StoredKeys_json
       \<lparr>stored_Config = hex cfg, stored_Shares = map (KeyShare_Hex F) shares\<rparr>)) fs1 = (Ret (), fs')"
    by (auto simp: keygen_main_def bind_w_eq_Ret Let_def)
  have WF: "WriteFile ?path (json_Encode (StoredKeys_json
       \<lparr>stored_Config = hex cfg, stored_Shares = map (KeyShare_Hex F) shares\<rparr>)) fs = (Ret (), fs')"
    using c w by (simp add: WriteFile_def)
  have ne: "shares \<noteq> []" "first = hd shares"
    using s(2) by (auto simp: index_def hd_conv_nth split: if_splits)
  have "config_of F shares = Ret cfg"
    using s(3) ne by (simp add: config_of_Ret new_config_def)
  with s(1) ne(1) show thesis
    using that WriteFile_Ret [OF WF] WriteFile_other [OF WF] by blast
qed

lemma keygen_files_differ: "''data/frost-keys.enc'' \<noteq> ''data/frost-keys.json''"
  by simp

lemma keygen_stored_back:
  assumes "share_codec F" "\<And>c. ascii (hex c)"
  shows "unmarshal_stored (json_Encode (StoredKeys_json
       \<lparr>stored_Config = hex cfg, stored_Shares = map (KeyShare_Hex F) shares\<rparr>)) =
    Ret \<lparr>stored_Config = hex cfg, stored_Shares = map (KeyShare_Hex F) shares\<rparr>"
  by (rule unmarshal_stored_Encode) (use assms in \<open>simp_all add: share_codec_def list_all_iff\<close>)

text \<open>A signer that finds only the plain file, with \<open>SIGNER_ID = i\<close>, runs with the \<open>i\<close>-th share.\<close>

lemma prepare_plain:
  assumes "share_codec F" "\<And>c. ascii (hex c)" "env ''VAULT_ADDR'' = []"
    and "entries fs ''data/frost-keys.enc'' = None"
    and "ReadFile ''data/frost-keys.json'' fs = Ret (json_Encode (StoredKeys_json
       \<lparr>stored_Config = hex cfg, stored_Shares = map (KeyShare_Hex F) shares\<rparr>))"
    and "config_of F shares = Ret cfg" "parse_signer_id env = Ret i"
  shows "prepare F A V env fs = Ret (i, shares, cfg)"
  using assms(3-) keygen_stored_back [of F hex cfg shares, OF assms(1,2)] assms(1)
  by (simp add: prepare_def loadKeysData_def load_local_def Stat_ok_def load_plain_def stored_keys_def
      Let_def decode_shares_Hex)

end
