(* ===== verification/Signer_Threads.thy ===== *)
theory Signer_Threads
  imports Signer_Laws Step_Systems
begin

text \<open>
  The requests that a signer of \<open>cmd/signer\<close> serves at the same time, each in a goroutine of its own.
  \<open>/commit\<close> and \<open>/sign\<close> run under \<open>froststate.Mu\<close>, the key-generation handlers under \<open>dkgMu\<close>; a handler
  takes its mutex first, decodes the body (if it has one to decode), works on the globals of that
  mutex, and unlocks when it returns or panics.  A goroutine inside a handler works on the globals as
  it found them on entry, so that nothing but the mutex makes its view current.  The laws say that
  whatever the schedule, the answers and the state are those of the requests served one by one.
\<close>

datatype mutex = SigningMu | DkgMu

definition request_lock :: "http_request \<Rightarrow> mutex option" where
  "request_lock r =
     (let path = req_path r in
      if path = ''/commit'' \<or> path = ''/sign'' then Some SigningMu
      else if path = ''/dkg/round1'' \<or> path = ''/dkg/commitments'' \<or> path = ''/dkg/finalize'' \<or>
        strip_prefix ''/dkg/round2/'' path then Some DkgMu
      else None)"

text \<open>The handlers that read the body while they hold their mutex.\<close>

definition reads_body :: "http_request \<Rightarrow> bool" where
  "reads_body r = (req_path r = ''/sign'' \<or> req_path r = ''/dkg/commitments'' \<or> req_path r = ''/dkg/finalize'')"

text \<open>The globals that a mutex guards, written back into a state.\<close>

definition put_part ::
  "mutex \<Rightarrow> ('s, 'e, 'g) signer_state \<Rightarrow> ('s, 'e, 'g) signer_state \<Rightarrow> ('s, 'e, 'g) signer_state" where
  "put_part m t s =
     (case m of
        SigningMu \<Rightarrow> s\<lparr>st_Signer := st_Signer t, st_Commitments := st_Commitments t\<rparr>
      | DkgMu \<Rightarrow> s\<lparr>dkgParticipant := dkgParticipant t, dkgCommitment := dkgCommitment t,
                   allCommitments := allCommitments t, st_drawn := st_drawn t\<rparr>)"

datatype 'x thread = Waiting | Inside 'x | Done http_outcome

record ('s, 'e, 'g) threads =
  globals :: "('s, 'e, 'g) signer_state"
  holder :: "mutex \<Rightarrow> nat option"
  phase :: "nat \<Rightarrow> ('s, 'e, 'g) signer_state thread"

definition start_threads :: "('s, 'e, 'g) signer_state \<Rightarrow> ('s, 'e, 'g) threads" where
  "start_threads s0 = \<lparr>globals = s0, holder = (\<lambda>_. None), phase = (\<lambda>_. Waiting)\<rparr>"

text \<open>\<open>reqs i\<close> is the request of goroutine \<open>i\<close>; \<open>arrives i\<close> says that its client ever sends all of the body.\<close>

inductive thread_step ::
  "('s::field, 'e::ab_group_add, 'g) signer_env \<Rightarrow> nat \<Rightarrow> (nat \<Rightarrow> http_request) \<Rightarrow> (nat \<Rightarrow> bool) \<Rightarrow>
     ('s, 'e, 'g) threads \<Rightarrow> ('s, 'e, 'g) threads \<Rightarrow> bool"
  for E :: "('s, 'e, 'g) signer_env" and n :: nat and reqs :: "nat \<Rightarrow> http_request"
    and arrives :: "nat \<Rightarrow> bool" where
  unlocked: "i < n \<Longrightarrow> phase s i = Waiting \<Longrightarrow> request_lock (reqs i) = None \<Longrightarrow>
     thread_step E n reqs arrives s
       (s\<lparr>phase := (phase s)(i := Done (fst (signer_serve E (globals s) (reqs i))))\<rparr>)"
| enters: "i < n \<Longrightarrow> phase s i = Waiting \<Longrightarrow> request_lock (reqs i) = Some m \<Longrightarrow> holder s m = None \<Longrightarrow>
     thread_step E n reqs arrives s
       (s\<lparr>holder := (holder s)(m := Some i), phase := (phase s)(i := Inside (globals s))\<rparr>)"
| leaves: "i < n \<Longrightarrow> phase s i = Inside snap \<Longrightarrow> request_lock (reqs i) = Some m \<Longrightarrow>
     (reads_body (reqs i) \<longrightarrow> arrives i) \<Longrightarrow> signer_serve E snap (reqs i) = (r, t) \<Longrightarrow>
     thread_step E n reqs arrives s
       (s\<lparr>globals := put_part m t (globals s), holder := (holder s)(m := None),
          phase := (phase s)(i := Done r)\<rparr>)"

inductive_cases thread_stepE: "thread_step E n reqs arrives s t"

inductive thread_reach ::
  "('s::field, 'e::ab_group_add, 'g) signer_env \<Rightarrow> nat \<Rightarrow> (nat \<Rightarrow> http_request) \<Rightarrow> (nat \<Rightarrow> bool) \<Rightarrow>
     ('s, 'e, 'g) threads \<Rightarrow> ('s, 'e, 'g) threads \<Rightarrow> bool"
  for E :: "('s, 'e, 'g) signer_env" and n :: nat and reqs :: "nat \<Rightarrow> http_request"
    and arrives :: "nat \<Rightarrow> bool" and s0 :: "('s, 'e, 'g) threads" where
  here: "thread_reach E n reqs arrives s0 s0"
| further: "thread_reach E n reqs arrives s0 s \<Longrightarrow> thread_step E n reqs arrives s t \<Longrightarrow>
     thread_reach E n reqs arrives s0 t"

subsection \<open>The sequential signer\<close>

fun serve_all ::
  "('s::field, 'e::ab_group_add, 'g) signer_env \<Rightarrow> ('s, 'e, 'g) signer_state \<Rightarrow> http_request list \<Rightarrow>
     http_outcome list \<times> ('s, 'e, 'g) signer_state" where
  "serve_all E s [] = ([], s)"
| "serve_all E s (r # rs) =
     (let (out, s1) = signer_serve E s r; (outs, s2) = serve_all E s1 rs in (out # outs, s2))"

lemma serve_all_snoc:
  "serve_all E s (rs @ [r]) =
     (let (outs, s1) = serve_all E s rs; (out, s2) = signer_serve E s1 r in (outs @ [out], s2))"
  by (induction rs arbitrary: s) (simp_all split: prod.splits)

lemma serve_all_reach: "signer_reach E s0 s \<Longrightarrow> signer_reach E s0 (snd (serve_all E s rs))"
  by (induction rs arbitrary: s) (auto simp: split_beta intro: signer_reach.serve)

subsection \<open>A handler uses the globals of its own mutex\<close>

definition same_part :: "mutex \<Rightarrow> ('s, 'e, 'g) signer_state \<Rightarrow> ('s, 'e, 'g) signer_state \<Rightarrow> bool" where
  "same_part m s t \<longleftrightarrow> (case m of SigningMu \<Rightarrow> signing_part s = signing_part t | DkgMu \<Rightarrow> dkg_part s = dkg_part t)"

lemmas part_defs = same_part_def put_part_def signing_part_def dkg_part_def

lemma same_part_refl [simp]: "same_part m s s"
  by (cases m) (simp_all add: same_part_def)

lemma put_part_other: "m \<noteq> m' \<Longrightarrow> same_part m' s (put_part m t s)"
  by (cases m; cases m') (simp_all add: part_defs)

lemma signing_on_part:
  assumes "signing_part s = signing_part t"
  shows "commitHandler E t = (fst (commitHandler E s), put_part SigningMu (snd (commitHandler E s)) t)"
    "signHandler E t b = (fst (signHandler E s b), put_part SigningMu (snd (signHandler E s b)) t)"
  using assms
  by (auto simp: commitHandler_def signHandler_def part_defs split: prod.splits go.splits)

lemma dkg_on_part:
  assumes "dkg_part s = dkg_part t"
  shows "dkgRound1Handler E t =
      (fst (dkgRound1Handler E s), put_part DkgMu (snd (dkgRound1Handler E s)) t)"
    "dkgCommitmentsHandler t b =
      (fst (dkgCommitmentsHandler s b), put_part DkgMu (snd (dkgCommitmentsHandler s b)) t)"
    "dkgRound2Handler E t p = dkgRound2Handler E s p"
    "dkgFinalizeHandler E t b = dkgFinalizeHandler E s b"
proof -
  have eq: "dkgParticipant t = dkgParticipant s" "dkgCommitment t = dkgCommitment s"
    "allCommitments t = allCommitments s" "st_drawn t = st_drawn s"
    using assms by (simp_all add: dkg_part_def)
  show "dkgRound1Handler E t =
      (fst (dkgRound1Handler E s), put_part DkgMu (snd (dkgRound1Handler E s)) t)"
    by (simp add: dkgRound1Handler_def put_part_def eq Let_def split: prod.split go.split)
  show "dkgCommitmentsHandler t b =
      (fst (dkgCommitmentsHandler s b), put_part DkgMu (snd (dkgCommitmentsHandler s b)) t)"
    by (simp add: dkgCommitmentsHandler_def put_part_def eq [symmetric] split: go.split)
  show "dkgRound2Handler E t p = dkgRound2Handler E s p"
    "dkgFinalizeHandler E t b = dkgFinalizeHandler E s b"
    unfolding dkgRound2Handler_def dkgFinalizeHandler_def eq by (rule refl)+
qed

lemma put_part_same: "same_part m s t \<Longrightarrow> put_part m s t = t"
  by (cases m) (simp_all add: part_defs)

lemma serve_on_part:
  fixes s :: "('s::field, 'e::ab_group_add, 'g) signer_state"
  assumes "request_lock r = Some m" "same_part m s t"
  shows "signer_serve E t r = (fst (signer_serve E s r), put_part m (snd (signer_serve E s r)) t)"
  using assms signing_on_part [of s t] dkg_on_part [of s t] put_part_same [OF assms(2)]
  by (cases m) (auto simp: request_lock_def signer_serve_def same_part_def Let_def split: if_splits)

lemma serve_unlocked: "request_lock r = None \<Longrightarrow> snd (signer_serve E s r) = s"
  by (auto simp: request_lock_def signer_serve_def Let_def split: if_splits)

subsection \<open>The invariant\<close>

text \<open>
  A goroutine inside a handler holds the handler's mutex and sees its globals as they are now.  The
  requests that are done were served, in some order, by the sequential signer, whose state the globals
  are.
\<close>

definition locks_ok :: "nat \<Rightarrow> (nat \<Rightarrow> http_request) \<Rightarrow> ('s, 'e, 'g) threads \<Rightarrow> bool" where
  "locks_ok n reqs s \<longleftrightarrow>
     (\<forall>i snap. phase s i = Inside snap \<longrightarrow> 
        i < n \<and> request_lock (reqs i) \<noteq> None \<and>
        (\<forall>m. request_lock (reqs i) = Some m \<longrightarrow> holder s m = Some i \<and> same_part m snap (globals s))) \<and>
     (\<forall>m i. holder s m = Some i \<longrightarrow> request_lock (reqs i) = Some m \<and> (\<exists>snap. phase s i = Inside snap))"

definition served_in ::
  "('s::field, 'e::ab_group_add, 'g) signer_env \<Rightarrow> nat \<Rightarrow> (nat \<Rightarrow> http_request) \<Rightarrow>
     ('s, 'e, 'g) signer_state \<Rightarrow> ('s, 'e, 'g) threads \<Rightarrow> nat list \<Rightarrow> bool" where
  "served_in E n reqs s0 s order \<longleftrightarrow>
     distinct order \<and> set order = {i. i < n \<and> (\<exists>r. phase s i = Done r)} \<and>
     snd (serve_all E s0 (map reqs order)) = globals s \<and>
     map (phase s) order = map Done (fst (serve_all E s0 (map reqs order)))"

lemma served_in_snoc:
  assumes "served_in E n reqs s0 s order" "i < n" "\<nexists>r. phase s i = Done r"
    and "signer_serve E (globals s) (reqs i) = (out, g)"
    and "globals t = g" "phase t = (phase s)(i := Done out)"
  shows "served_in E n reqs s0 t (order @ [i])"
proof -
  have new: "i \<notin> set order" using assms(1,3) by (auto simp: served_in_def)
  then have "map (phase t) order = map (phase s) order" using assms(6) by simp
  moreover have "{j. j < n \<and> (\<exists>r. phase t j = Done r)} = insert i {j. j < n \<and> (\<exists>r. phase s j = Done r)}"
    using assms(2,6) by auto
  ultimately show ?thesis
    using assms new by (auto simp: served_in_def serve_all_snoc split_beta)
qed

lemma served_in_frame:
  assumes "served_in E n reqs s0 s order" "globals t = globals s"
    and "\<And>i r. phase t i = Done r \<longleftrightarrow> phase s i = Done r"
  shows "served_in E n reqs s0 t order"
proof -
  have "phase t i = phase s i" if "i \<in> set order" for i
    using assms(1) that assms(3) by (auto simp: served_in_def)
  then have eq: "map (phase t) order = map (phase s) order" by (rule map_cong [OF refl])
  show ?thesis
    using assms(1) unfolding served_in_def eq assms(2,3) .
qed

lemma locks_okD:
  assumes "locks_ok n reqs s"
  shows "phase s i = Inside snap \<Longrightarrow> i < n" "phase s i = Inside snap \<Longrightarrow> request_lock (reqs i) \<noteq> None"
    "phase s i = Inside snap \<Longrightarrow> request_lock (reqs i) = Some m \<Longrightarrow> holder s m = Some i"
    "phase s i = Inside snap \<Longrightarrow> request_lock (reqs i) = Some m \<Longrightarrow> same_part m snap (globals s)"
    "holder s m = Some i \<Longrightarrow> request_lock (reqs i) = Some m"
    "holder s m = Some i \<Longrightarrow> \<exists>snap. phase s i = Inside snap"
  using assms unfolding locks_ok_def by blast+

lemma thread_step_locks:
  assumes "thread_step E n reqs arrives s t" "locks_ok n reqs s"
  shows "locks_ok n reqs t"
  using assms(1)
proof cases
  case (unlocked i)
  then have eq: "phase t j = Inside sn \<longleftrightarrow> phase s j = Inside sn" "holder t = holder s" "globals t = globals s"
    for j sn by auto
  show ?thesis using assms(2) unfolding locks_ok_def eq .
next
  case (enters i m)
  show ?thesis unfolding locks_ok_def
  proof (intro conjI allI impI)
    fix j snap assume j: "phase t j = Inside snap"
    have *: "j = i \<or> j \<noteq> i \<and> phase s j = Inside snap" using j enters(1) by (cases "j = i") auto
    then show "j < n" "request_lock (reqs j) \<noteq> None"
      using locks_okD(1,2) [OF assms(2)] enters by auto
    fix m' assume m': "request_lock (reqs j) = Some m'"
    from * show "holder t m' = Some j" "same_part m' snap (globals t)"
      using locks_okD(3,4) [OF assms(2) _ m'] enters m' j by auto
  next
    fix m' j assume h: "holder t m' = Some j"
    have *: "m' = m \<and> j = i \<or> m' \<noteq> m \<and> holder s m' = Some j"
      using h enters(1) by (cases "m' = m") auto
    then show "request_lock (reqs j) = Some m'" using locks_okD(5) [OF assms(2)] enters by auto
    have "j = i \<or> j \<noteq> i \<and> (\<exists>snap. phase s j = Inside snap)"
      using * locks_okD(6) [OF assms(2)] by blast
    then show "\<exists>snap. phase t j = Inside snap" using enters(1) by auto
  qed
next
  case (leaves i snap m r g)
  have held: "holder s m = Some i" by (rule locks_okD(3) [OF assms(2) leaves(3,4)])
  show ?thesis unfolding locks_ok_def
  proof (intro conjI allI impI)
    fix j sn assume j: "phase t j = Inside sn"
    have *: "j \<noteq> i" "phase s j = Inside sn" using j leaves(1) by (auto split: if_splits)
    then show "j < n" "request_lock (reqs j) \<noteq> None" using locks_okD(1,2) [OF assms(2)] by auto
    fix m' assume m': "request_lock (reqs j) = Some m'"
    note js = locks_okD(3,4) [OF assms(2) *(2) m']
    then have "m' \<noteq> m" using held *(1) by auto
    with js put_part_other [of m m' "globals s" g]
    show "holder t m' = Some j" "same_part m' sn (globals t)"
      using leaves(1) by (cases m'; auto simp: same_part_def)+
  next
    fix m' j assume h: "holder t m' = Some j"
    then have *: "m' \<noteq> m" "holder s m' = Some j" using leaves(1) by (auto split: if_splits)
    then show lock: "request_lock (reqs j) = Some m'" using locks_okD(5) [OF assms(2)] by auto
    then have "j \<noteq> i" using leaves(4) *(1) by auto
    with locks_okD(6) [OF assms(2) *(2)] show "\<exists>snap. phase t j = Inside snap" using leaves(1) by auto
  qed
qed

lemma thread_step_served:
  assumes "thread_step E n reqs arrives s t" "locks_ok n reqs s" "served_in E n reqs s0 s order"
  shows "\<exists>order. served_in E n reqs s0 t order"
  using assms(1)
proof cases
  case (unlocked i)
  then have "signer_serve E (globals s) (reqs i) = (fst (signer_serve E (globals s) (reqs i)), globals s)"
    by (simp add: prod_eq_iff serve_unlocked)
  then have "served_in E n reqs s0 t (order @ [i])"
    by (rule served_in_snoc [OF assms(3) unlocked(2), rotated]) (use unlocked in auto)
  then show ?thesis ..
next
  case (enters i m)
  have "served_in E n reqs s0 t order"
    by (rule served_in_frame [OF assms(3)]) (use enters in auto)
  then show ?thesis ..
next
  case (leaves i snap m r g)
  have "same_part m snap (globals s)" by (rule locks_okD(4) [OF assms(2) leaves(3,4)])
  from serve_on_part [OF leaves(4) this, of E] leaves(6)
  have "signer_serve E (globals s) (reqs i) = (r, put_part m g (globals s))" by simp
  then have "served_in E n reqs s0 t (order @ [i])"
    by (rule served_in_snoc [OF assms(3) leaves(2), rotated]) (use leaves in auto)
  then show ?thesis ..
qed

lemma threads_linearize:
  assumes "thread_reach E n reqs arrives (start_threads s0) s"
  shows "locks_ok n reqs s \<and> (\<exists>order. served_in E n reqs s0 s order)"
  using assms
proof induction
  case here
  have "served_in E n reqs s0 (start_threads s0) []" by (simp add: served_in_def start_threads_def)
  moreover have "locks_ok n reqs (start_threads s0)" by (simp add: locks_ok_def start_threads_def)
  ultimately show ?case by blast
next
  case (further s t)
  then show ?case using thread_step_locks thread_step_served by blast
qed

subsection \<open>Waiting\<close>

text \<open>A client that never sends its body keeps the mutex for ever, and with it everybody else.\<close>

lemma stalled_step:
  assumes "thread_step E n reqs arrives s t" "locks_ok n reqs s"
    and "holder s m = Some i" "reads_body (reqs i)" "\<not> arrives i"
  shows "holder t m = Some i \<and>
    (\<forall>j. request_lock (reqs j) = Some m \<longrightarrow> phase s j = Waiting \<longrightarrow> phase t j = Waiting)"
  using assms(1)
proof cases
  case (unlocked k)
  then show ?thesis using assms(3) by auto
next
  case (enters k m')
  then show ?thesis using assms(3) by auto
next
  case (leaves k snap m' r g)
  have "holder s m' = Some k" by (rule locks_okD(3) [OF assms(2) leaves(3,4)])
  then have "m' \<noteq> m" using assms(3-5) leaves(5) by auto
  then show ?thesis using leaves assms(3) by auto
qed

lemma stalled_reach:
  assumes "thread_reach E n reqs arrives s t" "locks_ok n reqs s"
    and "holder s m = Some i" "reads_body (reqs i)" "\<not> arrives i"
  shows "locks_ok n reqs t \<and> holder t m = Some i \<and>
    (\<forall>j. request_lock (reqs j) = Some m \<longrightarrow> phase s j = Waiting \<longrightarrow> phase t j = Waiting)"
  using assms(1)
proof induction
  case here
  then show ?case using assms by simp
next
  case (further u v)
  then show ?case
    using stalled_step [OF further(2) _ _ assms(4,5)] thread_step_locks [OF further(2)] by blast
qed

text \<open>If every body arrives, some goroutine can move until all are done, and there are two moves in each.\<close>

definition thread_work :: "'x thread \<Rightarrow> nat" where
  "thread_work p = (case p of Waiting \<Rightarrow> 2 | Inside _ \<Rightarrow> 1 | Done _ \<Rightarrow> 0)"

definition threads_work :: "nat \<Rightarrow> ('s, 'e, 'g) threads \<Rightarrow> nat" where
  "threads_work n s = (\<Sum>i<n. thread_work (phase s i))"

lemma threads_work_upd:
  assumes "i < n" "phase t = (phase s)(i := p)" "thread_work p < thread_work (phase s i)"
  shows "threads_work n t < threads_work n s"
proof -
  have "(\<Sum>j<n. thread_work (phase t j)) < (\<Sum>j<n. thread_work (phase s j))"
    by (rule sum_strict_mono_ex1) (use assms in \<open>auto intro!: bexI [of _ i]\<close>)
  then show ?thesis by (simp add: threads_work_def)
qed

lemma thread_step_work: "thread_step E n reqs arrives s t \<Longrightarrow> threads_work n t < threads_work n s"
  by (erule thread_stepE; rule threads_work_upd) (auto simp: thread_work_def)

lemma threads_progress:
  fixes E :: "('s::field, 'e::ab_group_add, 'g) signer_env"
  assumes "locks_ok n reqs s" "\<forall>i < n. reads_body (reqs i) \<longrightarrow> arrives i"
    and "i < n" "\<nexists>r. phase s i = Done r"
  shows "\<exists>t. thread_step E n reqs arrives s t"
proof -
  have inside: "\<exists>t. thread_step E n reqs arrives s t" if j: "phase s j = Inside snap" for j snap
  proof -
    obtain m where m: "request_lock (reqs j) = Some m" using locks_okD(2) [OF assms(1) j] by blast
    have body: "reads_body (reqs j) \<longrightarrow> arrives j" using assms(2) locks_okD(1) [OF assms(1) j] by blast
    obtain r g where "signer_serve E snap (reqs j) = (r, g)" by fastforce
    from thread_step.leaves [where arrives = arrives and reqs = reqs,
        OF locks_okD(1) [OF assms(1) j] j m body this]
    show ?thesis by blast
  qed
  show ?thesis
  proof (cases "phase s i")
    case Waiting
    show ?thesis
    proof (cases "request_lock (reqs i)")
      case None
      from thread_step.unlocked [where reqs = reqs, OF assms(3) Waiting this] show ?thesis by blast
    next
      case (Some m)
      show ?thesis
      proof (cases "holder s m")
        case None
        from thread_step.enters [where reqs = reqs, OF assms(3) Waiting Some None] show ?thesis by blast
      next
        case (Some k)
        then show ?thesis using locks_okD(6) [OF assms(1) Some] inside by blast
      qed
    qed
  qed (use inside assms(4) in auto)
qed

lemma thread_reach_trans:
  assumes "thread_reach E n reqs arrives s t" "thread_reach E n reqs arrives t u"
  shows "thread_reach E n reqs arrives s u"
  using assms(2,1) by induction (auto intro: thread_reach.further)

lemma thread_reach_steps: "thread_reach E n reqs arrives s t \<longleftrightarrow> (thread_step E n reqs arrives)\<^sup>*\<^sup>* s t"
proof
  show "thread_reach E n reqs arrives s t \<Longrightarrow> (thread_step E n reqs arrives)\<^sup>*\<^sup>* s t"
    by (induction rule: thread_reach.induct) auto
  show "(thread_step E n reqs arrives)\<^sup>*\<^sup>* s t \<Longrightarrow> thread_reach E n reqs arrives s t"
    by (induction rule: rtranclp_induct) (auto intro: thread_reach.intros)
qed

interpretation serving: working_system "thread_step E n reqs arrives"
    "\<lambda>s. locks_ok n reqs s \<and> (\<forall>i < n. reads_body (reqs i) \<longrightarrow> arrives i)" "threads_work n"
    "\<lambda>s. \<forall>i < n. \<exists>r. phase s i = Done r"
  for E :: "('s::field, 'e::ab_group_add, 'g) signer_env" and n reqs arrives
proof
  fix s :: "('s, 'e, 'g) threads"
  assume "locks_ok n reqs s \<and> (\<forall>i < n. reads_body (reqs i) \<longrightarrow> arrives i)"
    "\<not> (\<forall>i < n. \<exists>r. phase s i = Done r)"
  then show "\<exists>t. thread_step E n reqs arrives s t" using threads_progress [of n reqs s arrives] by blast
qed (auto intro: thread_step_locks thread_step_work)

subsection \<open>Every order of the requests is a schedule\<close>

text \<open>With the mutexes free, a waiting goroutine can serve its request from beginning to end.\<close>

lemma thread_serves:
  fixes s :: "('s::field, 'e::ab_group_add, 'g) threads"
  assumes "i < n" "phase s i = Waiting" "holder s = (\<lambda>_. None)" "reads_body (reqs i) \<longrightarrow> arrives i"
    and serve: "signer_serve E (globals s) (reqs i) = (r, g)"
  shows "thread_reach E n reqs arrives s (s\<lparr>globals := g, phase := (phase s)(i := Done r)\<rparr>)"
proof (cases "request_lock (reqs i)")
  case None
  then have "g = globals s" using serve_unlocked [OF None, of E "globals s"] serve by simp
  with thread_step.unlocked [where reqs = reqs, OF assms(1,2) None, of E] serve
  show ?thesis using thread_reach.further [OF thread_reach.here] by fastforce
next
  case (Some m)
  let ?s1 = "s\<lparr>holder := (holder s)(m := Some i), phase := (phase s)(i := Inside (globals s))\<rparr>"
  let ?s2 = "?s1\<lparr>globals := put_part m g (globals ?s1), holder := (holder ?s1)(m := None),
    phase := (phase ?s1)(i := Done r)\<rparr>"
  have "thread_step E n reqs arrives s ?s1"
    by (rule thread_step.enters) (use assms(1-3) Some in simp_all)
  moreover have "thread_step E n reqs arrives ?s1 ?s2"
    by (rule thread_step.leaves) (use assms Some in simp_all)
  ultimately have "thread_reach E n reqs arrives s ?s2"
    by (meson thread_reach.here thread_reach.further)
  moreover have "put_part m g (globals s) = g"
    using serve_on_part [OF Some same_part_refl, of E "globals s"] serve by simp
  moreover have "(holder s)(m := None) = holder s" using assms(3) by simp
  ultimately show ?thesis by simp
qed

lemma order_scheduled:
  fixes E :: "('s::field, 'e::ab_group_add, 'g) signer_env"
  assumes "\<forall>i < n. reads_body (reqs i) \<longrightarrow> arrives i" "distinct order" "set order \<subseteq> {..<n}"
  shows "\<exists>s. thread_reach E n reqs arrives (start_threads s0) s \<and> holder s = (\<lambda>_. None) \<and>
    (\<forall>i. i \<notin> set order \<longrightarrow> phase s i = Waiting) \<and> globals s = snd (serve_all E s0 (map reqs order)) \<and>
    map (phase s) order = map Done (fst (serve_all E s0 (map reqs order)))"
  using assms(2,3)
proof (induction order rule: rev_induct)
  case Nil
  have "thread_reach E n reqs arrives (start_threads s0) (start_threads s0)" by (rule thread_reach.here)
  then show ?case by (auto simp: start_threads_def)
next
  case (snoc i order)
  then obtain s where s: "thread_reach E n reqs arrives (start_threads s0) s" "holder s = (\<lambda>_. None)"
    "\<forall>i. i \<notin> set order \<longrightarrow> phase s i = Waiting" "globals s = snd (serve_all E s0 (map reqs order))"
    "map (phase s) order = map Done (fst (serve_all E s0 (map reqs order)))" by auto
  have i: "i < n" "i \<notin> set order" using snoc.prems by auto
  obtain r g where serve: "signer_serve E (globals s) (reqs i) = (r, g)" by fastforce
  let ?t = "s\<lparr>globals := g, phase := (phase s)(i := Done r)\<rparr>"
  have "thread_reach E n reqs arrives s ?t"
    by (rule thread_serves [OF i(1)]) (use s(2,3) i assms(1) serve in auto)
  with s(1) have "thread_reach E n reqs arrives (start_threads s0) ?t" by (rule thread_reach_trans)
  moreover have "map (phase ?t) (order @ [i]) = map Done (fst (serve_all E s0 (map reqs order)) @ [r])"
  proof -
    have "map (phase ?t) order = map (phase s) order" using i(2) by (intro map_cong) auto
    then show ?thesis using s(5) by simp
  qed
  moreover have "serve_all E s0 (map reqs (order @ [i])) = (fst (serve_all E s0 (map reqs order)) @ [r], g)"
    using serve s(4) by (simp add: serve_all_snoc split_beta)
  ultimately show ?case
    using s(2,3) by (intro exI [of _ ?t]) (simp only: fst_conv snd_conv, simp)
qed

end
