(* ===== verification/Concurrent_Sessions.thy ===== *)
theory Concurrent_Sessions
  imports Deployment Signer_Threads
begin

text \<open>
  Signing sessions that overlap.  The proxy serves its callers in parallel, so between a signer's
  \<open>/commit\<close> and its \<open>/sign\<close> for one caller it serves requests for others.  \<open>frost_op\<close> is what a request
  makes of the signer object, and \<open>frost_concurrent\<close> is what FROST promises then: a session still
  succeeds as long as nobody else uses up its commitment.
\<close>

subsection \<open>What requests do to the signer object\<close>

datatype 'e frost_op = OpCommit | OpSign bytes "'e frost_Commitment list"

fun run_op :: "('s, 'e, 'g) frost_lib \<Rightarrow> 'g \<Rightarrow> 'e frost_op \<Rightarrow> 'g" where
  "run_op F g OpCommit = snd (Signer_Commit F g)"
| "run_op F g (OpSign m L) = snd (Signer_Sign F g m L)"

definition run_ops :: "('s, 'e, 'g) frost_lib \<Rightarrow> 'g \<Rightarrow> 'e frost_op list \<Rightarrow> 'g" where
  "run_ops F = foldl (run_op F)"

definition request_ops :: "('s, 'e, 'g) frost_lib \<Rightarrow> http_request \<Rightarrow> 'e frost_op list" where
  "request_ops F r =
     (if req_path r = ''/commit'' then [OpCommit]
      else if req_path r = ''/sign'' then
        (case decode_SignRequest (req_body r) of
           Ret req \<Rightarrow>
             (case decode_commitments F (Commitments req) of
                Ret cs \<Rightarrow> [OpSign (Message req) (CommitmentList_Sort F cs)]
              | _ \<Rightarrow> [])
         | _ \<Rightarrow> [])
      else [])"

lemma run_ops_append: "run_ops F g (xs @ ys) = run_ops F (run_ops F g xs) ys"
  by (simp add: run_ops_def)

lemma signHandler_signer:
  "st_Signer (snd (signHandler E s b)) =
     run_ops (se_F E) (st_Signer s) (request_ops (se_F E) \<lparr>req_path = ''/sign'', req_body = b\<rparr>)"
  by (auto simp: signHandler_def request_ops_def run_ops_def split: go.splits prod.splits)

lemma serve_signer:
  "st_Signer (snd (signer_serve E s r)) = run_ops (se_F E) (st_Signer s) (request_ops (se_F E) r)"
proof (cases rule: signer_serve_cases [of r E s])
  case commit
  then show ?thesis by (simp add: commitHandler_signer request_ops_def run_ops_def)
next
  case sign
  then show ?thesis using signHandler_signer [of E s "req_body r"] by (simp add: request_ops_def)
next
  case same
  then show ?thesis by (simp add: serves_signing_def request_ops_def run_ops_def)
qed (use dkgRound1Handler_state(1) [of E s] dkgCommitmentsHandler_state(1) [of s "req_body r"] in
    \<open>auto simp: request_ops_def run_ops_def signing_part_def\<close>)

lemma serve_all_signer:
  "st_Signer (snd (serve_all E s rs)) =
     run_ops (se_F E) (st_Signer s) (concat (map (request_ops (se_F E)) rs))"
  by (induction rs arbitrary: s) (simp_all add: serve_signer run_ops_append split_beta run_ops_def)

subsection \<open>What FROST promises\<close>

text \<open>An operation spares a commitment if it does not sign under it.\<close>

definition spares :: "'e frost_Commitment \<Rightarrow> 'e frost_op \<Rightarrow> bool" where
  "spares c op \<longleftrightarrow>
     (case op of OpCommit \<Rightarrow> True
      | OpSign _ L \<Rightarrow> (\<forall>d \<in> set L. fc_SignerID d = fc_SignerID c \<longrightarrow> fc_CommitmentID d \<noteq> fc_CommitmentID c))"

text \<open>
  As in \<open>frost_complete\<close>, but each signer may have done other things, \<open>opss\<close>, between its commitment and
  its signature: the library keeps the nonces of a commitment under its identifier until a signature
  uses them.
\<close>

definition frost_concurrent :: "('s, 'e, 'g) frost_lib \<Rightarrow> 'e Configuration \<Rightarrow> ('g \<Rightarrow> bool) \<Rightarrow> bool" where
  "frost_concurrent F cfg valid \<longleftrightarrow>
     (\<forall>gs opss m. length opss = length gs \<and> (\<forall>g \<in> set gs. valid g) \<and>
        distinct (map (Signer_Identifier F) gs) \<and> cfg_Threshold cfg \<le> length gs \<and>
        (\<forall>i < length gs. \<forall>op \<in> set (opss ! i). spares (fst (Signer_Commit F (gs ! i))) op) \<longrightarrow>
        (let L = CommitmentList_Sort F (map (\<lambda>g. fst (Signer_Commit F g)) gs) in
         \<exists>ss. length ss = length gs \<and>
              (\<forall>i < length gs. fst (Signer_Sign F
                 (run_ops F (snd (Signer_Commit F (gs ! i))) (opss ! i)) m L) = Ret (ss ! i)) \<and>
              (\<forall>ss'. mset ss' = mset ss \<longrightarrow> is_ret (Config_Aggregate F cfg m ss' L True))))"

text \<open>Sessions that do not overlap are the special case.\<close>

lemma frost_concurrent_complete:
  assumes "frost_concurrent F cfg valid"
  shows "frost_complete F cfg valid"
  unfolding frost_complete_def
proof (intro allI impI)
  fix gs m
  assume a: "(\<forall>g \<in> set gs. valid g) \<and> distinct (map (Signer_Identifier F) gs) \<and> cfg_Threshold cfg \<le> length gs"
  let ?L = "CommitmentList_Sort F (map (\<lambda>g. fst (Signer_Commit F g)) gs)"
  from assms [unfolded frost_concurrent_def, rule_format, of "map (\<lambda>_. []) gs" gs m] a obtain ss where
    "length ss = length gs"
    "\<And>i. i < length gs \<Longrightarrow> fst (Signer_Sign F (run_ops F (snd (Signer_Commit F (gs ! i)))
        (map (\<lambda>_. []) gs ! i)) m ?L) = Ret (ss ! i)"
    "\<And>ss'. mset ss' = mset ss \<Longrightarrow> is_ret (Config_Aggregate F cfg m ss' ?L True)"
    by (auto simp: Let_def)
  then show "let L = ?L in
     \<exists>ss. list_all2 (\<lambda>g s. fst (Signer_Sign F (snd (Signer_Commit F g)) m L) = Ret s) gs ss \<and>
        (\<forall>ss'. mset ss' = mset ss \<longrightarrow> is_ret (Config_Aggregate F cfg m ss' L True))"
    unfolding Let_def by (intro exI [of _ ss]) (simp add: list_all2_conv_all_nth run_ops_def)
qed

subsection \<open>A session among others\<close>

text \<open>
  \<open>busy\<close> says that a signer, since it committed in state \<open>s\<close> for this session, has served any requests
  in any schedule, none of them a signature under this session's commitment, and is now in state \<open>t\<close>.
\<close>

definition busy ::
  "('s::field, 'e::ab_group_add, 'g) signer_env \<Rightarrow> ('s, 'e, 'g) signer_state \<Rightarrow>
     ('s, 'e, 'g) signer_state \<Rightarrow> bool" where
  "busy E s t \<longleftrightarrow>
     (\<exists>n reqs arrives T. thread_reach E n reqs arrives (start_threads (snd (commitHandler E s))) T \<and>
        globals T = t \<and>
        (\<forall>i < n. \<forall>op \<in> set (request_ops (se_F E) (reqs i)). spares (commit_of (se_F E) s) op))"

lemma busy_signer:
  assumes "busy E s t"
  obtains ops where "st_Signer t = run_ops (se_F E) (snd (Signer_Commit (se_F E) (st_Signer s))) ops"
    "\<forall>op \<in> set ops. spares (commit_of (se_F E) s) op"
proof -
  from assms obtain n reqs arrives T where
    r: "thread_reach E n reqs arrives (start_threads (snd (commitHandler E s))) T" "globals T = t"
    and sp: "\<forall>i < n. \<forall>op \<in> set (request_ops (se_F E) (reqs i)). spares (commit_of (se_F E) s) op"
    unfolding busy_def by blast
  from threads_linearize [OF r(1)] obtain order where
    o: "set order \<subseteq> {..<n}" "snd (serve_all E (snd (commitHandler E s)) (map reqs order)) = t"
    unfolding served_in_def r(2) by auto
  show thesis
  proof (rule that)
    show "st_Signer t = run_ops (se_F E) (snd (Signer_Commit (se_F E) (st_Signer s)))
        (concat (map (request_ops (se_F E)) (map reqs order)))"
      using serve_all_signer [of E "snd (commitHandler E s)" "map reqs order"]
      by (simp add: o(2) commitHandler_signer)
    show "\<forall>op \<in> set (concat (map (request_ops (se_F E)) (map reqs order))). spares (commit_of (se_F E) s) op"
      using o(1) sp by auto
  qed
qed

lemma session_busy:
  assumes dep: "deployment_ok F sites up" and concurrent: "frost_concurrent F cfg valid"
    and valid: "\<forall>j \<in> up. valid (st_Signer (ws ! j))"
    and ids: "inj_on (\<lambda>j. Signer_Identifier F (st_Signer (ws ! j))) up"
    and busy: "\<forall>j \<in> up. busy (site_env (sites ! j)) (ws ! j) (ws2 ! j)"
    and js: "set js \<subseteq> up" "distinct js" "cfg_Threshold cfg \<le> length js"
  shows "session_ok F cfg ws ws2 js m"
proof -
  let ?gs = "map (\<lambda>j. st_Signer (ws ! j)) js"
  let ?L = "CommitmentList_Sort F (map (\<lambda>j. commit_of F (ws ! j)) js)"
  have "\<forall>j \<in> up. \<exists>ops. st_Signer (ws2 ! j) = run_ops F (snd (Signer_Commit F (st_Signer (ws ! j)))) ops \<and>
      (\<forall>op \<in> set ops. spares (commit_of F (ws ! j)) op)"
    using busy deployment_at(4) [OF dep] by (metis busy_signer)
  then obtain ops where ops: "\<And>j. j \<in> up \<Longrightarrow> st_Signer (ws2 ! j) =
        run_ops F (snd (Signer_Commit F (st_Signer (ws ! j)))) (ops j)"
      "\<And>j op. j \<in> up \<Longrightarrow> op \<in> set (ops j) \<Longrightarrow> spares (commit_of F (ws ! j)) op"
    by metis
  have up: "js ! i \<in> up" if "i < length js" for i using that js(1) by auto
  have "length (map ops js) = length ?gs \<and> (\<forall>g \<in> set ?gs. valid g) \<and>
      distinct (map (Signer_Identifier F) ?gs) \<and> cfg_Threshold cfg \<le> length ?gs \<and>
      (\<forall>i < length ?gs. \<forall>op \<in> set (map ops js ! i). spares (fst (Signer_Commit F (?gs ! i))) op)"
    using valid js ops(2) [OF up] inj_on_subset [OF ids js(1)]
    by (auto simp: distinct_map o_def commit_of_def)
  from concurrent [unfolded frost_concurrent_def, rule_format, OF this, of m] obtain ss where
    "length ss = length js"
    "\<And>i. i < length js \<Longrightarrow> fst (Signer_Sign F
        (run_ops F (snd (Signer_Commit F (st_Signer (ws ! (js ! i))))) (ops (js ! i))) m ?L) = Ret (ss ! i)"
    "\<And>ss'. mset ss' = mset ss \<Longrightarrow> is_ret (Config_Aggregate F cfg m ss' ?L True)"
    by (auto simp: Let_def commit_of_def o_def)
  then show ?thesis
    unfolding session_ok_def Let_def by (intro exI [of _ ss]) (simp add: ops(1) [OF up])
qed

lemma busy_serve_all:
  assumes "\<forall>r \<in> set rs. \<forall>op \<in> set (request_ops (se_F E) r). spares (commit_of (se_F E) s) op"
  shows "busy E s (snd (serve_all E (snd (commitHandler E s)) rs))"
proof -
  have "distinct [0..<length rs]" "set [0..<length rs] \<subseteq> {..<length rs}" by auto
  from order_scheduled [where reqs = "\<lambda>i. rs ! i" and arrives = "\<lambda>_. True", OF _ this,
      of E "snd (commitHandler E s)"] obtain T where
    "thread_reach E (length rs) (\<lambda>i. rs ! i) (\<lambda>_. True) (start_threads (snd (commitHandler E s))) T"
    "globals T = snd (serve_all E (snd (commitHandler E s)) rs)"
    by (auto simp: map_nth)
  with assms show ?thesis unfolding busy_def by (metis nth_mem)
qed

text \<open>A signing request, with other requests under way everywhere.\<close>

lemma makeSignFn_busy:
  assumes dep: "deployment_ok F sites up" and concurrent: "frost_concurrent F (px_config X) valid"
    and X: "px_F X = F" "px_addresses X = map site_addr sites" "cfg_Threshold (px_config X) = threshold"
    and valid: "\<forall>j \<in> up. valid (st_Signer (ws ! j))"
    and ids: "inj_on (\<lambda>j. Signer_Identifier F (st_Signer (ws ! j))) up"
    and busy: "\<forall>j \<in> up. busy (site_env (sites ! j)) (ws ! j) (ws2 ! j)"
    and run: "valid_run (length sites) (later_run up sites ws ws2 order1 order2 rnd)"
    and claims: "ascii claims"
    and key: "SignES256 (px_E X) rnd (px_ecKey X) (jwt_header (px_keyID X) @ ''.'' @ claims) = Ret sig"
  shows "makeSignFn X (later_run up sites ws ws2 order1 order2 rnd) claims =
    (if threshold \<le> card up then Ret (jwt_header (px_keyID X), sig) else Err (not_enough (card up)))"
  using session_busy [OF dep concurrent valid ids busy] X(3)
  by (intro makeSignFn_later [OF dep X(1,2) run claims _ key]) simp

end
