(* ===== verification/Instances.thy ===== *)
theory Instances
  imports Ceremony Keygen Concurrent_Sessions
begin

text \<open>
  Small instances of the libraries that are parameters of the model: a field of seven elements, a
  FROST library, a key-generation group, an ECDSA and an AEAD that satisfy the assumptions made of
  the real ones.  They show that those assumptions can hold together, and are what the witnesses of
  the properties run on.
\<close>

subsection \<open>A field\<close>

datatype gf7 = G0 | G1 | G2 | G3 | G4 | G5 | G6

fun gf7_val :: "gf7 \<Rightarrow> nat" where
  "gf7_val G0 = 0" | "gf7_val G1 = 1" | "gf7_val G2 = 2" | "gf7_val G3 = 3"
| "gf7_val G4 = 4" | "gf7_val G5 = 5" | "gf7_val G6 = 6"

definition gf7_of :: "nat \<Rightarrow> gf7" where
  "gf7_of n = [G0, G1, G2, G3, G4, G5, G6] ! (n mod 7)"

lemma gf7_val_less [simp]: "gf7_val x < 7"
  by (cases x) simp_all

lemma gf7_of_val [simp]: "gf7_of (gf7_val x) = x"
  by (cases x) (simp_all add: gf7_of_def)

lemma gf7_val_of [simp]: "gf7_val (gf7_of n) = n mod 7"
proof -
  have "n mod 7 \<in> {0, 1, 2, 3, 4, 5, 6}" by auto
  then show ?thesis by (auto simp: gf7_of_def)
qed

lemma gf7_eq: "x = y \<longleftrightarrow> gf7_val x = gf7_val y"
  by (metis gf7_of_val)

instantiation gf7 :: field
begin

definition zero_gf7 :: gf7 where "0 = G0"
definition one_gf7 :: gf7 where "1 = G1"
definition plus_gf7 :: "gf7 \<Rightarrow> gf7 \<Rightarrow> gf7" where "x + y = gf7_of (gf7_val x + gf7_val y)"
definition times_gf7 :: "gf7 \<Rightarrow> gf7 \<Rightarrow> gf7" where "x * y = gf7_of (gf7_val x * gf7_val y)"
definition uminus_gf7 :: "gf7 \<Rightarrow> gf7" where "- x = gf7_of (7 - gf7_val x)"
definition minus_gf7 :: "gf7 \<Rightarrow> gf7 \<Rightarrow> gf7" where "x - y = gf7_of (gf7_val x + (7 - gf7_val y))"
definition inverse_gf7 :: "gf7 \<Rightarrow> gf7" where "inverse x = gf7_of (gf7_val x ^ 5)"
definition divide_gf7 :: "gf7 \<Rightarrow> gf7 \<Rightarrow> gf7" where
  "divide_gf7 x y = gf7_of (gf7_val x * (gf7_val y ^ 5 mod 7))"

instance
proof
  fix x y z :: gf7
  show "x + y + z = x + (y + z)" by (simp add: gf7_eq plus_gf7_def mod_simps add.assoc)
  show "x + y = y + x" by (simp add: plus_gf7_def add.commute)
  show "0 + x = x" by (simp add: plus_gf7_def zero_gf7_def)
  show "- x + x = 0" by (cases x) (simp_all add: gf7_eq plus_gf7_def uminus_gf7_def zero_gf7_def)
  show "x - y = x + - y" by (simp add: gf7_eq minus_gf7_def plus_gf7_def uminus_gf7_def mod_simps)
  show "x * y * z = x * (y * z)" by (simp add: gf7_eq times_gf7_def mod_simps mult.assoc)
  show "x * y = y * x" by (simp add: times_gf7_def mult.commute)
  show "1 * x = x" by (simp add: times_gf7_def one_gf7_def)
  show "(x + y) * z = x * z + y * z"
    by (simp add: gf7_eq times_gf7_def plus_gf7_def mod_simps distrib_right)
  show "(0 :: gf7) \<noteq> 1" by (simp add: zero_gf7_def one_gf7_def)
  show "x \<noteq> 0 \<Longrightarrow> inverse x * x = 1"
    by (cases x) (simp_all add: gf7_eq inverse_gf7_def times_gf7_def zero_gf7_def one_gf7_def)
  show "divide x y = x * inverse y"
    by (simp add: gf7_eq divide_gf7_def times_gf7_def inverse_gf7_def mod_simps)
  show "inverse (0 :: gf7) = 0" by (simp add: gf7_eq inverse_gf7_def zero_gf7_def)
qed

end

lemma gf7_val_of_nat: "gf7_val (of_nat n) = n mod 7"
  by (induction n) (simp_all add: zero_gf7_def plus_gf7_def one_gf7_def mod_simps)

subsection \<open>A FROST library\<close>

text \<open>A signer object is its identifier and the number of its next commitment.\<close>

definition snoc7 :: "nat \<Rightarrow> gf7 \<Rightarrow> nat" where
  "snoc7 n x = n * 7 + gf7_val x"

definition pack_commitment :: "gf7 frost_Commitment \<Rightarrow> nat" where
  "pack_commitment c =
     snoc7 (snoc7 (unat (fc_CommitmentID c) * 65536 + unat (fc_SignerID c)) (fst (fc_Nonces c)))
       (snd (fc_Nonces c))"

definition unpack_commitment :: "nat \<Rightarrow> gf7 frost_Commitment" where
  "unpack_commitment n =
     \<lparr>fc_CommitmentID = of_nat (n div 49 div 65536), fc_SignerID = of_nat (n div 49 mod 65536),
      fc_Nonces = (gf7_of (n div 7), gf7_of n)\<rparr>"

definition pack_share :: "gf7 SignatureShare \<Rightarrow> nat" where
  "pack_share s = snoc7 (unat (SignerIdentifier s)) (share_value s)"

definition unpack_share :: "nat \<Rightarrow> gf7 SignatureShare" where
  "unpack_share n = \<lparr>SignerIdentifier = of_nat (n div 7), share_value = gf7_of n\<rparr>"

definition pack_key :: "(gf7, gf7) KeyShare \<Rightarrow> nat" where
  "pack_key k =
     snoc7 (snoc7 (snoc7 (unat (PubID (PubShare k))) (PublicKey (PubShare k))) (VerificationKey k))
       (Secret k)"

definition unpack_key :: "nat \<Rightarrow> (gf7, gf7) KeyShare" where
  "unpack_key n =
     \<lparr>Secret = gf7_of n, VerificationKey = gf7_of (n div 7),
      PubShare = \<lparr>PublicKey = gf7_of (n div 49), PubID = of_nat (n div 343)\<rparr>\<rparr>"

definition number_text :: "nat \<Rightarrow> string" where
  "number_text n = replicate 16 (CHR ''0'') @ show_nat n"

definition text_number :: "string \<Rightarrow> nat go" where
  "text_number s = (case ParseUint 128 (drop 16 s) of Inl _ \<Rightarrow> Err (Msg ''bad text'') | Inr n \<Rightarrow> Ret n)"

definition toy_frost :: "(gf7, gf7, u16 \<times> u64) frost_lib" where
  "toy_frost =
     \<lparr>KeyShare_DecodeHex = (\<lambda>s. bind_go (text_number s) (\<lambda>n. Ret (unpack_key n))),
      KeyShare_Hex = (\<lambda>k. number_text (pack_key k)),
      KeyShare_Public = PubShare,
      Config_Init = (\<lambda>c. if cfg_Threshold c \<le> cfg_MaxSigners c then Ret c else Err (Msg ''threshold'')),
      Config_Signer = (\<lambda>c k. Ret (PubID (PubShare k), 0)),
      Signer_Identifier = fst,
      Signer_Commit = (\<lambda>g.
        (\<lparr>fc_CommitmentID = snd g, fc_SignerID = fst g, fc_Nonces = (1, 1)\<rparr>, (fst g, snd g + 1))),
      Signer_Sign = (\<lambda>g m L.
        (if fst g \<in> set (map fc_SignerID L) then Ret \<lparr>SignerIdentifier = fst g, share_value = 1\<rparr>
         else Err (Msg ''no commitment of this signer''), g)),
      CommitmentList_Sort = sort_key (\<lambda>c. unat (fc_SignerID c)),
      Commitment_Hex = (\<lambda>c. number_text (pack_commitment c)),
      Commitment_DecodeHex = (\<lambda>s. bind_go (text_number s) (\<lambda>n. Ret (unpack_commitment n))),
      SignatureShare_Hex = (\<lambda>s. number_text (pack_share s)),
      SignatureShare_DecodeHex = (\<lambda>s. bind_go (text_number s) (\<lambda>n. Ret (unpack_share n))),
      Signature_Hex = (\<lambda>z. number_text (gf7_val (fst z) * 7 + gf7_val (snd z))),
      Config_Aggregate = (\<lambda>c m ss L v.
        if cfg_Threshold c \<le> length ss \<and> distinct (map SignerIdentifier ss) \<and>
           set (map SignerIdentifier ss) \<subseteq> set (map fc_SignerID L) then Ret (1, of_nat (length ss))
        else Err (Msg ''shares''))\<rparr>"

lemma ascii_number_text: "ascii (number_text n)"
proof -
  have "(of_char c :: nat) < 128" if "c \<in> set (show_nat n)" for c
    using show_nat_digits [OF that] by (auto simp: digit_def)
  then show ?thesis by (auto simp: number_text_def ascii_def)
qed

lemma text_number_text: "n < 2 ^ 128 \<Longrightarrow> text_number (number_text n) = Ret n"
  by (simp add: text_number_def number_text_def ParseUint_show)

lemma snoc7_simps [simp]:
  "gf7_of (snoc7 n x) = x" "snoc7 n x div 7 = n" "snoc7 n x div 49 = n div 7" "snoc7 n x div 343 = n div 49"
proof -
  show d: "snoc7 n x div 7 = n" by (simp add: snoc7_def)
  show "gf7_of (snoc7 n x) = x" by (simp add: snoc7_def gf7_eq)
  show "snoc7 n x div 49 = n div 7" using div_mult2_eq [of "snoc7 n x" 7 7] d by simp
  show "snoc7 n x div 343 = n div 49" using div_mult2_eq [of "snoc7 n x" 7 49] d by simp
qed

lemma snoc7_bound: "n < 2 ^ k \<Longrightarrow> snoc7 n x < 2 ^ (k + 3)"
proof -
  assume "n < 2 ^ k"
  then have "n * 7 + 7 \<le> 2 ^ k * 7" by simp
  then have "n * 7 + gf7_val x < 2 ^ k * 8" using gf7_val_less [of x] by linarith
  then show ?thesis by (simp add: snoc7_def power_add)
qed

lemma unpack_pack_commitment: "unpack_commitment (pack_commitment c) = c"
proof -
  have "unat (fc_SignerID c) < 65536" using unsigned_less [of "fc_SignerID c"] by simp
  then show ?thesis
    by (cases c) (simp add: unpack_commitment_def pack_commitment_def)
qed

lemma unpack_pack_share: "unpack_share (pack_share s) = s"
  by (cases s) (simp add: unpack_share_def pack_share_def)

lemma unpack_pack_key: "unpack_key (pack_key k) = k"
  by (cases k; cases "PubShare k") (simp add: unpack_key_def pack_key_def)

lemma text_of_packed:
  "text_number (number_text (pack_commitment c)) = Ret (pack_commitment c)"
  "text_number (number_text (pack_share s)) = Ret (pack_share s)"
  "text_number (number_text (pack_key k)) = Ret (pack_key k)"
proof -
  have id: "unat w < 2 ^ 16" for w :: u16 by (rule order_less_le_trans [OF unsigned_less]) simp
  have "unat (fc_CommitmentID c) < 2 ^ 64" by (rule order_less_le_trans [OF unsigned_less]) simp
  then have "unat (fc_CommitmentID c) * 65536 + unat (fc_SignerID c) < 2 ^ 80"
    using id [of "fc_SignerID c"] by simp
  then have "pack_commitment c < 2 ^ (80 + 3 + 3)"
    unfolding pack_commitment_def by (intro snoc7_bound)
  moreover have "pack_share s < 2 ^ (16 + 3)"
    unfolding pack_share_def by (intro snoc7_bound id)
  moreover have "pack_key k < 2 ^ (16 + 3 + 3 + 3)"
    unfolding pack_key_def by (intro snoc7_bound id)
  ultimately have "pack_commitment c < 2 ^ 128" "pack_share s < 2 ^ 128" "pack_key k < 2 ^ 128"
    by simp_all
  then show "text_number (number_text (pack_commitment c)) = Ret (pack_commitment c)"
    "text_number (number_text (pack_share s)) = Ret (pack_share s)"
    "text_number (number_text (pack_key k)) = Ret (pack_key k)"
    using text_number_text by blast+
qed

lemma toy_codecs: "frost_codecs toy_frost"
  by (simp add: frost_codecs_def toy_frost_def text_of_packed unpack_pack_commitment
      unpack_pack_share ascii_number_text)

lemma toy_share_codec: "share_codec toy_frost"
  by (simp add: share_codec_def toy_frost_def text_of_packed unpack_pack_key
      ascii_number_text)

lemma toy_run_ops: "fst (run_ops toy_frost g ops) = fst g"
proof (induction ops arbitrary: g)
  case (Cons op ops)
  then show ?case by (cases op) (simp_all add: run_ops_def toy_frost_def)
qed (simp add: run_ops_def)

lemma toy_concurrent: "frost_concurrent toy_frost cfg (\<lambda>_. True)"
  unfolding frost_concurrent_def Let_def
proof (intro allI impI, elim conjE)
  fix gs :: "(u16 \<times> u64) list" and opss m
  assume ids: "distinct (map (Signer_Identifier toy_frost) gs)" and t: "cfg_Threshold cfg \<le> length gs"
  let ?L = "CommitmentList_Sort toy_frost (map (\<lambda>g. fst (Signer_Commit toy_frost g)) gs)"
  let ?ss = "map (\<lambda>g. \<lparr>SignerIdentifier = fst g, share_value = 1 :: gf7\<rparr>) gs"
  have L: "set (map fc_SignerID ?L) = fst ` set gs"
    by (simp add: toy_frost_def image_image)
  have "fst (Signer_Sign toy_frost (run_ops toy_frost (snd (Signer_Commit toy_frost (gs ! i))) (opss ! i)) m ?L) =
      Ret (?ss ! i)" if "i < length gs" for i
  proof -
    let ?g = "run_ops toy_frost (snd (Signer_Commit toy_frost (gs ! i))) (opss ! i)"
    have g: "fst ?g = fst (gs ! i)" unfolding toy_run_ops by (simp add: toy_frost_def)
    then have "fst ?g \<in> set (map fc_SignerID ?L)" unfolding L using that by simp
    then have "fst (Signer_Sign toy_frost ?g m ?L) = Ret \<lparr>SignerIdentifier = fst ?g, share_value = 1\<rparr>"
      by (simp add: toy_frost_def [THEN arg_cong [of _ _ Signer_Sign]])
    then show ?thesis using that g by simp
  qed
  moreover have "is_ret (Config_Aggregate toy_frost cfg m ss' ?L True)" if "mset ss' = mset ?ss" for ss'
  proof -
    have len: "length ss' = length gs" "set (map SignerIdentifier ss') = fst ` set gs"
      using mset_eq_length [OF that] mset_eq_setD [OF that] by (simp_all add: image_image)
    have "mset (map SignerIdentifier ss') = mset (map fst gs)"
      by (simp add: that image_mset.compositionality o_def)
    moreover have "distinct (map fst gs)" using ids by (simp add: toy_frost_def)
    ultimately have "distinct (map SignerIdentifier ss')" using mset_eq_imp_distinct_iff by blast
    with len show ?thesis using t L by (simp add: toy_frost_def)
  qed
  ultimately show "\<exists>ss. length ss = length gs \<and>
    (\<forall>i < length gs. fst (Signer_Sign toy_frost
       (run_ops toy_frost (snd (Signer_Commit toy_frost (gs ! i))) (opss ! i)) m ?L) = Ret (ss ! i)) \<and>
    (\<forall>ss'. mset ss' = mset ss \<longrightarrow> is_ret (Config_Aggregate toy_frost cfg m ss' ?L True))"
    by (intro exI [of _ ?ss]) simp
qed

lemmas toy_complete = frost_concurrent_complete [OF toy_concurrent]

subsection \<open>A group for key generation\<close>

definition toy_group :: "(gf7, gf7) dkg_group" where
  "toy_group =
     \<lparr>base_mul = (\<lambda>s. s),
      poly_Evaluate = (\<lambda>p x. if p = [] then Err (Msg ''empty polynomial'') else Ret (poly_value p x)),
      scalar_Marshal = (\<lambda>s. Ret [char_of (gf7_val s)]),
      scalar_Unmarshal = (\<lambda>b. case b of [c] \<Rightarrow> Ret (gf7_of (of_char c)) | _ \<Rightarrow> Err (Msg ''length'')),
      element_Marshal = (\<lambda>s. Ret [char_of (gf7_val s)]),
      element_Unmarshal = (\<lambda>b. case b of [c] \<Rightarrow> Ret (gf7_of (of_char c)) | _ \<Rightarrow> Err (Msg ''length''))\<rparr>"

lemma gf7_of_char_of_val [simp]: "gf7_of (gf7_val s mod 256) = s"
  by (cases s) (simp_all add: gf7_of_def)

lemma toy_group_lawful: "dkg_lawful toy_group"
  by (simp add: dkg_lawful_def toy_group_def)

subsection \<open>ECDSA, AEAD\<close>

definition toy_ecdsa :: "(nat, nat) ecdsa_std" where
  "toy_ecdsa =
     \<lparr>Sum256 = (\<lambda>m. m), GenerateKey = Ret,
      ecdsa_Sign = (\<lambda>rnd k h. Ret (k + length h mod 256, length h mod 256)),
      ecdsa_Verify = (\<lambda>k h r s. r = k + length h mod 256 \<and> s = length h mod 256),
      ParseECPrivateKey = (\<lambda>der. if der = [] then Err (Msg ''no key'') else Ret (os2ip der)),
      MarshalECPrivateKey = (\<lambda>k. if k = 0 then Err (Msg ''invalid key'') else Ret (big_Bytes k)),
      MarshalPKIX = (\<lambda>k. Ret (big_Bytes k)),
      pem_Decode = (\<lambda>d. case d of [] \<Rightarrow> None | c # cs \<Rightarrow> if c = CHR ''P'' then Some cs else None),
      pem_Encode = (\<lambda>d. CHR ''P'' # d)\<rparr>"

lemma toy_ecdsa_lawful: "ecdsa_lawful toy_ecdsa"
proof -
  have "big_Bytes k \<noteq> []" if "k \<noteq> 0" for k using that by (simp add: big_Bytes.simps [of k])
  then show ?thesis by (auto simp: ecdsa_lawful_def toy_ecdsa_def split: if_splits)
qed

lemma toy_p256_key: "k < 2 ^ 255 \<Longrightarrow> p256_key toy_ecdsa k"
proof -
  assume k: "k < 2 ^ 255"
  have n: "(2 :: nat) ^ 255 + 256 \<le> 2 ^ 256" by simp
  have "k + length h mod 256 < 2 ^ 256 \<and> length h mod 256 < 2 ^ 256" for h :: bytes
  proof -
    have "length h mod 256 < 256" by simp
    with k n show ?thesis by linarith
  qed
  then show ?thesis by (auto simp: p256_key_def toy_ecdsa_def)
qed

definition toy_aead :: aead where
  "toy_aead =
     \<lparr>hash256 = (\<lambda>p. take 32 (p @ replicate 32 (CHR 0x00))),
      Seal = (\<lambda>k n d. k @ n @ d),
      Open = (\<lambda>k n c.
        if take (length k + length n) c = k @ n then Some (drop (length k + length n) c) else None)\<rparr>"

lemma toy_aead_lawful: "aead_lawful toy_aead"
proof -
  have "c = k @ n @ d" if "take (length k + length n) c = k @ n" "d = drop (length k + length n) c"
    for k n c d :: bytes
    using that append_take_drop_id [of "length k + length n" c] by simp
  then show ?thesis by (auto simp: aead_lawful_def toy_aead_def split: if_splits)
qed

subsection \<open>A key file\<close>

definition demo_shares :: "(gf7, gf7) KeyShare list" where
  "demo_shares = map (\<lambda>i. \<lparr>Secret = of_nat i, VerificationKey = 1,
     PubShare = \<lparr>PublicKey = of_nat i, PubID = of_nat i\<rparr>\<rparr>) [1..<6]"

definition demo_config :: "gf7 Configuration" where
  "demo_config =
     \<lparr>cfg_Threshold = 3, cfg_MaxSigners = 5, cfg_VerificationKey = 1,
      cfg_SignerPublicKeyShares = map PubShare demo_shares\<rparr>"

definition demo_stored :: StoredKeys where
  "demo_stored = \<lparr>stored_Config = [], stored_Shares = map (KeyShare_Hex toy_frost) demo_shares\<rparr>"

definition demo_fs :: file_system where
  "demo_fs =
     \<lparr>entries =
        [''data/frost-keys.json'' \<mapsto> Readable (json_Encode (StoredKeys_json demo_stored)),
         ''certs/proxy.crt'' \<mapsto> Readable ''cert'', ''certs/proxy.key'' \<mapsto> Readable ''key'',
         ''certs/ca.crt'' \<mapsto> Readable ''ca''],
      creatable = (\<lambda>_. True), disk_ok = (\<lambda>_. True)\<rparr>"

definition toy_tls :: "(bytes, bytes) tls_std" where
  "toy_tls = \<lparr>X509KeyPair = (\<lambda>c k. Ret (c @ k)), CertsFromPEM = (\<lambda>d. [d])\<rparr>"

lemma demo_key_file:
  "ReadFile ''data/frost-keys.json'' demo_fs =
     Ret (json_Encode (StoredKeys_json
       \<lparr>stored_Config = [], stored_Shares = map (KeyShare_Hex toy_frost) demo_shares\<rparr>))"
  by (simp add: ReadFile_def demo_fs_def demo_stored_def)

lemma demo_config_of: "config_of toy_frost demo_shares = Ret demo_config"
  by (simp add: config_of_Ret demo_config_def demo_shares_def toy_frost_def upt_conv_Cons)

lemma demo_coordinator_config: "coordinator_config toy_frost demo_fs = Ret demo_config"
proof -
  have "ascii []" by (simp add: ascii_def)
  then have "unmarshal_stored (json_Encode (StoredKeys_json
       \<lparr>stored_Config = [], stored_Shares = map (KeyShare_Hex toy_frost) demo_shares\<rparr>)) =
    Ret \<lparr>stored_Config = [], stored_Shares = map (KeyShare_Hex toy_frost) demo_shares\<rparr>"
    using keygen_stored_back [OF toy_share_codec, of "\<lambda>_. []"] by simp
  from coordinator_config_plain [OF demo_key_file this, of toy_frost] show ?thesis
    by (simp add: decode_shares_Hex [OF toy_share_codec] demo_config_of)
qed

subsection \<open>Five signers\<close>

definition demo_env :: "nat \<Rightarrow> environment" where
  "demo_env i = (\<lambda>k. if k = ''SIGNER_ID'' then show_nat i else [])"

definition demo_site :: "nat \<Rightarrow> string \<Rightarrow> (gf7, gf7, u16 \<times> u64) site" where
  "demo_site i addr =
     \<lparr>site_addr = addr,
      site_env = \<lparr>se_F = toy_frost, se_G = toy_group, se_draw = (\<lambda>n. of_nat (n + i)), se_env = demo_env i\<rparr>\<rparr>"

definition demo_sites :: "(gf7, gf7, u16 \<times> u64) site list" where
  "demo_sites =
     [demo_site 1 ''https://signer-1:8081'', demo_site 2 ''https://signer-2:8082'',
      demo_site 3 ''https://signer-3:8083'', demo_site 4 ''https://signer-4:8084'',
      demo_site 5 ''https://signer-5:8085'']"

definition demo_states :: "(gf7, gf7, u16 \<times> u64) signer_state list" where
  "demo_states = map (\<lambda>i. start_state (of_nat i, 0)) [1..<6]"

lemma demo_sites_simps [simp]:
  "length demo_sites = 5" "length demo_states = 5"
  "map site_addr demo_sites = proxy_signerAddresses (\<lambda>_. [])"
  by (simp_all add: demo_sites_def demo_states_def demo_site_def proxy_signerAddresses_def
      proxy_getEnv_def)

lemma demo_addresses:
  "list_all addr_ok (proxy_signerAddresses (\<lambda>_. []))" "distinct (proxy_signerAddresses (\<lambda>_. []))"
  by (simp_all add: proxy_signerAddresses_def proxy_getEnv_def addr_ok_def)

lemma demo_sites_ok: "sites_ok demo_sites"
  using demo_addresses
  by (simp add: sites_ok_def list_all_iff flip: demo_sites_simps(3))

lemma demo_states_at: "j < 5 \<Longrightarrow> st_Signer (demo_states ! j) = (of_nat (j + 1), 0)"
  by (simp add: demo_states_def start_state_def)

lemma demo_identifiers:
  "up \<subseteq> {..<5} \<Longrightarrow> inj_on (\<lambda>j. Signer_Identifier toy_frost (st_Signer (demo_states ! j))) up"
proof (rule inj_onI)
  fix i j assume "up \<subseteq> {..<5}" "i \<in> up" "j \<in> up" and
    eq: "Signer_Identifier toy_frost (st_Signer (demo_states ! i)) =
      Signer_Identifier toy_frost (st_Signer (demo_states ! j))"
  then have ij: "i < 5" "j < 5" by auto
  with eq have "target_id i = target_id j"
    by (simp add: demo_states_at toy_frost_def target_id_def)
  moreover have "inj_on target_id {..<5}" by (rule target_id_inj) simp
  ultimately show "i = j" using ij by (auto dest: inj_onD)
qed

end
