(* ===== verification/Proxy_Refinement.thy ===== *)
theory Proxy_Refinement
  imports Grpc_Proxy Proxy_Machine
begin

text \<open>
  The goroutines and the channel of \<open>Proxy_Machine\<close> implement the orders that a \<open>run\<close> of
  \<open>Grpc_Proxy\<close> is about: every finished machine has received the results in an order in which each
  goroutine occurs once, and every such order is the one of some schedule.
\<close>

lemma machine_received_order:
  assumes "machine_reach n outcome s" "n \<le> length (received s)"
  shows "distinct (map fst (received s))" "set (map fst (received s)) = {0..<n}"
    and "received s = map (\<lambda>i. (i, the (outcome i))) (map fst (received s))"
proof -
  note fin = machine_done [OF machine_reach_inv [OF assms(1)] assms(2)]
  show "distinct (map fst (received s))" by (rule fin(3))
  show "set (map fst (received s)) = {0..<n}" by (rule fin(4))
  have "map (\<lambda>x. (fst x, the (outcome (fst x)))) (received s) = map id (received s)"
    using fin(5) by (intro map_cong) auto
  then show "received s = map (\<lambda>i. (i, the (outcome i))) (map fst (received s))"
    by (simp add: o_def)
qed

text \<open>What the collector computes from the channel is the collection of the run with that order.\<close>

lemma machine_collects:
  assumes "machine_reach n (\<lambda>i. Some (w i)) s" "n \<le> length (received s)"
  shows "map snd (received s) = map w (map fst (received s))"
proof -
  have "map snd (received s) = map snd (map (\<lambda>i. (i, the (Some (w i)))) (map fst (received s)))"
    using machine_received_order(3) [OF assms] by (rule arg_cong)
  then show ?thesis by simp
qed

lemma machine_schedule:
  assumes "distinct xs" "set xs \<subseteq> {..<n}" "\<forall>i \<in> set xs. outcome i = Some (r i)"
  shows "\<exists>s. machine_reach n outcome s \<and> received s = map (\<lambda>i. (i, r i)) xs \<and>
    results s = make_chan n \<and> workers s = (\<lambda>i. if i \<in> set xs then Finished else Calling)"
  using assms
proof (induction xs rule: rev_induct)
  case Nil
  show ?case
    by (rule exI [of _ "start_machine n"]) (simp add: machine_reach.start, simp add: start_machine_def)
next
  case (snoc x xs)
  then obtain s where s: "machine_reach n outcome s" "received s = map (\<lambda>i. (i, r i)) xs"
      "results s = make_chan n" "workers s = (\<lambda>i. if i \<in> set xs then Finished else Calling)"
    by auto
  have x: "x < n" "x \<notin> set xs" "outcome x = Some (r x)" using snoc.prems by auto
  have "length xs < n"
  proof -
    have "card (set (xs @ [x])) \<le> card {..<n}" using snoc.prems(2) by (intro card_mono) auto
    then show ?thesis using distinct_card [OF snoc.prems(1)] by simp
  qed
  define s1 where "s1 = s\<lparr>workers := (workers s)(x := Sending)\<rparr>"
  define ch where "ch = \<lparr>chan_cap = n, chan_buf = [(x, r x)]\<rparr>"
  define s2 where "s2 = s1\<lparr>workers := (workers s1)(x := Finished), results := ch\<rparr>"
  define s3 where "s3 = s2\<lparr>results := make_chan n, received := received s2 @ [(x, r x)]\<rparr>"
  have "machine_step n outcome s s1"
    unfolding s1_def using x s(4) by (intro machine_step.returns) auto
  moreover have "machine_step n outcome s1 s2"
    unfolding s2_def
    by (rule machine_step.sends [where r = "r x"])
       (use \<open>length xs < n\<close> s(3) x in \<open>simp_all add: s1_def ch_def chan_send_def make_chan_def\<close>)
  moreover have "machine_step n outcome s2 s3"
    unfolding s3_def
    by (rule machine_step.receives)
       (use \<open>length xs < n\<close> s(2) in \<open>simp_all add: s2_def s1_def ch_def chan_recv_def make_chan_def\<close>)
  ultimately have "machine_reach n outcome s3"
    using s(1) machine_reach.step by metis
  moreover have "received s3 = map (\<lambda>i. (i, r i)) (xs @ [x])" "results s3 = make_chan n"
      "workers s3 = (\<lambda>i. if i \<in> set (xs @ [x]) then Finished else Calling)"
    using s(2,4) by (auto simp: s3_def s2_def s1_def)
  ultimately show ?case by blast
qed

end
