(* ===== verification/Proxy_Properties.thy ===== *)
theory Proxy_Properties
  imports Instances Proxy_Refinement
begin

text \<open>
  The properties of the proxy (\<open>cmd/grpc-proxy\<close>, \<open>internal/grpcserver\<close>, \<open>internal/signing\<close>), each with
  a witness on a concrete deployment.
\<close>

subsection \<open>A proxy for the witnesses\<close>

definition demo_proxy :: "(gf7, gf7, u16 \<times> u64, nat, nat) proxy_env" where
  "demo_proxy =
     \<lparr>px_F = toy_frost, px_E = toy_ecdsa, px_config = demo_config, px_ecKey = 77,
      px_keyID = ''frost-k8s-v1'', px_addresses = map site_addr demo_sites\<rparr>"

lemma demo_proxy_simps [simp]:
  "px_F demo_proxy = toy_frost" "px_E demo_proxy = toy_ecdsa" "px_config demo_proxy = demo_config"
  "px_ecKey demo_proxy = 77" "px_keyID demo_proxy = ''frost-k8s-v1''"
  "px_addresses demo_proxy = map site_addr demo_sites" "cfg_Threshold demo_config = threshold"
  by (simp_all add: demo_proxy_def demo_config_def threshold_def)

lemma show_nat_3: "show_nat 3 = ''3''"
  by (simp add: show_nat.simps [of 3] digit_def char_of_eq_iff)

lemma demo_deployment: "up \<subseteq> {..<5} \<Longrightarrow> deployment_ok toy_frost demo_sites up"
  using demo_sites_ok toy_codecs by (auto simp: deployment_ok_def demo_sites_def demo_site_def)

lemma demo_sign: "\<exists>sig. SignES256 toy_ecdsa rnd 77 m = Ret sig"
  by (simp add: SignES256_Ret toy_ecdsa_def)

subsection \<open>Signing\<close>

text \<open>
  C1. End to end: against signers that run the program of \<open>cmd/signer\<close>, of which exactly those in \<open>up\<close>
  answer, a signing request returns the proxy's header and its ES256 signature if at least three are
  up, and otherwise the error that says how many were; whatever the order in which the goroutines'
  results arrive in either round.
\<close>

theorem proxy_signs_with_real_signers:
  assumes "deployment_ok F sites up" "frost_complete F (px_config X) valid"
    and "px_F X = F" "px_addresses X = map site_addr sites" "cfg_Threshold (px_config X) = threshold"
    and "\<forall>j \<in> up. valid (st_Signer (ws ! j))"
    and "inj_on (\<lambda>j. Signer_Identifier F (st_Signer (ws ! j))) up"
    and "valid_run (length sites) (real_run up sites ws order1 order2 rnd)" "ascii claims"
    and "SignES256 (px_E X) rnd (px_ecKey X) (jwt_header (px_keyID X) @ ''.'' @ claims) = Ret sig"
  shows "makeSignFn X (real_run up sites ws order1 order2 rnd) claims =
    (if threshold \<le> card up then Ret (jwt_header (px_keyID X), sig) else Err (not_enough (card up)))"
  by (rule makeSignFn_real [OF assms])

theorem proxy_signs_with_real_signers_witness:
  "\<exists>sig. makeSignFn demo_proxy
     (real_run {0, 2, 4} demo_sites demo_states [4, 3, 2, 1, 0] [2, 0, 1] 9) ''eyJ9'' =
       Ret (jwt_header ''frost-k8s-v1'', sig)"
proof -
  let ?m = "jwt_header (px_keyID demo_proxy) @ ''.'' @ ''eyJ9''"
  obtain sig where sig: "SignES256 (px_E demo_proxy) 9 (px_ecKey demo_proxy) ?m = Ret sig"
    using demo_sign by (metis demo_proxy_simps(2,4))
  have up: "{0, 2, 4} \<subseteq> {..<5 :: nat}" by simp
  have run: "valid_run (length demo_sites)
      (real_run {0, 2, 4} demo_sites demo_states [4, 3, 2, 1, 0] [2, 0, 1] (9 :: nat))"
    by (auto simp: valid_run_def real_run_def threshold_def)
  have "ascii ''eyJ9''" by (simp add: ascii_def)
  from proxy_signs_with_real_signers [OF demo_deployment [OF up] toy_complete demo_proxy_simps(1,6)
      _ _ demo_identifiers [OF up] run this sig]
  show ?thesis by (simp only: demo_proxy_simps) (simp add: threshold_def)
qed

text \<open>
  C5. Without assumptions on the signers: a \<open>Sign\<close> call gets as far as a signature only if at least
  three signers answer the first round; otherwise the caller gets the error that counts them, for every
  order in which the five results arrive.
\<close>

theorem sign_needs_three_signers:
  assumes "valid_run (length (px_addresses X)) R"
    and "card (responsive (commit_calls R) (px_addresses X)) = k" "k < 3"
  shows "Server_Sign \<lparr>srv_signFn = makeSignFn X R, srv_keyID = px_keyID X, srv_verificationKeyPKIX = pk\<rparr>
      claims = Err (Wrap ''threshold sign'' (not_enough k)) \<and>
    err_text (Wrap ''threshold sign'' (not_enough k)) =
      ''threshold sign: not enough signers: got '' @ show_nat k @ '', need 3''"
proof -
  have "collectCommitmentsParallel (commit_calls R) (commit_order R) (px_addresses X) = Err (not_enough k)"
    using assms collectCommitments_Err [of "commit_order R" "px_addresses X" "commit_calls R"]
    by (simp add: valid_run_def threshold_def)
  then show ?thesis
    by (simp add: Server_Sign_def makeSignFn_def Let_def not_enough_def threshold_def show_nat_3)
qed

theorem sign_needs_three_signers_witness:
  "Server_Sign \<lparr>srv_signFn = makeSignFn demo_proxy
       (real_run {1, 3} demo_sites demo_states [2, 0, 4, 1, 3] [0, 1, 2] 9),
     srv_keyID = px_keyID demo_proxy, srv_verificationKeyPKIX = []\<rparr> ''eyJ9'' =
   Err (Wrap ''threshold sign'' (not_enough 2))"
proof -
  let ?R = "real_run {1, 3} demo_sites demo_states [2, 0, 4, 1, 3] [0, 1, 2] (9 :: nat)"
  have up: "{1, 3} \<subseteq> {..<5 :: nat}" by simp
  have "valid_run (length (px_addresses demo_proxy)) ?R"
    by (auto simp: valid_run_def real_run_def threshold_def)
  moreover have "card (responsive (commit_calls ?R) (px_addresses demo_proxy)) = 2"
    using responsive_real [OF demo_deployment [OF up], of demo_states]
    by (simp only: demo_proxy_simps real_run_def run.select_convs) simp
  ultimately show ?thesis
    using sign_needs_three_signers [of demo_proxy ?R 2 "[]" "''eyJ9''"] by simp
qed

lemma demo_signs:
  assumes "up \<subseteq> {..<5}" "card up = 3" "distinct order" "set order = {0..<5}"
  obtains sig where "makeSignFn demo_proxy (real_run up demo_sites demo_states order [2, 0, 1] rnd) ''eyJ9'' =
    Ret (jwt_header ''frost-k8s-v1'', sig)"
    and "valid_run (length (px_addresses demo_proxy))
      (real_run up demo_sites demo_states order [2, 0, 1] rnd)"
proof -
  let ?m = "jwt_header (px_keyID demo_proxy) @ ''.'' @ ''eyJ9''"
  obtain sig where sig: "SignES256 (px_E demo_proxy) rnd (px_ecKey demo_proxy) ?m = Ret sig"
    using demo_sign by (metis demo_proxy_simps(2,4))
  have run: "valid_run (length demo_sites) (real_run up demo_sites demo_states order [2, 0, 1] rnd)"
    using assms(3,4) by (auto simp: valid_run_def real_run_def threshold_def)
  have "ascii ''eyJ9''" by (simp add: ascii_def)
  from makeSignFn_real [OF demo_deployment [OF assms(1)] toy_complete demo_proxy_simps(1,6)
      _ _ demo_identifiers [OF assms(1)] run this sig]
  have "makeSignFn demo_proxy (real_run up demo_sites demo_states order [2, 0, 1] rnd) ''eyJ9'' =
    Ret (jwt_header ''frost-k8s-v1'', sig)"
    using assms(2) by (simp only: demo_proxy_simps) (simp add: threshold_def)
  then show thesis using that run by simp
qed

text \<open>
  C6. One bad signer of five is enough to make signing fail, however many others are ready.  A signer
  whose result is among the first three and decodes as a commitment message is chosen whatever the
  status of its answer; if its commitment is then not one, or its \<open>/sign\<close> call fails, the request fails:
  nobody else is asked in its place.
\<close>

theorem one_bad_signer_fails_request:
  assumes "valid_run (length (px_addresses X)) R" "b \<in> set (take threshold (commit_order R))"
    and "commit_calls R b (px_addresses X ! b @ ''/commit'') [] = Ret resp"
    and "decode_CommitmentResponse (resp_body resp) = Ret c"
    and "\<not> is_ret (Commitment_DecodeHex (px_F X) (Commitment c)) \<or>
      (\<forall>i body. \<not> is_ret (sign_calls R i (px_addresses X ! b @ ''/sign'') body))"
  shows "\<not> is_ret (makeSignFn X R claims)"
proof
  assume "is_ret (makeSignFn X R claims)"
  then obtain h sig where "makeSignFn X R claims = Ret (h, sig)" by (auto simp: is_ret_iff)
  then obtain cs act ss z where
    col: "collectCommitmentsParallel (commit_calls R) (commit_order R) (px_addresses X) = Ret (cs, act)"
    and sh: "collectSharesParallel (sign_calls R) (sign_order R) (h @ ''.'' @ claims) cs act = Ret ss"
    and agg: "aggregateSignature (px_F X) (px_config X) (h @ ''.'' @ claims) cs ss = Ret z"
    unfolding makeSignFn_Ret by blast
  have run: "distinct (commit_order R)" "set (commit_order R) = {0..<length (px_addresses X)}"
      "set (sign_order R) = {0..<threshold}"
    using assms(1) by (simp_all add: valid_run_def)
  from collectCommitments_Ret [OF col run(1,2)] obtain js where
    js: "length js = threshold" "act = map (\<lambda>i. px_addresses X ! i) js"
      "list_all2 (\<lambda>i c. snd (commit_worker (commit_calls R) i (px_addresses X ! i)) = Ret c) js cs"
      "js = take threshold (filter (\<lambda>i. answered (commit_worker (commit_calls R) i (px_addresses X ! i)))
        (commit_order R))" by blast
  have b: "snd (commit_worker (commit_calls R) b (px_addresses X ! b)) = Ret c"
    using assms(3,4) by (simp add: commit_worker_def)
  then have "b \<in> set js"
    unfolding js(4) by (intro early_answer_chosen [OF assms(2)]) (simp add: answered_def)
  then obtain k where k: "k < threshold" "js ! k = b" using js(1) by (auto simp: in_set_conv_nth)
  from assms(5) show False
  proof
    assume bad: "\<not> is_ret (Commitment_DecodeHex (px_F X) (Commitment c))"
    have "k < length cs" "cs ! k = c"
      using js(3) k js(1) b by (auto simp: list_all2_conv_all_nth)
    then have "c \<in> set cs" by force
    moreover have "is_ret (decode_commitments (px_F X) cs)"
      using agg by (auto simp: aggregateSignature_def bind_go_eq_Ret)
    ultimately show False using bad by (simp add: decode_commitments_def traverse_ret_all)
  next
    assume bad: "\<forall>i body. \<not> is_ret (sign_calls R i (px_addresses X ! b @ ''/sign'') body)"
    have "act ! k = px_addresses X ! b" using k js(1,2) by simp
    then have "\<not> is_ret (share_worker (sign_calls R) body k (act ! k))" for body
      using bad by (auto simp: share_worker_def is_ret_iff bind_go_eq_Ret)
    moreover have "k \<in> set (sign_order R)" using k(1) run(3) by simp
    ultimately show False using sh collectShares_ret by (metis is_ret_iff)
  qed
qed

text \<open>In the witness one of five signers that are all up answers \<open>{}\<close> with status 503.\<close>

theorem one_bad_signer_fails_request_witness:
  "\<not> is_ret (makeSignFn demo_proxy ((real_run {..<5} demo_sites demo_states [0, 1, 2, 3, 4] [0, 1, 2] (9 :: nat))
     \<lparr>commit_calls := (\<lambda>i url body. if i = 0
        then Ret \<lparr>status = 503, content_type = ''application/json'', resp_body = json_Encode (obj [])\<rparr>
        else fst (reach {..<5} demo_sites demo_states url body))\<rparr>) ''eyJ9'')"
proof -
  let ?resp = "\<lparr>status = 503, content_type = ''application/json'', resp_body = json_Encode (obj [])\<rparr>"
  let ?R = "(real_run {..<5} demo_sites demo_states [0, 1, 2, 3, 4] [0, 1, 2] (9 :: nat))
     \<lparr>commit_calls := (\<lambda>i url body. if i = 0 then Ret ?resp
        else fst (reach {..<5} demo_sites demo_states url body))\<rparr>"
  have run: "valid_run (length (px_addresses demo_proxy)) ?R" "0 \<in> set (take threshold (commit_order ?R))"
    by (auto simp: valid_run_def real_run_def threshold_def)
  have call: "commit_calls ?R 0 (px_addresses demo_proxy ! 0 @ ''/commit'') [] = Ret ?resp" by simp
  have decode: "decode_CommitmentResponse (resp_body ?resp) = Ret zero_CommitmentResponse"
    by (simp add: decode_CommitmentResponse_def json_Decode_Encode canonical_obj depth_obj
        into_CommitmentResponse_def into_struct_def obj_def json_max_depth_def)
  have "Commitment_DecodeHex (px_F demo_proxy) (Commitment zero_CommitmentResponse) = Err (Msg ''bad text'')"
    by (simp add: toy_frost_def text_number_def zero_CommitmentResponse_def ParseUint_def)
  then have "\<not> is_ret (Commitment_DecodeHex (px_F demo_proxy) (Commitment zero_CommitmentResponse))" by simp
  from one_bad_signer_fails_request [OF run call decode disjI1 [OF this]] show ?thesis .
qed

lemmas demo_run_1 = demo_signs [of "{0, 2, 4}" "[4, 3, 2, 1, 0]"]
lemmas demo_run_2 = demo_signs [of "{1, 2, 3}" "[0, 1, 2, 3, 4]"]

text \<open>
  C3. A token that is handed out: its header is the proxy's and decodes to the text with the key's
  identifier, its signature, by a P-256 key, has 86 characters and is accepted for \<open>header.claims\<close> under the proxy's
  key, and behind it stand three different signers that answered the first round, whose shares over
  the same text were all collected and passed FROST aggregation.
\<close>

theorem signed_token_sound:
  assumes "makeSignFn X R claims = Ret (h, sig)" "ecdsa_lawful (px_E X)"
    "p256_key (px_E X) (px_ecKey X)" "valid_run (length (px_addresses X)) R"
  shows "h = jwt_header (px_keyID X) \<and> is_ret (b64_RawURL_decode h) \<and> CHR ''.'' \<notin> set (h @ sig) \<and>
    length sig = 86 \<and> es256_accepts (px_E X) (px_ecKey X) (h @ ''.'' @ claims) sig \<and>
    (\<exists>js cs ss. length js = 3 \<and> distinct js \<and> set js \<subseteq> responsive (commit_calls R) (px_addresses X) \<and>
       list_all2 (\<lambda>i c. snd (commit_worker (commit_calls R) i (px_addresses X ! i)) = Ret c) js cs \<and>
       collectSharesParallel (sign_calls R) (sign_order R) (h @ ''.'' @ claims) cs
         (map (\<lambda>i. px_addresses X ! i) js) = Ret ss \<and> length ss = 3 \<and>
       is_ret (aggregateSignature (px_F X) (px_config X) (h @ ''.'' @ claims) cs ss))"
proof -
  from assms(1) obtain cs act ss z where
    c: "collectCommitmentsParallel (commit_calls R) (commit_order R) (px_addresses X) = Ret (cs, act)"
    and s: "collectSharesParallel (sign_calls R) (sign_order R) (h @ ''.'' @ claims) cs act = Ret ss"
    and a: "aggregateSignature (px_F X) (px_config X) (h @ ''.'' @ claims) cs ss = Ret z"
    and e: "SignES256 (px_E X) (rand_read R) (px_ecKey X) (h @ ''.'' @ claims) = Ret sig"
    and h: "h = jwt_header (px_keyID X)"
    unfolding makeSignFn_Ret by blast
  from collectCommitments_Ret [OF c] assms(4) obtain js where
    "length js = threshold" "distinct js" "set js \<subseteq> responsive (commit_calls R) (px_addresses X)"
    "act = map (\<lambda>i. px_addresses X ! i) js"
    "list_all2 (\<lambda>i c. snd (commit_worker (commit_calls R) i (px_addresses X ! i)) = Ret c) js cs"
    unfolding valid_run_def by blast
  moreover have "length ss = threshold"
    using s assms(4) distinct_card [of "sign_order R"]
    by (auto simp: collectSharesParallel_def Let_def valid_run_def dest!: traverse_length)
  moreover have "CHR ''.'' \<notin> set (h @ sig)" "is_ret (b64_RawURL_decode h)"
    using e b64_no_dot by (auto simp: h jwt_header_def encodeBase64URL_def SignES256_Ret b64_decode_encode)
  moreover have "is_ret (aggregateSignature (px_F X) (px_config X) (h @ ''.'' @ claims) cs ss)"
    unfolding a by simp
  ultimately show ?thesis
    using s h SignES256_accepted [OF assms(2,3) e] unfolding threshold_def by blast
qed

theorem signed_token_sound_witness:
  "\<exists>sig. length sig = 86 \<and>
     es256_accepts toy_ecdsa 77 (jwt_header ''frost-k8s-v1'' @ ''.'' @ ''eyJ9'') sig"
proof -
  obtain sig where "makeSignFn demo_proxy
      (real_run {0, 2, 4} demo_sites demo_states [4, 3, 2, 1, 0] [2, 0, 1] 9) ''eyJ9'' =
        Ret (jwt_header ''frost-k8s-v1'', sig)"
    "valid_run (length (px_addresses demo_proxy))
      (real_run {0, 2, 4} demo_sites demo_states [4, 3, 2, 1, 0] [2, 0, 1] (9 :: nat))"
    by (rule demo_run_1) auto
  from signed_token_sound [OF this(1) _ _ this(2)] toy_ecdsa_lawful toy_p256_key [of 77] show ?thesis by auto
qed

text \<open>
  What the token says does not depend on which signers took part: two runs that end in a token for
  the same claims, and read the same randomness, give the same token.  The signers are a gate in front
  of the proxy's own key.
\<close>

theorem token_independent_of_signers:
  assumes "makeSignFn X R claims = Ret t" "makeSignFn X R' claims = Ret t'" "rand_read R' = rand_read R"
  shows "t' = t"
  using assms by (cases t; cases t') (auto simp: makeSignFn_Ret)

theorem token_independent_of_signers_witness:
  "\<exists>t. makeSignFn demo_proxy
      (real_run {0, 2, 4} demo_sites demo_states [4, 3, 2, 1, 0] [2, 0, 1] 9) ''eyJ9'' = Ret t \<and>
    makeSignFn demo_proxy
      (real_run {1, 2, 3} demo_sites demo_states [0, 1, 2, 3, 4] [2, 0, 1] 9) ''eyJ9'' = Ret t"
proof -
  let ?R1 = "real_run {0, 2, 4} demo_sites demo_states [4, 3, 2, 1, 0] [2, 0, 1] (9 :: nat)"
  let ?R2 = "real_run {1, 2, 3} demo_sites demo_states [0, 1, 2, 3, 4] [2, 0, 1] (9 :: nat)"
  obtain sig where r1: "makeSignFn demo_proxy ?R1 ''eyJ9'' = Ret (jwt_header ''frost-k8s-v1'', sig)"
    by (rule demo_run_1) auto
  obtain sig' where r2: "makeSignFn demo_proxy ?R2 ''eyJ9'' = Ret (jwt_header ''frost-k8s-v1'', sig')"
    by (rule demo_run_2) auto
  have "rand_read ?R2 = rand_read ?R1" by (simp add: real_run_def)
  from token_independent_of_signers [OF r1 r2 this] r1 r2 show ?thesis by simp
qed

subsection \<open>Goroutines and channels\<close>

text \<open>
  C17. The goroutines of a round, as long as every call returns: from every reachable state the collector
  can get all results, and has them in every state from which no step is possible; no goroutine that has
  a result waits for the channel; and no schedule is longer than the work that remains.
\<close>

theorem goroutines_make_progress:
  assumes "machine_reach n outcome s" "\<forall>i < n. outcome i \<noteq> None"
  shows "(\<exists>t. (machine_step n outcome)\<^sup>*\<^sup>* s t \<and> n \<le> length (received t)) \<and>
    (\<forall>t. (machine_step n outcome)\<^sup>*\<^sup>* s t \<longrightarrow> (\<nexists>u. machine_step n outcome t u) \<longrightarrow> n \<le> length (received t)) \<and>
    (\<forall>i < n. workers s i = Sending \<longrightarrow> chan_send (results s) (i, r) \<noteq> None) \<and>
    (\<forall>k t. (machine_step n outcome ^^ k) s t \<longrightarrow> k \<le> machine_work n s)"
proof -
  have inv: "machine_inv n outcome s \<and> (\<forall>i < n. outcome i \<noteq> None)"
    using machine_reach_inv [OF assms(1)] assms(2) by simp
  have "\<forall>i < n. workers s i = Sending \<longrightarrow> chan_send (results s) (i, r) \<noteq> None"
    using send_never_blocks [OF conjunct1 [OF inv]] by simp
  moreover have "\<forall>k t. (machine_step n outcome ^^ k) s t \<longrightarrow> k \<le> machine_work n s"
    using collection.run_bounded by fastforce
  ultimately show ?thesis
    using collection.completes [OF inv] collection.stuck_final [OF _ inv] by blast
qed

theorem goroutines_make_progress_witness:
  "\<exists>t. (machine_step 5 (\<lambda>_. Some ''ok''))\<^sup>*\<^sup>* (start_machine 5) t \<and> 5 \<le> length (received t) \<and>
     (\<forall>k t. (machine_step 5 (\<lambda>_. Some ''ok'') ^^ k) (start_machine 5) t \<longrightarrow> k \<le> 15)"
proof -
  have "machine_work 5 (start_machine 5 :: string machine) = 15"
    by (simp add: machine_work_def start_machine_def make_chan_def wstate_work_def)
  with goroutines_make_progress [OF machine_reach.start, of 5 "\<lambda>_. Some ''ok''"]
  show ?thesis by fastforce
qed

text \<open>
  C7. What the collector of a finished round has received is every goroutine's result once: the
  collection from the channel is the one of a run whose order of arrival is a permutation of the
  signers, and no goroutine is left behind.
\<close>

theorem channel_implements_collection:
  assumes "machine_reach (length addrs) (\<lambda>i. Some (commit_worker post i (addrs ! i))) s"
    "length addrs \<le> length (received s)"
  shows "distinct (map fst (received s)) \<and> set (map fst (received s)) = {0..<length addrs} \<and>
    select_commitments (map snd (received s)) =
      collectCommitmentsParallel post (map fst (received s)) addrs \<and>
    (\<forall>i < length addrs. workers s i = Finished)"
proof -
  have "finished (length addrs) s = {..<length addrs}"
    by (rule machine_done [OF machine_reach_inv [OF assms(1)] assms(2)])
  then have "\<forall>i < length addrs. workers s i = Finished" by (auto simp: finished_def)
  then show ?thesis
    unfolding collectCommitmentsParallel_def machine_collects [OF assms]
    using machine_received_order(1,2) [OF assms] by blast
qed

text \<open>
  Conversely every order is possible: for each permutation of the signers there is a schedule of
  the goroutines in which the results arrive in that order.
\<close>

theorem every_order_happens:
  assumes "distinct order" "set order = {0..<length addrs}"
  shows "\<exists>s. machine_reach (length addrs) (\<lambda>i. Some (commit_worker post i (addrs ! i))) s \<and>
    map fst (received s) = order \<and>
    select_commitments (map snd (received s)) = collectCommitmentsParallel post order addrs"
proof -
  obtain s where "machine_reach (length addrs) (\<lambda>i. Some (commit_worker post i (addrs ! i))) s"
      "received s = map (\<lambda>i. (i, commit_worker post i (addrs ! i))) order"
    using machine_schedule [OF assms(1), of "length addrs" "\<lambda>i. Some (commit_worker post i (addrs ! i))"
        "\<lambda>i. commit_worker post i (addrs ! i)"] assms(2) by (auto simp: atLeast0LessThan)
  then show ?thesis by (auto simp: collectCommitmentsParallel_def o_def)
qed

theorem every_order_happens_witness:
  "\<exists>s. machine_reach (length [''a'', ''b'', ''c''])
       (\<lambda>i. Some (commit_worker (\<lambda>_ _ _. Err unreachable) i ([''a'', ''b'', ''c''] ! i))) s \<and>
     map fst (received s) = [2, 0, 1]"
proof -
  have "set [2, 0, 1] = {0..<length [''a'', ''b'', ''c'']}" by auto
  from every_order_happens [OF _ this, of "\<lambda>_ _ _. Err unreachable"] show ?thesis by auto
qed

theorem channel_implements_collection_witness:
  "\<exists>s. machine_reach (length [''a'', ''b'', ''c''])
       (\<lambda>i. Some (commit_worker (\<lambda>_ _ _. Err unreachable) i ([''a'', ''b'', ''c''] ! i))) s \<and>
     workers s 2 = Finished"
proof -
  let ?post = "\<lambda>_ _ _. Err unreachable" and ?a = "[''a'', ''b'', ''c'']"
  obtain s where s: "machine_reach (length ?a) (\<lambda>i. Some (commit_worker ?post i (?a ! i))) s"
      "received s = map (\<lambda>i. (i, commit_worker ?post i (?a ! i))) [2, 0, 1]"
    using machine_schedule [of "[2, 0, 1]" "length ?a" "\<lambda>i. Some (commit_worker ?post i (?a ! i))"
        "\<lambda>i. commit_worker ?post i (?a ! i)"] by auto
  from channel_implements_collection [OF s(1)] s(2) have "workers s 2 = Finished" by simp
  with s(1) show ?thesis by blast
qed

text \<open>The results of the first round when signer \<open>i\<close> accepts the call and never answers it.\<close>

definition one_hangs ::
  "calls \<Rightarrow> string list \<Rightarrow> nat \<Rightarrow> nat \<Rightarrow> (string \<times> CommitmentResponse go) option" where
  "one_hangs post addrs i j = (if j = i then None else Some (commit_worker post j (addrs ! j)))"

lemma one_hangs_answers:
  assumes "distinct (map fst rs)" "set (map fst rs) = {..<length addrs} - {i}"
    "\<forall>(j, r) \<in> set rs. one_hangs post addrs i j = Some r"
  shows "is_ret (select_commitments (map snd rs)) \<longleftrightarrow> threshold \<le> card (responsive post addrs - {i})"
proof -
  have "snd x = commit_worker post (fst x) (addrs ! fst x)" if "x \<in> set rs" for x
    using that assms(3) by (auto simp: one_hangs_def split: if_splits)
  then have "map snd rs = map (\<lambda>j. commit_worker post j (addrs ! j)) (map fst rs)" by simp
  then have "length (filter answered (map snd rs)) =
      card {j \<in> set (map fst rs). answered (commit_worker post j (addrs ! j))}"
    using length_filter_distinct [OF assms(1)] by metis
  also have "\<dots> = card (responsive post addrs - {i})"
    unfolding assms(2) by (rule arg_cong [where f = card]) (auto simp: responsive_def)
  finally show ?thesis by (simp only: select_commitments_ret)
qed

text \<open>
  C30. One signer that never answers blocks a request that the others could serve.  Whatever the schedule
  has done so far, the round comes to a state with no step, and in each such state the collector has
  the results of all other signers, waits for one more, and would return the commitments if at least
  three of the others answered.
\<close>

theorem hanging_signer_blocks:
  assumes "i < length addrs" "machine_reach (length addrs) (one_hangs post addrs i) s"
  shows "(\<exists>t. (machine_step (length addrs) (one_hangs post addrs i))\<^sup>*\<^sup>* s t \<and>
      (\<nexists>u. machine_step (length addrs) (one_hangs post addrs i) t u)) \<and>
    (\<forall>t. (machine_step (length addrs) (one_hangs post addrs i))\<^sup>*\<^sup>* s t \<and>
        (\<nexists>u. machine_step (length addrs) (one_hangs post addrs i) t u) \<longrightarrow>
      length (received t) < length addrs \<and> set (map fst (received t)) = {..<length addrs} - {i} \<and>
      (is_ret (select_commitments (map snd (received t))) \<longleftrightarrow> threshold \<le> card (responsive post addrs - {i})))"
proof -
  let ?o = "one_hangs post addrs i" and ?n = "length addrs"
  have o: "?o i = None" "\<forall>j < ?n. j \<noteq> i \<longrightarrow> ?o j \<noteq> None" by (simp_all add: one_hangs_def)
  then have inv: "machine_inv ?n ?o s \<and> i < ?n \<and> ?o i = None \<and> (\<forall>j < ?n. j \<noteq> i \<longrightarrow> ?o j \<noteq> None)"
    using machine_reach_inv [OF assms(2)] assms(1) by blast
  have inv': "machine_inv ?n ?o t" if "(machine_step ?n ?o)\<^sup>*\<^sup>* s t" for t
    using hanging.steps_inv [OF that inv] by blast
  note names = machine_received_names [OF inv' assms(1) o(1)]
  from hanging.completes [OF inv] obtain t where
    "(machine_step ?n ?o)\<^sup>*\<^sup>* s t" "{..<?n} - {i} \<subseteq> fst ` set (received t)" by blast
  then have "\<exists>t. (machine_step ?n ?o)\<^sup>*\<^sup>* s t \<and> (\<nexists>u. machine_step ?n ?o t u)" using names(5) by blast
  moreover have "length (received t) < ?n \<and> set (map fst (received t)) = {..<?n} - {i} \<and>
      (is_ret (select_commitments (map snd (received t))) \<longleftrightarrow> threshold \<le> card (responsive post addrs - {i}))"
    if t: "(machine_step ?n ?o)\<^sup>*\<^sup>* s t" "\<nexists>u. machine_step ?n ?o t u" for t
  proof -
    note fin = hanging.stuck_final [OF t(1) inv t(2)]
    show ?thesis
      using machine_hangs [OF inv' [OF t(1)] assms(1) o(1)] names(1) [OF t(1) fin]
        one_hangs_answers [OF names(2,1,3) [OF t(1) fin]] by blast
  qed
  ultimately show ?thesis by blast
qed

text \<open>Four of five signers answer, the fourth one hangs: the collector waits with four commitments.\<close>

theorem hanging_signer_blocks_witness:
  "\<exists>t. machine_reach 5 (one_hangs (\<lambda>_ _ _. Ret \<lparr>status = 200, content_type = [],
        resp_body = json_Encode (CommitmentResponse_json zero_CommitmentResponse)\<rparr>) (replicate 5 ''a'') 3) t \<and>
     set (map fst (received t)) = {0, 1, 2, 4} \<and> is_ret (select_commitments (map snd (received t)))"
proof -
  define post :: calls where "post = (\<lambda>_ _ _. Ret \<lparr>status = 200, content_type = [],
    resp_body = json_Encode (CommitmentResponse_json zero_CommitmentResponse)\<rparr>)"
  let ?a = "replicate 5 ''a''"
  have "answered (commit_worker post i a)" for i a
    using commitment_response.dec_enc [of zero_CommitmentResponse]
    by (simp add: post_def answered_def commit_worker_def wf_CommitmentResponse_def
        zero_CommitmentResponse_def)
  then have "responsive post ?a - {3} = {0, 1, 2, 4}" by (auto simp: responsive_def)
  then have three: "threshold \<le> card (responsive post ?a - {3})" by (simp add: threshold_def)
  from hanging_signer_blocks [of 3 ?a post "start_machine 5"] obtain t where
    t: "(machine_step 5 (one_hangs post ?a 3))\<^sup>*\<^sup>* (start_machine 5) t"
       "set (map fst (received t)) = {..<5} - {3}" "is_ret (select_commitments (map snd (received t)))"
    using three machine_reach.start [of 5 "one_hangs post ?a 3"] by auto
  from t(1) have "machine_reach 5 (one_hangs post ?a 3) t"
    by (induction rule: rtranclp_induct) (auto intro: machine_reach.intros)
  moreover have "{..<5} - {3} = {0, 1, 2, 4 :: nat}" by auto
  ultimately show ?thesis using t(2,3) unfolding post_def by metis
qed

text \<open>
  The second round is all or nothing: it returns shares exactly when all three signers give one,
  and otherwise the first failure in the order of arrival, under that signer's address.
\<close>

theorem shares_all_or_nothing:
  fixes cs :: "CommitmentResponse list" and m :: string
  defines "body \<equiv> json_Marshal (SignRequest_json \<lparr>Message = m, Commitments = cs\<rparr>)"
  shows "(is_ret (collectSharesParallel post order m cs act) \<longleftrightarrow>
      (\<forall>i \<in> set order. is_ret (share_worker post body i (act ! i)))) \<and>
    (\<forall>pre i rest e. order = pre @ i # rest \<and> (\<forall>j \<in> set pre. is_ret (share_worker post body j (act ! j))) \<and>
        post i (act ! i @ ''/sign'') body = Err e \<longrightarrow>
      collectSharesParallel post order m cs act = Err (Wrap (''sign from '' @ act ! i) e))"
proof (intro conjI allI impI)
  show "is_ret (collectSharesParallel post order m cs act) \<longleftrightarrow>
      (\<forall>i \<in> set order. is_ret (share_worker post body i (act ! i)))"
    by (simp add: collectShares_ret body_def)
next
  fix pre i rest e
  assume "order = pre @ i # rest \<and> (\<forall>j \<in> set pre. is_ret (share_worker post body j (act ! j))) \<and>
      post i (act ! i @ ''/sign'') body = Err e"
  then show "collectSharesParallel post order m cs act = Err (Wrap (''sign from '' @ act ! i) e)"
    by (auto simp: collectSharesParallel_def body_def [symmetric] Let_def share_worker_def
        intro!: traverse_first_error)
qed

theorem shares_all_or_nothing_witness:
  "collectSharesParallel
     (\<lambda>i url body. if i = 1 then Err unreachable
        else Ret \<lparr>status = 200, content_type = [],
                  resp_body = json_Encode (SignatureShareResponse_json zero_SignatureShareResponse)\<rparr>)
     [0, 1, 2] ''m'' [] [''a'', ''b'', ''c''] = Err (Wrap ''sign from b'' unreachable)"
proof -
  let ?post = "\<lambda>i url body. if i = 1 then Err unreachable
        else Ret \<lparr>status = 200, content_type = [],
                  resp_body = json_Encode (SignatureShareResponse_json zero_SignatureShareResponse)\<rparr>"
  let ?body = "json_Marshal (SignRequest_json \<lparr>Message = ''m'', Commitments = []\<rparr>)"
  have "is_ret (share_worker ?post ?body 0 ([''a'', ''b'', ''c''] ! 0))"
    using share_response.dec_enc [of zero_SignatureShareResponse]
    by (simp add: share_worker_def wf_SignatureShareResponse_def zero_SignatureShareResponse_def)
  then have "[0, 1, 2] = [0] @ 1 # [2] \<and>
      (\<forall>j \<in> set [0]. is_ret (share_worker ?post ?body j ([''a'', ''b'', ''c''] ! j))) \<and>
      ?post 1 ([''a'', ''b'', ''c''] ! 1 @ ''/sign'') ?body = Err unreachable"
    by simp
  from shares_all_or_nothing [THEN conjunct2, rule_format, OF this] show ?thesis by simp
qed

subsection \<open>Keys and start-up\<close>

text \<open>
  C20. The key the service publishes is the one it signs with: a token from a started process, by a P-256 key, is
  accepted under the key whose PKIX form \<open>FetchKeys\<close> returns, under the key identifier that the
  token's header names.
\<close>

theorem published_key_verifies_tokens:
  assumes "proxy_main F E T rnd env fs = (Ret P, fs')" "ecdsa_lawful E"
    "p256_key E (px_ecKey (pp_env P))" "Server_Sign (process_server P R) claims = Ret t"
  shows "Server_FetchKeys now (process_server P R) =
      Ret \<lparr>pb_Keys = [\<lparr>pb_KeyId = px_keyID (pp_env P), pb_Key = pp_pkix P,
                        pb_ExcludeFromOidcDiscovery = False\<rparr>],
           pb_DataTimestamp = now, pb_RefreshHintSeconds = 300\<rparr> \<and>
    MarshalPKIX E (px_ecKey (pp_env P)) = Ret (pp_pkix P) \<and>
    pb_Header t = jwt_header (px_keyID (pp_env P)) \<and>
    es256_accepts E (px_ecKey (pp_env P)) (pb_Header t @ ''.'' @ claims) (pb_Signature t)"
proof -
  note m = proxy_main_Ret [OF assms(1,2)]
  have "makeSignFn (pp_env P) R claims = Ret (pb_Header t, pb_Signature t)"
    using assms(4) by (simp add: Server_Sign_Ret process_server_def)
  then have "pb_Header t = jwt_header (px_keyID (pp_env P))"
      "SignES256 E (rand_read R) (px_ecKey (pp_env P)) (pb_Header t @ ''.'' @ claims) = Ret (pb_Signature t)"
    using m(5) by (auto simp: makeSignFn_Ret)
  then show ?thesis
    using m(2) SignES256_accepted(1) [OF assms(2,3)]
    by (simp add: Server_FetchKeys_def process_server_def)
qed

lemma demo_main:
  obtains P fs' where "proxy_main toy_frost toy_ecdsa toy_tls 77 (\<lambda>_. []) demo_fs = (Ret P, fs')"
    and "pp_env P = demo_proxy"
proof -
  have cert: "mtls_NewClient toy_tls ''certs/proxy.crt'' ''certs/proxy.key'' ''certs/ca.crt'' demo_fs =
      Ret \<lparr>client_Certificate = ''certkey'', client_RootCAs = [''ca'']\<rparr>"
    by (simp add: mtls_NewClient_def ReadFile_def demo_fs_def toy_tls_def)
  have none: "load_ecdsa toy_ecdsa ''data/ecdsa-signing.pem'' demo_fs = None"
    by (simp add: load_ecdsa_def ReadFile_def demo_fs_def)
  obtain fs' where key: "NewECDSAKey toy_ecdsa 77 ''data/ecdsa-signing.pem'' demo_fs = (Ret 77, fs')"
    unfolding NewECDSAKey_def none
    by (simp add: toy_ecdsa_def Create_def write_file_def demo_fs_def)
  show thesis
    using that key cert demo_coordinator_config
    by (simp add: proxy_main_def proxy_globals_def proxy_getEnv_def PublicKeyPKIX_def toy_ecdsa_def
        demo_proxy_def)
qed

lemma demo_restart:
  assumes "proxy_main toy_frost toy_ecdsa toy_tls 77 (\<lambda>_. []) demo_fs = (Ret P, fs')"
  obtains P' fs'' where "proxy_main toy_frost toy_ecdsa toy_tls 5 (\<lambda>_. []) fs' = (Ret P', fs'')"
proof -
  from assms obtain k where k: "NewECDSAKey toy_ecdsa 77 ''data/ecdsa-signing.pem'' demo_fs = (Ret k, fs')"
    by (auto simp: proxy_main_def Let_def bind_w_eq_Ret proxy_globals_def proxy_getEnv_def)
  note other = NewECDSAKey_other_files [OF k]
  have "ReadFile p fs' = ReadFile p demo_fs" if "p \<noteq> ''data/ecdsa-signing.pem''" for p
    using other that by (simp add: ReadFile_def)
  then have "coordinator_config toy_frost fs' = Ret demo_config"
      "mtls_NewClient toy_tls ''certs/proxy.crt'' ''certs/proxy.key'' ''certs/ca.crt'' fs' =
       mtls_NewClient toy_tls ''certs/proxy.crt'' ''certs/proxy.key'' ''certs/ca.crt'' demo_fs"
    using demo_coordinator_config by (simp_all add: coordinator_config_def mtls_NewClient_def)
  moreover have "NewECDSAKey toy_ecdsa 5 ''data/ecdsa-signing.pem'' fs' = (Ret k, fs')"
    by (rule NewECDSAKey_loads) (rule NewECDSAKey_persists [OF toy_ecdsa_lawful k])
  moreover have "PublicKeyPKIX toy_ecdsa k = Ret (big_Bytes k)"
    by (simp add: PublicKeyPKIX_def toy_ecdsa_def)
  ultimately show thesis
    using that assms by (auto simp: proxy_main_def Let_def bind_w_eq_Ret proxy_globals_def proxy_getEnv_def)
qed

theorem published_key_verifies_tokens_witness:
  "\<exists>P fs' sig. proxy_main toy_frost toy_ecdsa toy_tls 77 (\<lambda>_. []) demo_fs = (Ret P, fs') \<and>
     MarshalPKIX toy_ecdsa 77 = Ret (pp_pkix P) \<and>
     es256_accepts toy_ecdsa 77 (jwt_header ''frost-k8s-v1'' @ ''.'' @ ''eyJ9'') sig"
proof -
  let ?R = "real_run {0, 2, 4} demo_sites demo_states [4, 3, 2, 1, 0] [2, 0, 1] (9 :: nat)"
  obtain P fs' where P: "proxy_main toy_frost toy_ecdsa toy_tls 77 (\<lambda>_. []) demo_fs = (Ret P, fs')"
      "pp_env P = demo_proxy" by (rule demo_main)
  have key: "p256_key toy_ecdsa (px_ecKey (pp_env P))" using toy_p256_key [of 77] by (simp add: P(2))
  obtain sig where "makeSignFn demo_proxy ?R ''eyJ9'' = Ret (jwt_header ''frost-k8s-v1'', sig)"
    by (rule demo_run_1) auto
  then have "Server_Sign (process_server P ?R) ''eyJ9'' =
      Ret \<lparr>pb_Header = jwt_header ''frost-k8s-v1'', pb_Signature = sig\<rparr>"
    by (simp add: Server_Sign_Ret process_server_def P(2))
  from published_key_verifies_tokens [OF P(1) toy_ecdsa_lawful key this, of "()"] P
  have "MarshalPKIX toy_ecdsa 77 = Ret (pp_pkix P) \<and>
      es256_accepts toy_ecdsa 77 (jwt_header ''frost-k8s-v1'' @ ''.'' @ ''eyJ9'') sig" by simp
  with P(1) show ?thesis by blast
qed

text \<open>
  C36. A restart keeps the key: a process started again on the files that the first one left signs with
  the same key and publishes the same one, whatever it reads from the random source.
\<close>

theorem restart_keeps_key:
  assumes "proxy_main F E T rnd env fs = (Ret P, fs')" "ecdsa_lawful E"
    "proxy_main F E T rnd' env fs' = (Ret P', fs'')"
  shows "px_ecKey (pp_env P') = px_ecKey (pp_env P) \<and> pp_pkix P' = pp_pkix P \<and> fs'' = fs'"
proof -
  let ?path = "ps_ecdsaKeyPath (proxy_globals env)"
  have "load_ecdsa E ?path fs' = Some (px_ecKey (pp_env P))"
    by (rule proxy_main_Ret(3) [OF assms(1,2)])
  from NewECDSAKey_loads [OF this] assms(3)
  have "px_ecKey (pp_env P') = px_ecKey (pp_env P)" "fs'' = fs'"
    by (auto simp: proxy_main_def Let_def bind_w_eq_Ret)
  then show ?thesis
    using proxy_main_Ret(2) [OF assms(1,2)] proxy_main_Ret(2) [OF assms(3,2)] by simp
qed

theorem restart_keeps_key_witness:
  "\<exists>P fs' P'. proxy_main toy_frost toy_ecdsa toy_tls 77 (\<lambda>_. []) demo_fs = (Ret P, fs') \<and>
     proxy_main toy_frost toy_ecdsa toy_tls 5 (\<lambda>_. []) fs' = (Ret P', fs') \<and>
     px_ecKey (pp_env P') = 77"
proof -
  let ?main = "proxy_main toy_frost toy_ecdsa toy_tls"
  obtain P fs' where P: "?main 77 (\<lambda>_. []) demo_fs = (Ret P, fs')" "pp_env P = demo_proxy"
    by (rule demo_main)
  obtain P' fs'' where P': "?main 5 (\<lambda>_. []) fs' = (Ret P', fs'')"
    by (rule demo_restart [OF P(1)])
  from restart_keeps_key [OF P(1) toy_ecdsa_lawful P'] P P' show ?thesis by auto
qed

end
