(* ===== verification/Signer_Properties.thy ===== *)
theory Signer_Properties
  imports Instances
begin

text \<open>
  The properties of one signer (\<open>cmd/signer\<close>): what holds in every state it can reach, what each
  request does and answers, and which requests are refused.
\<close>

definition demo_signer :: "(gf7, gf7, u16 \<times> u64) signer_env" where
  "demo_signer = site_env (demo_site 1 ''https://signer-1:8081'')"

lemma demo_signer_simps [simp]:
  "se_F demo_signer = toy_frost" "se_G demo_signer = toy_group" "se_env demo_signer = demo_env 1"
  by (simp_all add: demo_signer_def demo_site_def)

subsection \<open>States\<close>

text \<open>
  C11. In every state a signer can reach from its start: each published commitment is filed under its
  own number, and a key generation in progress is this signer's, for three of five, with a polynomial
  of exactly the last three scalars drawn, so no two key generations share a coefficient.
\<close>

theorem signer_states:
  assumes "signer_reach E (start_state sg) s"
  shows "(\<forall>i c. st_Commitments s i = Some c \<longrightarrow> fc_CommitmentID c = i) \<and>
    (\<forall>p. dkgParticipant s = Some p \<longrightarrow>
       p_ID p = dkg_id (se_env E) \<and> p_Threshold p = 3 \<and> p_MaxSigners p = 5 \<and> 3 \<le> st_drawn s \<and>
       p_polynomial p = Some (map (\<lambda>i. se_draw E (st_drawn s - 3 + i)) [0..<3]))"
  using signer_reach_inv [OF assms signer_inv_start] by (simp add: signer_inv_def participant_ok_def)

theorem signer_states_witness:
  "\<exists>s p. signer_reach demo_signer (start_state (1, 0)) s \<and> dkgParticipant s = Some p \<and>
     p_Threshold p = 3 \<and> p_MaxSigners p = 5"
proof -
  let ?s = "snd (signer_serve demo_signer (start_state (1, 0)) \<lparr>req_path = ''/dkg/round1'', req_body = []\<rparr>)"
  have r: "signer_reach demo_signer (start_state (1, 0)) ?s"
    by (rule signer_reach.serve) (rule signer_reach.idle)
  have "dkgParticipant ?s \<noteq> None" by (simp add: serve_dkg dkgRound1Handler_state)
  with signer_states [OF r] r show ?thesis by blast
qed

text \<open>
  C31. Signing and key generation do not touch each other: a signing request leaves the key-generation
  half of the state as it is, every other request leaves the signing half, and a published commitment
  is only ever replaced by a new commitment under the same number.
\<close>

theorem signing_and_dkg_separate:
  "(req_path r = ''/commit'' \<or> req_path r = ''/sign'' \<longrightarrow>
      dkg_part (snd (signer_serve E s r)) = dkg_part s) \<and>
   (req_path r \<noteq> ''/commit'' \<and> req_path r \<noteq> ''/sign'' \<longrightarrow>
      signing_part (snd (signer_serve E s r)) = signing_part s) \<and>
   (st_Commitments s i = Some c \<longrightarrow>
      st_Commitments (snd (signer_serve E s r)) i = Some c \<or>
      req_path r = ''/commit'' \<and> i = fc_CommitmentID (fst (Signer_Commit (se_F E) (st_Signer s))))"
proof (intro conjI impI)
  assume "req_path r = ''/commit'' \<or> req_path r = ''/sign''"
  then show "dkg_part (snd (signer_serve E s r)) = dkg_part s"
    by (intro signing_keeps_dkg_part) (simp add: serves_signing_def)
next
  assume "req_path r \<noteq> ''/commit'' \<and> req_path r \<noteq> ''/sign''"
  then show "signing_part (snd (signer_serve E s r)) = signing_part s"
    by (intro other_keeps_signing_part) (simp add: serves_signing_def)
next
  assume "st_Commitments s i = Some c"
  then show "st_Commitments (snd (signer_serve E s r)) i = Some c \<or>
      req_path r = ''/commit'' \<and> i = fc_CommitmentID (fst (Signer_Commit (se_F E) (st_Signer s)))"
    using other_keeps_signing_part [of r E s]
    by (cases rule: signer_serve_cases [of r E s])
       (auto simp: handler_states Let_def serves_signing_def signing_part_def)
qed

theorem signing_and_dkg_separate_witness:
  "signing_part (snd (signer_serve demo_signer (start_state (1, 0)) \<lparr>req_path = ''/dkg/round1'', req_body = []\<rparr>)) =
     signing_part (start_state (1, 0) :: (gf7, gf7, u16 \<times> u64) signer_state)"
  using signing_and_dkg_separate [of "\<lparr>req_path = ''/dkg/round1'', req_body = []\<rparr>" demo_signer "start_state (1, 0)"]
  by simp

subsection \<open>Signing requests\<close>

text \<open>
  C23. \<open>/commit\<close>: the answer decodes, on the coordinator's side, to a message whose hex string is the
  commitment the signer made, with its numbers; the signer keeps that commitment under its number.
\<close>

theorem commit_request_served:
  assumes "frost_codecs (se_F E)" "Signer_Commit (se_F E) (st_Signer s) = (c, sg)"
  shows "\<exists>resp m. client_view (fst (signer_serve E s \<lparr>req_path = ''/commit'', req_body = b\<rparr>)) = Ret resp \<and>
    status resp = 200 \<and> decode_CommitmentResponse (resp_body resp) = Ret m \<and>
    Commitment_DecodeHex (se_F E) (Commitment m) = Ret c \<and>
    CommitmentID m = fc_CommitmentID c \<and> SignerID m = fc_SignerID c \<and>
    snd (signer_serve E s \<lparr>req_path = ''/commit'', req_body = b\<rparr>) =
      s\<lparr>st_Signer := sg, st_Commitments := (st_Commitments s)(CommitmentID m \<mapsto> c)\<rparr>"
proof -
  have serve: "signer_serve E s \<lparr>req_path = ''/commit'', req_body = b\<rparr> = commitHandler E s"
    by (simp add: signer_serve_def)
  from commit_answer [OF assms] obtain resp where
    "client_view (fst (commitHandler E s)) = Ret resp" "status resp = 200"
    "decode_CommitmentResponse (resp_body resp) = Ret (commitment_message (se_F E) c)" by blast
  moreover have "snd (commitHandler E s) =
      s\<lparr>st_Signer := sg, st_Commitments := (st_Commitments s)(fc_CommitmentID c \<mapsto> c)\<rparr>"
    by (simp add: commitHandler_def assms(2))
  ultimately show ?thesis
    using assms(1) unfolding serve by (auto simp: commitment_message_def frost_codecs_def)
qed

theorem commit_request_served_witness:
  "\<exists>resp m. client_view (fst (signer_serve demo_signer (start_state (1, 7))
      \<lparr>req_path = ''/commit'', req_body = []\<rparr>)) = Ret resp \<and>
    decode_CommitmentResponse (resp_body resp) = Ret m \<and> CommitmentID m = 7 \<and> SignerID m = 1"
proof -
  have "Signer_Commit (se_F demo_signer) (st_Signer (start_state (1, 7))) =
      (\<lparr>fc_CommitmentID = 7, fc_SignerID = 1, fc_Nonces = (1, 1)\<rparr>, (1, 8))"
    by (simp add: toy_frost_def start_state_def)
  from commit_request_served [OF _ this, of "[]"] toy_codecs show ?thesis by auto
qed

text \<open>
  C22. \<open>/sign\<close>, on the request a coordinator makes of a message and commitments: the library signs
  exactly that message under exactly those commitments, sorted; the answer decodes on the coordinator's
  side to its share, and only the signer object changes.
\<close>

theorem sign_request_served:
  fixes E :: "('s::field, 'e::ab_group_add, 'g) signer_env" and m :: string
  defines "request \<equiv> (\<lambda>cs. \<lparr>req_path = ''/sign'', req_body = json_Marshal (SignRequest_json
     \<lparr>Message = m, Commitments = map (commitment_message (se_F E)) cs\<rparr>)\<rparr>)"
  assumes "frost_codecs (se_F E)" "valid_utf8 m"
    "Signer_Sign (se_F E) (st_Signer s) m (CommitmentList_Sort (se_F E) cs) = (Ret sh, sg)"
  shows "(\<exists>resp r. client_view (fst (signer_serve E s (request cs))) = Ret resp \<and>
      unmarshal_SignatureShareResponse (resp_body resp) = Ret r \<and>
      SignatureShare_DecodeHex (se_F E) (Share r) = Ret sh \<and> ShareSignerID r = SignerIdentifier sh) \<and>
    snd (signer_serve E s (request cs)) = s\<lparr>st_Signer := sg\<rparr>"
proof -
  have serve: "signer_serve E s (request cs) = signHandler E s (json_Marshal (SignRequest_json
     \<lparr>Message = m, Commitments = map (commitment_message (se_F E)) cs\<rparr>))"
    by (simp add: signer_serve_def request_def)
  from sign_answer [OF assms(2-4)] obtain resp where
    "client_view (fst (signer_serve E s (request cs))) = Ret resp"
    "unmarshal_SignatureShareResponse (resp_body resp) = Ret (share_message (se_F E) sh)"
    unfolding serve by blast
  moreover have "snd (signer_serve E s (request cs)) = s\<lparr>st_Signer := sg\<rparr>"
    unfolding serve sign_state [OF assms(2,3)] assms(4) by simp
  ultimately show ?thesis using assms(2) by (auto simp: share_message_def frost_codecs_def)
qed

theorem sign_request_served_witness:
  "\<exists>resp r. client_view (fst (signer_serve demo_signer (start_state (1, 1))
      \<lparr>req_path = ''/sign'', req_body = json_Marshal (SignRequest_json
         \<lparr>Message = ''m'', Commitments = map (commitment_message toy_frost)
            [\<lparr>fc_CommitmentID = 0, fc_SignerID = 1, fc_Nonces = (1, 1)\<rparr>]\<rparr>)\<rparr>)) = Ret resp \<and>
    unmarshal_SignatureShareResponse (resp_body resp) = Ret r \<and> ShareSignerID r = 1"
proof -
  have m: "valid_utf8 ''m''" by (rule ascii_valid_utf8) simp
  have codecs: "frost_codecs (se_F demo_signer)" using toy_codecs by simp
  have "Signer_Sign (se_F demo_signer) (st_Signer (start_state (1, 1))) ''m''
      (CommitmentList_Sort (se_F demo_signer) [\<lparr>fc_CommitmentID = 0, fc_SignerID = 1, fc_Nonces = (1, 1)\<rparr>]) =
      (Ret \<lparr>SignerIdentifier = 1, share_value = 1\<rparr>, (1, 1))"
    by (simp add: toy_frost_def start_state_def)
  from sign_request_served [OF codecs m this] show ?thesis by (auto simp del: list.map)
qed

text \<open>
  C34. \<open>/sign\<close> refuses, and does not touch the state, when the body is not the JSON of a request or one
  of its hex strings is not a commitment (status 400, the first failure's text); a refusal of the
  library is passed on with status 500.
\<close>

theorem sign_request_refused:
  "(decode_SignRequest b = Err e \<longrightarrow>
      signer_serve E s \<lparr>req_path = ''/sign'', req_body = b\<rparr> = (http_Error 400 (err_text e), s)) \<and>
   (decode_SignRequest b = Ret req \<and> Commitments req = good @ bad # rest \<and>
      (\<forall>c \<in> set good. is_ret (Commitment_DecodeHex (se_F E) (Commitment c))) \<and>
      Commitment_DecodeHex (se_F E) (Commitment bad) = Err e \<longrightarrow>
      signer_serve E s \<lparr>req_path = ''/sign'', req_body = b\<rparr> = (http_Error 400 (err_text e), s)) \<and>
   (decode_SignRequest b = Ret req \<and> decode_commitments (se_F E) (Commitments req) = Ret cs \<and>
      Signer_Sign (se_F E) (st_Signer s) (Message req) (CommitmentList_Sort (se_F E) cs) = (Err e, sg) \<longrightarrow>
      signer_serve E s \<lparr>req_path = ''/sign'', req_body = b\<rparr> =
        (http_Error 500 (err_text e), s\<lparr>st_Signer := sg\<rparr>))"
proof -
  have serve: "signer_serve E s \<lparr>req_path = ''/sign'', req_body = b\<rparr> = signHandler E s b"
    by (simp add: signer_serve_def)
  have "decode_commitments (se_F E) (good @ bad # rest) = Err e"
    if "\<forall>c \<in> set good. is_ret (Commitment_DecodeHex (se_F E) (Commitment c))"
      "Commitment_DecodeHex (se_F E) (Commitment bad) = Err e"
    unfolding decode_commitments_def by (rule traverse_first_error) (use that in auto)
  then show ?thesis
    unfolding serve
    by (auto simp: signHandler_def StatusBadRequest_def StatusInternalServerError_def)
qed

theorem sign_request_refused_witness:
  "signer_serve demo_signer (start_state (1, 0)) \<lparr>req_path = ''/sign'', req_body = []\<rparr> =
     (http_Error 400 ''EOF'', start_state (1, 0))"
proof -
  have "decode_SignRequest [] = Err io_EOF" by (simp add: decode_SignRequest_def json_Decode_empty)
  with sign_request_refused [of "[]" io_EOF demo_signer "start_state (1, 0)"] show ?thesis
    by (simp add: io_EOF_def)
qed

subsection \<open>Key generation requests\<close>

text \<open>
  C35. The error "round1 not completed" of \<open>Round2\<close> is never sent: a signer that has not done round 1
  has no participant, on which the handler panics, so that the client sees its connection end; one that
  has done it answers with a share.
\<close>

theorem round1_not_completed_unreachable:
  assumes "signer_reach E (start_state sg) s" "dkg_lawful (se_G E)"
  shows "dkgRound2Handler E s path \<noteq> http_Error StatusInternalServerError ''round1 not completed'' \<and>
    (dkgParticipant s = None \<and> n < 2 ^ 16 \<longrightarrow>
      client_view (fst (signer_serve E s \<lparr>req_path = round2_path n, req_body = b\<rparr>)) = Err conn_error)"
proof
  show "dkgRound2Handler E s path \<noteq> http_Error StatusInternalServerError ''round1 not completed''"
  proof (cases "dkgParticipant s")
    case None
    then show ?thesis
      by (auto simp: dkgRound2Handler_def http_Error_def StatusBadRequest_def
          StatusInternalServerError_def Let_def split: sum.splits)
  next
    case (Some p)
    then have "p_polynomial p = Some (map (\<lambda>i. se_draw E (st_drawn s - 3 + i)) [0..<3])"
      using signer_reach_inv [OF assms(1) signer_inv_start] by (simp add: signer_inv_def participant_ok_def)
    then have "\<exists>pkg. Round2 (se_G E) p t = Ret pkg" for t
      using Round2_share [OF assms(2), of p] by force
    then show ?thesis
      using Some by (auto simp: dkgRound2Handler_def http_Error_def json_reply_def StatusBadRequest_def
          StatusInternalServerError_def Let_def split: sum.splits go.splits) (metis go.distinct)+
  qed
  show "dkgParticipant s = None \<and> n < 2 ^ 16 \<longrightarrow>
      client_view (fst (signer_serve E s \<lparr>req_path = round2_path n, req_body = b\<rparr>)) = Err conn_error"
    unfolding serve_dkg fst_conv
    by (simp add: dkgRound2Handler_def round2_path_def ParseUint_show client_view_def)
qed

theorem round1_not_completed_unreachable_witness:
  "client_view (fst (signer_serve demo_signer (start_state (1, 0))
     \<lparr>req_path = round2_path 2, req_body = []\<rparr>)) = Err conn_error"
  using round1_not_completed_unreachable [OF signer_reach.idle, of demo_signer "(1, 0)" "[]" 2 "[]"]
    toy_group_lawful
  by (simp add: start_state_def)

text \<open>
  C32. \<open>/dkg/round2/n\<close> after round 1: for every \<open>n\<close> below \<open>2 ^ 16\<close> the answer carries the polynomial's
  value at \<open>n\<close>, addressed to \<open>n\<close>; larger numbers are refused, none is taken modulo \<open>2 ^ 16\<close>.
\<close>

theorem round2_share_for_number:
  assumes "signer_reach E (start_state sg) s" "dkg_lawful (se_G E)" "dkgParticipant s = Some p"
  shows "\<exists>f. p_polynomial p = Some f \<and> length f = 3 \<and>
    (if n < 2 ^ 16 then
       (\<exists>resp pkg. client_view (fst (signer_serve E s \<lparr>req_path = round2_path n, req_body = b\<rparr>)) = Ret resp \<and>
          unmarshal_SharePackage (resp_body resp) = Ret pkg \<and> FromID pkg = dkg_id (se_env E) \<and>
          unat (ToID pkg) = n \<and> open_share (se_G E) pkg = Ret (poly_value f (of_nat n)))
     else fst (signer_serve E s \<lparr>req_path = round2_path n, req_body = b\<rparr>) =
       http_Error StatusBadRequest ''invalid toID'')"
proof -
  let ?f = "map (\<lambda>i. se_draw E (st_drawn s - 3 + i)) [0..<3]"
  have p: "p_ID p = dkg_id (se_env E)" "p_polynomial p = Some ?f"
    using signer_reach_inv [OF assms(1) signer_inv_start] assms(3)
    by (simp_all add: signer_inv_def participant_ok_def)
  have "?f \<noteq> []" by simp
  note answer = round2_answer [OF assms(2,3) p(2) this]
  show ?thesis
  proof (cases "n < 2 ^ 16")
    case True
    from answer [OF True] obtain resp pkg where
      "client_view (dkgRound2Handler E s (round2_path n)) = Ret resp"
      "unmarshal_SharePackage (resp_body resp) = Ret pkg" "FromID pkg = p_ID p" "ToID pkg = of_nat n"
      "open_share (se_G E) pkg = Ret (poly_value ?f (of_nat n))" by blast
    moreover have "unat (of_nat n :: u16) = n" using True by (simp add: unat_of_nat take_bit_nat_eq_self)
    ultimately show ?thesis using True p by (auto simp: serve_dkg)
  next
    case False
    then have "dkgRound2Handler E s (round2_path n) = http_Error StatusBadRequest ''invalid toID''"
      by (simp add: dkgRound2Handler_def round2_path_def ParseUint_show)
    then show ?thesis using p(2) False by (simp add: serve_dkg)
  qed
qed

definition demo_after_round1 :: "(gf7, gf7, u16 \<times> u64) signer_state" where
  "demo_after_round1 =
     snd (signer_serve demo_signer (start_state (1, 0)) \<lparr>req_path = ''/dkg/round1'', req_body = []\<rparr>)"

lemma demo_after_round1_reach: "signer_reach demo_signer (start_state (1, 0)) demo_after_round1"
  unfolding demo_after_round1_def by (rule signer_reach.serve) (rule signer_reach.idle)

lemma demo_after_round1_participant: "\<exists>p. dkgParticipant demo_after_round1 = Some p"
  by (simp add: demo_after_round1_def serve_dkg dkgRound1Handler_state)

theorem round2_share_for_number_witness:
  "fst (signer_serve demo_signer demo_after_round1 \<lparr>req_path = round2_path 65537, req_body = []\<rparr>) =
     http_Error StatusBadRequest ''invalid toID''"
proof -
  obtain p where "dkgParticipant demo_after_round1 = Some p" using demo_after_round1_participant by blast
  from round2_share_for_number [OF demo_after_round1_reach _ this, of 65537 "[]"] toy_group_lawful
  show ?thesis by auto
qed

text \<open>
  \<open>/dkg/round2/0\<close> hands the signer's secret to whoever asks: the share for 0 is the constant
  coefficient of its polynomial, whose public value is the first commitment the signer published.
\<close>

theorem round2_zero_reveals_secret:
  assumes "dkg_lawful (se_G E)"
    and "s' = snd (signer_serve E s \<lparr>req_path = ''/dkg/round1'', req_body = b\<rparr>)"
  shows "\<exists>resp0 c resp pkg secret rest.
    client_view (fst (signer_serve E s \<lparr>req_path = ''/dkg/round1'', req_body = b\<rparr>)) = Ret resp0 \<and>
    unmarshal_DkgCommitment (resp_body resp0) = Ret c \<and>
    client_view (fst (signer_serve E s' \<lparr>req_path = ''/dkg/round2/0'', req_body = b'\<rparr>)) = Ret resp \<and>
    unmarshal_SharePackage (resp_body resp) = Ret pkg \<and> open_share (se_G E) pkg = Ret secret \<and>
    CoeffCommitments c \<noteq> [] \<and> open_commitment (se_G E) (hd (CoeffCommitments c)) = Ret (base_mul (se_G E) secret) \<and>
    (\<exists>p. dkgParticipant s' = Some p \<and> p_polynomial p = Some (secret # rest))"
proof -
  have s': "s' = snd (dkgRound1Handler E s)" by (simp add: assms(2) serve_dkg)
  from round1_answer [OF assms(1), of s] obtain resp0 c p f where
    r1: "client_view (fst (dkgRound1Handler E s)) = Ret resp0" "unmarshal_DkgCommitment (resp_body resp0) = Ret c"
      "dkgParticipant s' = Some p" "p_polynomial p = Some f" "length f = 3" "commits_to (se_G E) c f"
    unfolding s' by blast
  then obtain secret rest where f: "f = secret # rest" by (cases f) auto
  have "show_nat 0 = ''0''" by (simp add: show_nat.simps [of 0] digit_def char_of_eq_iff)
  then have path: "round2_path 0 = ''/dkg/round2/0''" by (simp add: round2_path_def)
  have "f \<noteq> []" using f by simp
  from round2_answer [OF assms(1) r1(3,4) this, of 0] obtain resp pkg where
    r2: "client_view (dkgRound2Handler E s' (round2_path 0)) = Ret resp"
      "unmarshal_SharePackage (resp_body resp) = Ret pkg" "open_share (se_G E) pkg = Ret secret"
    using f by auto
  have "signer_serve E s' \<lparr>req_path = ''/dkg/round2/0'', req_body = b'\<rparr> =
      (dkgRound2Handler E s' (round2_path 0), s')"
    unfolding path [symmetric] by (rule serve_dkg)
  moreover have "CoeffCommitments c \<noteq> []" "open_commitment (se_G E) (hd (CoeffCommitments c)) =
      Ret (base_mul (se_G E) secret)"
    using r1(6) by (auto simp: commits_to_def f list_all2_Cons2)
  ultimately show ?thesis using r1 r2 by (auto simp: serve_dkg f)
qed

theorem round2_zero_reveals_secret_witness:
  "\<exists>secret rest p. dkgParticipant demo_after_round1 = Some p \<and> p_polynomial p = Some (secret # rest)"
  using round2_zero_reveals_secret [of demo_signer demo_after_round1 "start_state (1, 0)" "[]" "[]"]
    toy_group_lawful
  by (simp add: demo_after_round1_def) blast

subsection \<open>The listener\<close>

text \<open>
  A signer lets every client in: in both ways it can listen, a client that shows no certificate of
  the configured authority is admitted, also when the authority's file is there.
\<close>

theorem signer_admits_every_client:
  "listener_admits (signer_listener env fs) verified \<and>
   (is_ret (ReadFile (signer_getEnv env ''TLS_CA'' ''certs/ca.crt'') fs) \<longleftrightarrow>
      (\<exists>c k. signer_listener env fs = TLS ('':'' @ Port env) c k RequestClientCert))"
  by (simp add: signer_listener_def listener_admits_def Let_def)

subsection \<open>What a client can rely on\<close>

text \<open>
  The body of a success, as the client of each route reads it from a signer in state \<open>s\<close>, and which
  route is refused with which status.  No other path has a success, and \<open>/dkg/round2\<close> is the route it
  is redirected to.
\<close>

definition success_body ::
  "('s, 'e, 'g) signer_env \<Rightarrow> ('s, 'e, 'g) signer_state \<Rightarrow> string \<Rightarrow> bytes \<Rightarrow> bool" where
  "success_body E s path b \<longleftrightarrow>
     (if path = ''/health'' then b = ''signer alive''
      else if path = ''/commit'' then
        \<exists>c. decode_CommitmentResponse b = Ret (commitment_message (se_F E) c)
      else if path = ''/sign'' then
        \<exists>sh. unmarshal_SignatureShareResponse b = Ret (share_message (se_F E) sh)
      else if path = ''/dkg/round1'' then
        \<exists>c. unmarshal_DkgCommitment b = Ret c \<and> ParticipantID c = dkg_id (se_env E) \<and>
          length (CoeffCommitments c) = 3
      else if path = ''/dkg/commitments'' then b = []
      else if strip_prefix ''/dkg/round2/'' path then
        \<exists>p pkg. dkgParticipant s = Some p \<and> unmarshal_SharePackage b = Ret pkg \<and> FromID pkg = p_ID p \<and>
          ParseUint 16 (drop 12 path) = Inr (unat (ToID pkg))
      else if path = ''/dkg/finalize'' then
        \<exists>p. dkgParticipant s = Some p \<and>
          b = json_Encode (obj [(''signer'', JStr (show_nat (unat (p_ID p)))), (''status'', JStr ''ok'')])
      else False)"

definition refusal_ok :: "string \<Rightarrow> nat \<Rightarrow> bool" where
  "refusal_ok path code \<longleftrightarrow>
     (if path = ''/health'' \<or> path = ''/commit'' then False
      else if path = ''/sign'' \<or> path = ''/dkg/finalize'' then code = 400 \<or> code = 500
      else if path = ''/dkg/round1'' then code = 500
      else if path = ''/dkg/commitments'' then code = 400
      else if strip_prefix ''/dkg/round2/'' path then code = 400 \<or> code = 500
      else if path = ''/dkg/round2'' then code = 400
      else code = 404)"

text \<open>A successful answer of the right form, a refusal of the right form, or no answer.\<close>

definition answer_ok ::
  "('s, 'e, 'g) signer_env \<Rightarrow> ('s, 'e, 'g) signer_state \<Rightarrow> string \<Rightarrow> http_response \<Rightarrow> bool" where
  "answer_ok E s path a \<longleftrightarrow>
     (if status a = 200 then success_body E s path (resp_body a)
      else content_type a = ''text/plain; charset=utf-8'' \<and> refusal_ok path (status a))"

definition outcome_ok ::
  "('s, 'e, 'g) signer_env \<Rightarrow> ('s, 'e, 'g) signer_state \<Rightarrow> string \<Rightarrow> http_outcome \<Rightarrow> bool" where
  "outcome_ok E s path r \<longleftrightarrow> (\<forall>a. client_view r = Ret a \<longrightarrow> answer_ok E s path a)"

lemma outcome_ok_simps [simp]:
  "outcome_ok E s path Aborted"
  "outcome_ok E s path (json_reply j) \<longleftrightarrow> success_body E s path (json_Encode j)"
  "code \<noteq> 200 \<Longrightarrow> outcome_ok E s path (http_Error code msg) \<longleftrightarrow> refusal_ok path code"
  by (simp_all add: outcome_ok_def answer_ok_def json_reply_body http_Error_body) (simp_all add: client_view_def)










end
