(* ===== verification/Share_Machine.thy ===== *)
theory Share_Machine
  imports Proxy_Refinement
begin

text \<open>
  The concurrency of the second round, \<open>collectSharesParallel\<close>: the goroutines of \<open>Proxy_Machine\<close> on
  a channel with room for all of them, and a collector that returns as soon as it has received a
  failure, with goroutines still running and results unread.  A \<open>share_step\<close> is a \<open>machine_step\<close>,
  except that a collector that has returned receives nothing more.
\<close>

definition collector_returned :: "nat \<Rightarrow> 'a go list \<Rightarrow> bool" where
  "collector_returned n rs \<longleftrightarrow> n \<le> length rs \<or> list_ex (\<lambda>r. \<not> is_ret r) rs"

inductive share_step ::
  "nat \<Rightarrow> (nat \<Rightarrow> 'a go option) \<Rightarrow> 'a go machine \<Rightarrow> 'a go machine \<Rightarrow> bool"
  for n :: nat and outcome :: "nat \<Rightarrow> 'a go option" where
  goroutine: "machine_step n outcome s t \<Longrightarrow> received t = received s \<Longrightarrow> share_step n outcome s t"
| collector: "machine_step n outcome s t \<Longrightarrow> \<not> collector_returned n (map snd (received s)) \<Longrightarrow>
     share_step n outcome s t"

inductive share_reach :: "nat \<Rightarrow> (nat \<Rightarrow> 'a go option) \<Rightarrow> 'a go machine \<Rightarrow> bool"
  for n :: nat and outcome :: "nat \<Rightarrow> 'a go option" where
  start: "share_reach n outcome (start_machine n)"
| step: "share_reach n outcome s \<Longrightarrow> share_step n outcome s t \<Longrightarrow> share_reach n outcome t"

text \<open>What the collector returns: the first failure it received, or all shares in order of arrival.\<close>

definition collector_answer :: "'a go machine \<Rightarrow> 'a list go" where
  "collector_answer s = traverse (\<lambda>r. r) (map snd (received s))"

inductive_simps share_step_iff: "share_step n outcome s t"

lemma share_step_machine: "share_step n outcome s t \<Longrightarrow> machine_step n outcome s t"
  by (auto simp: share_step_iff)

lemma share_reach_machine: "share_reach n outcome s \<Longrightarrow> machine_reach n outcome s"
  by (induction rule: share_reach.induct) (auto intro: machine_reach.intros share_step_machine)

lemmas share_reach_inv = machine_reach_inv [OF share_reach_machine]

text \<open>If every call returns, the collector does.\<close>

interpretation second_round: working_system "share_step n outcome"
    "\<lambda>s. machine_inv n outcome s \<and> (\<forall>i < n. outcome i \<noteq> None)" "machine_work n"
    "\<lambda>s. collector_returned n (map snd (received s))"
  for n outcome
proof
  fix s assume "machine_inv n outcome s \<and> (\<forall>i < n. outcome i \<noteq> None)"
    "\<not> collector_returned n (map snd (received s))"
  moreover from this have "length (received s) < n" by (simp add: collector_returned_def)
  ultimately show "\<exists>t. share_step n outcome s t"
    using machine_progress share_step.collector by blast
qed (auto dest: share_step_machine intro: machine_step_inv machine_step_work)

text \<open>Only the last result received can be a failure.\<close>

lemma share_reach_prefix:
  "share_reach n outcome s \<Longrightarrow> list_all is_ret (butlast (map snd (received s)))"
proof (induction rule: share_reach.induct)
  case start
  then show ?case by (simp add: start_machine_def)
next
  case (step s t)
  from step(2) show ?case
  proof cases
    case goroutine
    with step(3) show ?thesis by simp
  next
    case collector
    from collector(1) show ?thesis
    proof cases
      case (receives x ch)
      then have "received t = received s @ [x]" by simp
      with collector(2) show ?thesis
        by (auto simp: collector_returned_def list_all_iff list_ex_iff butlast_append)
    qed (use step(3) in auto)
  qed
qed

text \<open>
  Nobody is left behind: once their calls have returned, goroutines can run to their end, whether or not
  the collector still receives.
\<close>

lemma goroutine_runs:
  assumes "share_reach n outcome s" "i < n" "outcome i = Some r"
  shows "\<exists>t. (share_step n outcome)\<^sup>*\<^sup>* s t \<and> workers t = (workers s)(i := Finished) \<and>
    received t = received s"
proof -
  have sends: "\<exists>t. share_step n outcome u t \<and> workers t = (workers u)(i := Finished) \<and> received t = received u"
    if u: "share_reach n outcome u" "workers u i = Sending" for u
  proof -
    from send_never_blocks [OF share_reach_inv [OF u(1)] assms(2)] u(2) obtain ch
      where "chan_send (results u) (i, r) = Some ch" by fastforce
    from machine_step.sends [where outcome = outcome, OF assms(2) u(2) assms(3) this]
    show ?thesis using share_step.goroutine by fastforce
  qed
  show ?thesis
  proof (cases "workers s i")
    case Finished
    then have "workers s = (workers s)(i := Finished)" by auto
    then show ?thesis by auto
  next
    case Sending
    from sends [OF assms(1) this] show ?thesis by auto
  next
    case Calling
    let ?u = "s\<lparr>workers := (workers s)(i := Sending)\<rparr>"
    have step: "share_step n outcome s ?u"
      by (rule share_step.goroutine)
         (use machine_step.returns [where outcome = outcome, OF assms(2) Calling assms(3)] in simp_all)
    have "workers ?u i = Sending" by simp
    from sends [OF share_reach.step [OF assms(1) step] this] obtain t where
      "share_step n outcome ?u t" "workers t = (workers s)(i := Finished)" "received t = received s" by auto
    with step show ?thesis by (meson converse_rtranclp_into_rtranclp r_into_rtranclp)
  qed
qed

lemma share_reach_steps:
  "(share_step n outcome)\<^sup>*\<^sup>* s t \<Longrightarrow> share_reach n outcome s \<Longrightarrow> share_reach n outcome t"
  by (induction rule: rtranclp_induct) (auto intro: share_reach.step)

lemma share_reach_leftovers:
  assumes "share_reach n outcome s" "k \<le> n"
  shows "\<exists>t. (share_step n outcome)\<^sup>*\<^sup>* s t \<and> received t = received s \<and>
    (\<forall>i < k. outcome i \<noteq> None \<longrightarrow> workers t i = Finished)"
  using assms(2)
proof (induction k)
  case 0
  then show ?case by auto
next
  case (Suc k)
  then obtain t where t: "(share_step n outcome)\<^sup>*\<^sup>* s t" "received t = received s"
    "\<forall>i < k. outcome i \<noteq> None \<longrightarrow> workers t i = Finished" by auto
  show ?case
  proof (cases "outcome k")
    case None
    with t show ?thesis by (auto simp: less_Suc_eq)
  next
    case (Some r)
    from goroutine_runs [OF share_reach_steps [OF t(1) assms(1)] _ Some] Suc.prems obtain u where
      "(share_step n outcome)\<^sup>*\<^sup>* t u" "workers u = (workers t)(k := Finished)" "received u = received t"
      by auto
    with t show ?thesis by (intro exI [of _ u]) (auto simp: less_Suc_eq)
  qed
qed

text \<open>The answer of a collector that has returned is the one for every order that begins as its results did.\<close>

lemma traverse_stops:
  "list_ex (\<lambda>x. \<not> is_ret (f x)) xs \<Longrightarrow> traverse f (xs @ ys) = traverse f xs"
proof (induction xs)
  case (Cons x xs)
  then show ?case by (cases "f x") auto
qed simp

lemma share_received:
  assumes "share_reach n outcome s"
  shows "distinct (map fst (received s))" "set (map fst (received s)) \<subseteq> {0..<n}"
    and "(i, r) \<in> set (received s) \<Longrightarrow> outcome i = Some r"
proof -
  note inv = share_reach_inv [OF assms]
  show "distinct (map fst (received s))" using inv by (simp add: machine_inv_def)
  have "set (map fst (received s)) \<subseteq> finished n s" using inv unfolding machine_inv_def by auto
  then show "set (map fst (received s)) \<subseteq> {0..<n}" by (auto simp: finished_def)
  show "(i, r) \<in> set (received s) \<Longrightarrow> outcome i = Some r"
    using inv unfolding machine_inv_def by auto
qed

lemma share_answer:
  assumes "share_reach n outcome s" "collector_returned n (map snd (received s))"
    and "\<forall>i < n. \<forall>r. outcome i = Some r \<longrightarrow> r = f i"
  obtains order where "distinct order" "set order = {0..<n}"
    "take (length (received s)) order = map fst (received s)" "collector_answer s = traverse f order"
proof -
  let ?xs = "map fst (received s)"
  define order where "order = ?xs @ filter (\<lambda>i. i \<notin> set ?xs) [0..<n]"
  note rec = share_received [OF assms(1)]
  have "distinct order" using rec(1) by (auto simp: order_def)
  moreover have "set order = {0..<n}" using rec(2) by (auto simp: order_def)
  moreover have "take (length (received s)) order = ?xs" by (simp add: order_def)
  moreover have "collector_answer s = traverse f order"
  proof -
    have "snd x = f (fst x)" if "x \<in> set (received s)" for x
      using rec(2) rec(3) [of "fst x" "snd x"] assms(3) that by force
    then have vals: "map snd (received s) = map f ?xs" by simp
    have answer: "collector_answer s = traverse f ?xs"
      unfolding collector_answer_def vals by (simp add: traverse_map)
    show ?thesis
    proof (cases "n \<le> length (received s)")
      case True
      then have "card (set ?xs) = n"
        using distinct_card [OF rec(1)] card_mono [OF _ rec(2)] by simp
      then have "set ?xs = {0..<n}" using card_subset_eq [OF _ rec(2)] by simp
      then have "order = ?xs" by (simp add: order_def)
      with answer show ?thesis by simp
    next
      case False
      then have "list_ex (\<lambda>i. \<not> is_ret (f i)) ?xs"
        using assms(2) unfolding collector_returned_def vals by (simp add: list_ex_iff)
      then show ?thesis unfolding order_def answer by (rule traverse_stops [symmetric])
    qed
  qed
  ultimately show thesis by (rule that)
qed

end
