(* ===== verification/Concurrency_Properties.thy ===== *)
theory Concurrency_Properties
  imports Proxy_Properties Signer_Properties Share_Machine
begin

text \<open>
  The properties of what runs at the same time: requests in one signer, goroutines and the collector
  of the proxy's second round.
\<close>

text \<open>Two clients of one signer: the first asks for a signature, the second for a commitment.\<close>

definition two_requests :: "nat \<Rightarrow> http_request" where
  "two_requests i = \<lparr>req_path = (if i = 0 then ''/sign'' else ''/commit''), req_body = []\<rparr>"

lemma two_requests_lock:
  "request_lock (two_requests i) = Some SigningMu" "reads_body (two_requests 0)" "\<not> reads_body (two_requests 1)"
  by (simp_all add: two_requests_def request_lock_def reads_body_def Let_def)

subsection \<open>Requests in one signer\<close>

text \<open>
  C10. Whatever the schedule of the goroutines in which a signer serves its requests, the answers sent
  so far and the global variables are those of a signer that serves the same requests one at a time,
  in some order.
\<close>

theorem signer_linearizable:
  assumes "thread_reach E n reqs arrives (start_threads s0) s"
  shows "\<exists>order. distinct order \<and> set order = {i. i < n \<and> (\<exists>r. phase s i = Done r)} \<and>
    globals s = snd (serve_all E s0 (map reqs order)) \<and>
    map (phase s) order = map Done (fst (serve_all E s0 (map reqs order)))"
  using threads_linearize [OF assms] unfolding served_in_def by metis

theorem signer_linearizable_witness:
  "\<exists>s :: (gf7, gf7, u16 \<times> u64) threads.
     thread_reach demo_signer 2 two_requests (\<lambda>_. True) (start_threads (start_state (1, 0))) s \<and>
     (\<exists>r. phase s 1 = Done r) \<and>
     globals s = snd (serve_all demo_signer (start_state (1, 0)) [two_requests 1])"
proof -
  let ?r = "thread_reach demo_signer 2 two_requests (\<lambda>_. True) (start_threads (start_state (1, 0)))"
  let ?s0 = "start_threads (start_state (1, 0)) :: (gf7, gf7, u16 \<times> u64) threads"
  let ?s1 = "?s0\<lparr>holder := (holder ?s0)(SigningMu := Some 1), phase := (phase ?s0)(1 := Inside (globals ?s0))\<rparr>"
  obtain r g where serve: "signer_serve demo_signer (globals ?s0) (two_requests 1) = (r, g)" by fastforce
  let ?s2 = "?s1\<lparr>globals := put_part SigningMu g (globals ?s1), holder := (holder ?s1)(SigningMu := None),
    phase := (phase ?s1)(1 := Done r)\<rparr>"
  have "thread_step demo_signer 2 two_requests (\<lambda>_. True) ?s0 ?s1"
    by (rule thread_step.enters) (simp_all add: start_threads_def two_requests_lock)
  from thread_reach.further [OF thread_reach.here this] have s1: "?r ?s1" .
  have "thread_step demo_signer 2 two_requests (\<lambda>_. True) ?s1 ?s2"
    by (rule thread_step.leaves) (use serve in \<open>simp_all add: two_requests_lock\<close>)
  with s1 have s2: "?r ?s2" by (rule thread_reach.further)
  from signer_linearizable [OF s2] obtain order where order: "distinct order"
    "set order = {i. i < 2 \<and> (\<exists>r. phase ?s2 i = Done r)}"
    "globals ?s2 = snd (serve_all demo_signer (start_state (1, 0)) (map two_requests order))" by blast
  have "set order = {1}" unfolding order(2) by (auto simp: start_threads_def split: if_splits)
  then have "order = [1]"
    using order(1) by (cases order; cases "tl order") auto
  with order(3) have "globals ?s2 = snd (serve_all demo_signer (start_state (1, 0)) [two_requests 1])" by simp
  moreover have "\<exists>r. phase ?s2 1 = Done r" by simp
  ultimately show ?thesis using s2 by blast
qed

text \<open>
  C19. One client that announces a body and never sends it stops a signer: \<open>/sign\<close> takes the mutex before
  it reads the body, so from then on no request for the same mutex, \<open>/commit\<close> and \<open>/sign\<close> alike, is ever
  admitted, in any schedule.
\<close>

theorem stalled_client_blocks_signing:
  assumes "thread_reach E n reqs arrives (start_threads s0) s"
    and "phase s i = Inside snap" "reads_body (reqs i)" "\<not> arrives i"
    and "request_lock (reqs i) = Some m" "request_lock (reqs j) = Some m" "phase s j = Waiting"
    and "thread_reach E n reqs arrives s t"
  shows "phase t j = Waiting \<and> holder t m = Some i"
proof -
  have ok: "locks_ok n reqs s" using threads_linearize [OF assms(1)] by blast
  from stalled_reach [OF assms(8) ok locks_okD(3) [OF ok assms(2,5)] assms(3,4)] assms(6,7)
  show ?thesis by blast
qed

theorem stalled_client_blocks_signing_witness:
  "\<exists>s :: (gf7, gf7, u16 \<times> u64) threads.
     thread_reach demo_signer 2 two_requests (\<lambda>i. i \<noteq> 0) (start_threads (start_state (1, 0))) s \<and>
     (\<forall>t. thread_reach demo_signer 2 two_requests (\<lambda>i. i \<noteq> 0) s t \<longrightarrow> phase t 1 = Waiting)"
proof -
  let ?r = "thread_reach demo_signer 2 two_requests (\<lambda>i. i \<noteq> 0)"
  let ?s0 = "start_threads (start_state (1, 0)) :: (gf7, gf7, u16 \<times> u64) threads"
  let ?s1 = "?s0\<lparr>holder := (holder ?s0)(SigningMu := Some 0), phase := (phase ?s0)(0 := Inside (globals ?s0))\<rparr>"
  have "thread_step demo_signer 2 two_requests (\<lambda>i. i \<noteq> 0) ?s0 ?s1"
    by (rule thread_step.enters) (simp_all add: start_threads_def two_requests_lock)
  from thread_reach.further [OF thread_reach.here this] have s1: "?r ?s0 ?s1" .
  have inside: "phase ?s1 0 = Inside (globals ?s0)" and waiting: "phase ?s1 1 = Waiting"
    by (simp_all add: start_threads_def)
  have "\<forall>t. ?r ?s1 t \<longrightarrow> phase t 1 = Waiting"
    using stalled_client_blocks_signing [OF s1 inside two_requests_lock(2) _ two_requests_lock(1)
        two_requests_lock(1) waiting] by simp
  with s1 show ?thesis by blast
qed

text \<open>
  C9. If every body arrives, serving the requests at the same time is serving them one after the other:
  a state in which all are answered can be reached exactly if some order of the requests gives the same
  answers and the same global variables.
\<close>

theorem concurrent_is_sequential:
  assumes "\<forall>i < n. reads_body (reqs i) \<longrightarrow> arrives i"
  shows "(\<exists>s. thread_reach E n reqs arrives (start_threads s0) s \<and> (\<forall>i < n. phase s i = Done (out i)) \<and>
        globals s = g) \<longleftrightarrow>
      (\<exists>order. distinct order \<and> set order = {..<n} \<and> serve_all E s0 (map reqs order) = (map out order, g))"
    (is "?concurrent = ?sequential")
proof
  assume ?concurrent
  then obtain s where s: "thread_reach E n reqs arrives (start_threads s0) s"
    "\<forall>i < n. phase s i = Done (out i)" "globals s = g" by blast
  from threads_linearize [OF s(1)] obtain order where o: "served_in E n reqs s0 s order" by blast
  then have set: "set order = {..<n}" using s(2) by (auto simp: served_in_def)
  have outs: "map (phase s) order = map Done (map out order)" using s(2) set by auto
  have "map (phase s) order = map Done (fst (serve_all E s0 (map reqs order)))"
    using o unfolding served_in_def by blast
  from trans [OF sym [OF this] outs] have "fst (serve_all E s0 (map reqs order)) = map out order"
    by (rule map_injective) (simp add: inj_def)
  with o set s(3) show ?sequential unfolding served_in_def by (metis prod.collapse)
next
  assume ?sequential
  then obtain order where o: "distinct order" "set order = {..<n}"
    "serve_all E s0 (map reqs order) = (map out order, g)" by blast
  from order_scheduled [OF assms o(1), of E s0] o obtain s where
    s: "thread_reach E n reqs arrives (start_threads s0) s" "globals s = g"
    and ph: "map (phase s) order = map Done (map out order)" by auto
  have "phase s i = Done (out i)" if "i < n" for i
  proof -
    have "i \<in> set order" using o(2) that by simp
    then show ?thesis using ph by simp
  qed
  with s show ?concurrent by blast
qed

theorem concurrent_is_sequential_witness:
  "\<exists>s. thread_reach demo_signer 2 two_requests (\<lambda>_. True) (start_threads (start_state (1, 0))) s \<and>
     (\<forall>i < 2. \<exists>r. phase s i = Done r) \<and>
     globals s = snd (serve_all demo_signer (start_state (1, 0)) [two_requests 1, two_requests 0])"
proof -
  obtain a g where a: "signer_serve demo_signer (start_state (1, 0)) (two_requests 1) = (a, g)" by fastforce
  obtain b h where b: "signer_serve demo_signer g (two_requests 0) = (b, h)" by fastforce
  let ?out = "\<lambda>i :: nat. if i = 0 then b else a"
  have seq: "serve_all demo_signer (start_state (1, 0)) (map two_requests [1, 0]) = (map ?out [1, 0], h)"
    by (simp add: a b del: One_nat_def)
  have "distinct [1, 0 :: nat]" "set [1, 0 :: nat] = {..<2}" by auto
  with seq obtain s where "thread_reach demo_signer 2 two_requests (\<lambda>_. True) (start_threads (start_state (1, 0))) s"
    "\<forall>i < 2. phase s i = Done (?out i)" "globals s = h"
    using concurrent_is_sequential [of 2 two_requests "\<lambda>_. True" demo_signer "start_state (1, 0)" ?out h]
    by blast
  with seq show ?thesis by auto
qed

text \<open>
  C18. If every body arrives, no request waits for ever: from every reachable state the signer can go on
  until all are answered, all are answered in every state from which no move is possible, and no
  schedule of \<open>n\<close> requests has more than \<open>2 n\<close> moves.
\<close>

theorem requests_make_progress:
  assumes "thread_reach E n reqs arrives (start_threads s0) s"
    and "\<forall>i < n. reads_body (reqs i) \<longrightarrow> arrives i"
  shows "(\<exists>t. thread_reach E n reqs arrives s t \<and> (\<forall>i < n. \<exists>r. phase t i = Done r)) \<and>
    (\<forall>t. thread_reach E n reqs arrives s t \<longrightarrow> (\<nexists>u. thread_step E n reqs arrives t u) \<longrightarrow>
       (\<forall>i < n. \<exists>r. phase t i = Done r)) \<and>
    (\<forall>k t. (thread_step E n reqs arrives ^^ k) s t \<longrightarrow> k \<le> 2 * n)"
proof -
  have inv: "locks_ok n reqs s \<and> (\<forall>i < n. reads_body (reqs i) \<longrightarrow> arrives i)"
    using threads_linearize [OF assms(1)] assms(2) by blast
  have "threads_work n s \<le> (\<Sum>i<n. 2)"
    unfolding threads_work_def by (rule sum_mono) (simp add: thread_work_def split: thread.split)
  then have "\<forall>k t. (thread_step E n reqs arrives ^^ k) s t \<longrightarrow> k \<le> 2 * n"
    using serving.run_bounded by fastforce
  then show ?thesis
    unfolding thread_reach_steps
    using serving.completes [OF inv] serving.stuck_final [OF _ inv] by blast
qed

theorem requests_make_progress_witness:
  "\<exists>t :: (gf7, gf7, u16 \<times> u64) threads.
     thread_reach demo_signer 2 two_requests (\<lambda>_. True) (start_threads (start_state (1, 0))) t \<and>
     (\<forall>i < 2. \<exists>r. phase t i = Done r)"
  using requests_make_progress [where arrives = "\<lambda>_. True", OF thread_reach.here,
      of 2 two_requests demo_signer "start_state (1, 0)"] by blast

subsection \<open>Sessions that overlap\<close>

text \<open>
  C2. A signing request succeeds, with three signers up, also while every signer serves other requests
  at the same time, between its commitment and its signature for this one: signatures and commitments
  for other callers, key generation, anything, in any schedule, as long as nobody else signs under
  this session's commitments.
\<close>

theorem concurrent_requests:
  assumes "deployment_ok F sites up" "frost_concurrent F (px_config X) valid"
    and "px_F X = F" "px_addresses X = map site_addr sites" "cfg_Threshold (px_config X) = threshold"
    and "\<forall>j \<in> up. valid (st_Signer (ws ! j))"
    and "inj_on (\<lambda>j. Signer_Identifier F (st_Signer (ws ! j))) up"
    and "\<forall>j \<in> up. busy (site_env (sites ! j)) (ws ! j) (ws2 ! j)"
    and "valid_run (length sites) (later_run up sites ws ws2 order1 order2 rnd)" "ascii claims"
    and "SignES256 (px_E X) rnd (px_ecKey X) (jwt_header (px_keyID X) @ ''.'' @ claims) = Ret sig"
  shows "makeSignFn X (later_run up sites ws ws2 order1 order2 rnd) claims =
    (if threshold \<le> card up then Ret (jwt_header (px_keyID X), sig) else Err (not_enough (card up)))"
  by (rule makeSignFn_busy [OF assms])

text \<open>In the witness every signer commits for another caller in between.\<close>

theorem concurrent_requests_witness:
  "\<exists>sig. makeSignFn demo_proxy
     (later_run {0, 2, 4} demo_sites demo_states
        (map (\<lambda>j. snd (serve_all (site_env (demo_sites ! j))
             (snd (commitHandler (site_env (demo_sites ! j)) (demo_states ! j)))
             [\<lparr>req_path = ''/commit'', req_body = []\<rparr>])) [0..<5])
        [4, 3, 2, 1, 0] [2, 0, 1] 9) ''eyJ9'' =
     Ret (jwt_header ''frost-k8s-v1'', sig)"
proof -
  let ?r = "\<lparr>req_path = ''/commit'', req_body = []\<rparr> :: http_request"
  let ?ws2 = "map (\<lambda>j. snd (serve_all (site_env (demo_sites ! j))
    (snd (commitHandler (site_env (demo_sites ! j)) (demo_states ! j))) [?r])) [0..<5]"
  let ?m = "jwt_header (px_keyID demo_proxy) @ ''.'' @ ''eyJ9''"
  let ?up = "{0, 2, 4} :: nat set"
  obtain sig where sig: "SignES256 (px_E demo_proxy) 9 (px_ecKey demo_proxy) ?m = Ret sig"
    using demo_sign by (metis demo_proxy_simps(2,4))
  have up: "?up \<subseteq> {..<5 :: nat}" by simp
  have busy: "\<forall>j \<in> ?up. busy (site_env (demo_sites ! j)) (demo_states ! j) (?ws2 ! j)"
  proof
    fix j assume "j \<in> ?up"
    then have j: "j < 5" by auto
    have "busy (site_env (demo_sites ! j)) (demo_states ! j)
      (snd (serve_all (site_env (demo_sites ! j)) (snd (commitHandler (site_env (demo_sites ! j)) (demo_states ! j))) [?r]))"
      by (rule busy_serve_all) (simp add: request_ops_def spares_def)
    then show "busy (site_env (demo_sites ! j)) (demo_states ! j) (?ws2 ! j)"
      using j by (simp only: nth_map_upt diff_zero add_0)
  qed
  have run: "valid_run (length demo_sites)
      (later_run ?up demo_sites demo_states ?ws2 [4, 3, 2, 1, 0] [2, 0, 1] (9 :: nat))"
    by (auto simp: valid_run_def threshold_def)
  have "ascii ''eyJ9''" by (simp add: ascii_def)
  from concurrent_requests [OF demo_deployment [OF up] toy_concurrent demo_proxy_simps(1,6)
      _ _ demo_identifiers [OF up] busy run this sig]
  show ?thesis by (simp only: demo_proxy_simps) (simp add: threshold_def)
qed

subsection \<open>The second round of the proxy\<close>

text \<open>
  C8. The channel, goroutines and early return of \<open>collectSharesParallel\<close> implement its sequential
  description: what the collector returns is the sequential result for some order of arrival, also when
  it returns at the first failure and other calls never return; if all calls return, so does it; and it
  leaves nobody behind: every goroutine whose call has returned can still run to its end, although
  nothing more is received.
\<close>

theorem share_round_refines:
  assumes "share_reach (length act) outcome s"
    and "\<forall>i < length act. \<forall>r. outcome i = Some r \<longrightarrow> r = share_worker post
      (json_Marshal (SignRequest_json \<lparr>Message = m, Commitments = cs\<rparr>)) i (act ! i)"
  shows "(collector_returned (length act) (map snd (received s)) \<longrightarrow>
      (\<exists>order. distinct order \<and> set order = {0..<length act} \<and>
        take (length (received s)) order = map fst (received s) \<and>
        collector_answer s = collectSharesParallel post order m cs act)) \<and>
    ((\<forall>i < length act. outcome i \<noteq> None) \<longrightarrow>
      (\<exists>t. (share_step (length act) outcome)\<^sup>*\<^sup>* s t \<and> collector_returned (length act) (map snd (received t)))) \<and>
    (\<exists>t. (share_step (length act) outcome)\<^sup>*\<^sup>* s t \<and> received t = received s \<and>
      (\<forall>i < length act. outcome i \<noteq> None \<longrightarrow> workers t i = Finished))"
proof (intro conjI impI)
  assume "collector_returned (length act) (map snd (received s))"
  from share_answer [OF assms(1) this assms(2)] obtain order where
    "distinct order" "set order = {0..<length act}"
    "take (length (received s)) order = map fst (received s)"
    "collector_answer s = traverse (\<lambda>i. share_worker post
      (json_Marshal (SignRequest_json \<lparr>Message = m, Commitments = cs\<rparr>)) i (act ! i)) order" by blast
  then show "\<exists>order. distinct order \<and> set order = {0..<length act} \<and>
      take (length (received s)) order = map fst (received s) \<and>
      collector_answer s = collectSharesParallel post order m cs act"
    unfolding collectSharesParallel_def Let_def by blast
next
  assume "\<forall>i < length act. outcome i \<noteq> None"
  then show "\<exists>t. (share_step (length act) outcome)\<^sup>*\<^sup>* s t \<and> collector_returned (length act) (map snd (received t))"
    using share_reach_inv [OF assms(1)] by (intro second_round.completes) simp
qed (rule share_reach_leftovers [OF assms(1) order_refl])

text \<open>In the witness one signer is unreachable and the two others never answer.\<close>

theorem share_round_refines_witness:
  "\<exists>s order. share_reach 3 (\<lambda>i. if i = 0 then Some (wrap_err ''sign from a'' (Err unreachable)) else None) s \<and>
     distinct order \<and> set order = {0..<3} \<and> take 1 order = [0] \<and>
     collectSharesParallel (\<lambda>_ _ _. Err unreachable) order ''m'' [] [''a'', ''b'', ''c''] = collector_answer s"
proof -
  let ?e = "wrap_err ''sign from a'' (Err unreachable) :: SignatureShareResponse go"
  let ?o = "\<lambda>i :: nat. if i = 0 then Some ?e else None"
  let ?s0 = "start_machine 3 :: SignatureShareResponse go machine"
  let ?s1 = "?s0\<lparr>workers := (workers ?s0)(0 := Sending)\<rparr>"
  obtain ch where ch: "chan_send (results ?s1) (0, ?e) = Some ch" "chan_recv ch = Some ((0, ?e), make_chan 3)"
    by (simp add: start_machine_def make_chan_def chan_send_def chan_recv_def)
  let ?s2 = "?s1\<lparr>workers := (workers ?s1)(0 := Finished), results := ch\<rparr>"
  let ?s3 = "?s2\<lparr>results := make_chan 3, received := received ?s2 @ [(0, ?e)]\<rparr>"
  have "share_step 3 ?o ?s0 ?s1"
    by (rule share_step.goroutine, rule machine_step.returns) (simp_all add: start_machine_def)
  then have s1: "share_reach 3 ?o ?s1" by (rule share_reach.step [OF share_reach.start])
  have "share_step 3 ?o ?s1 ?s2"
    by (rule share_step.goroutine, rule machine_step.sends) (use ch in \<open>simp_all add: start_machine_def\<close>)
  then have s2: "share_reach 3 ?o ?s2" by (rule share_reach.step [OF s1])
  have "share_step 3 ?o ?s2 ?s3"
    by (rule share_step.collector, rule machine_step.receives)
       (use ch in \<open>simp_all add: start_machine_def collector_returned_def\<close>)
  then have "share_reach 3 ?o ?s3" by (rule share_reach.step [OF s2])
  moreover have "received ?s3 = [(0, ?e)]" by (simp add: start_machine_def)
  ultimately obtain s where s: "share_reach 3 ?o s" "received s = [(0, ?e)]" by blast
  let ?act = "[''a'', ''b'', ''c'']"
  have len: "length ?act = 3" by simp
  have returned: "collector_returned 3 (map snd (received s))" by (simp add: collector_returned_def s(2))
  have "\<forall>i < 3. \<forall>r. ?o i = Some r \<longrightarrow> r = share_worker (\<lambda>_ _ _. Err unreachable)
      (json_Marshal (SignRequest_json \<lparr>Message = ''m'', Commitments = []\<rparr>)) i (?act ! i)"
    by (simp add: share_worker_def)
  from conjunct1 [OF share_round_refines [where act = ?act, unfolded len, OF s(1) this], rule_format, OF returned]
  obtain order where
    "distinct order" "set order = {0..<3}" "take (length (received s)) order = map fst (received s)"
    "collector_answer s = collectSharesParallel (\<lambda>_ _ _. Err unreachable) order ''m'' [] ?act" by blast
  with s show ?thesis by (intro exI [of _ s] exI [of _ order]) simp
qed

end
