(* ===== verification/Dkg_Properties.thy ===== *)
theory Dkg_Properties
  imports Instances
begin

text \<open>
  The properties of the key generation (\<open>internal/dkg\<close>, \<open>cmd/dkg-coordinator\<close>): what the three
  operations of a participant achieve when they are used as the protocol asks, and what the ceremony
  that the coordinator leads achieves.
\<close>

subsection \<open>The protocol\<close>

lemma round1_deals:
  assumes "dkg_lawful G"
  shows "\<exists>c p. Round1 G draw 0 (NewParticipant i 3 5) = (Ret c, p, 3) \<and> p_ID p = i \<and>
    p_polynomial p = Some (map draw [0..<3]) \<and> commits_to G c (map draw [0..<3])"
proof -
  from commit_coeffs_open [OF assms, of "map draw [0..<3]"] obtain cs where
    "traverse (commit_coeff G) (map draw [0..<3]) = Ret cs"
    "list_all2 (\<lambda>c a. open_commitment G c = Ret (base_mul G a)) cs (map draw [0..<3])" by blast
  then show ?thesis
    by (auto simp: Round1_def NewParticipant_def commits_to_def Let_def simp del: map_map)
qed

lemma round2_deals:
  assumes "dkg_lawful G" "p_ID p = target_id i" "p_polynomial p = Some f" "f \<noteq> []" "j + 1 < 2 ^ 16"
  shows "\<exists>pkg. Round2 G p (target_id j) = Ret pkg \<and> share_ok G i j f pkg"
proof -
  from Round2_share [OF assms(1,3,4), of "target_id j"] obtain pkg where
    pkg: "Round2 G p (target_id j) = Ret pkg" "FromID pkg = p_ID p" "ToID pkg = target_id j"
      "open_share G pkg = Ret (poly_value f (of_nat (unat (target_id j))))" by blast
  then have "valid_utf8 (PkgShare pkg)" using assms(3) by (auto simp: Round2_def bind_go_eq_Ret)
  with pkg show ?thesis by (simp add: share_ok_def assms(2) target_id_unat [OF assms(5)])
qed

text \<open>
  C12. Used as Pedersen's protocol asks, the operations are correct.  For any number \<open>n\<close> of participants
  that run \<open>Round1\<close> on any scalars drawn, the packages that \<open>Round2\<close> makes for the others, added up by
  \<open>Finalize\<close>, give each a secret with the public key of it; \<open>ComputeGroupPublicKey\<close> finds in the
  commitments the key of the sum of everybody's first scalar; and the secrets of any three participants
  with different numbers interpolate to that sum.
\<close>

theorem dkg_protocol_correct:
  fixes draw :: "nat \<Rightarrow> nat \<Rightarrow> 's::field"
  assumes G: "dkg_lawful (G :: ('s, 'e::ab_group_add) dkg_group)" and n: "n < 2 ^ 16"
    and abc: "a < n" "b < n" "c < n" "(of_nat (a + 1) :: 's) \<noteq> of_nat (b + 1)"
      "(of_nat (a + 1) :: 's) \<noteq> of_nat (c + 1)" "(of_nat (b + 1) :: 's) \<noteq> of_nat (c + 1)"
  shows "\<exists>com p pkg secret.
    (\<forall>i < n. Round1 G (draw i) 0 (NewParticipant (target_id i) 3 5) = (Ret (com i), p i, 3)) \<and>
    (\<forall>i < n. \<forall>j < n. Round2 G (p i) (target_id j) = Ret (pkg i j)) \<and>
    ComputeGroupPublicKey G (map (\<lambda>i. Some (com i)) [0..<n]) = Ret (base_mul G (\<Sum>i<n. draw i 0)) \<and>
    (\<forall>j < n. \<forall>cs vk. Finalize G (p j) (map (\<lambda>i. Some (pkg i j)) (filter (\<lambda>i. i \<noteq> j) [0..<n])) cs vk =
       Ret \<lparr>Secret = secret j, VerificationKey = vk,
            PubShare = \<lparr>PublicKey = base_mul G (secret j), PubID = target_id j\<rparr>\<rparr>) \<and>
    interpolate3 (of_nat (a + 1)) (of_nat (b + 1)) (of_nat (c + 1)) (secret a) (secret b) (secret c) =
      (\<Sum>i<n. draw i 0)"
proof -
  define fs where "fs = map (\<lambda>i. map (draw i) [0..<3]) [0..<n]"
  have fs: "length fs = n" "\<forall>f \<in> set fs. length f = 3" "\<And>i. i < n \<Longrightarrow> fs ! i = map (draw i) [0..<3]"
    by (auto simp: fs_def)
  have sum: "dealt fs 0 = (\<Sum>i<n. draw i 0)"
    by (simp add: dealt_def fs_def o_def poly_value_0 upt_conv_Cons interv_sum_list_conv_sum_set_nat atLeast0LessThan)
  have "\<forall>i. \<exists>cp. Round1 G (draw i) 0 (NewParticipant (target_id i) 3 5) = (Ret (fst cp), snd cp, 3) \<and>
      p_ID (snd cp) = target_id i \<and> p_polynomial (snd cp) = Some (map (draw i) [0..<3]) \<and>
      commits_to G (fst cp) (map (draw i) [0..<3])"
    using round1_deals [OF G] by (metis fst_conv snd_conv)
  then obtain cp where cp: "\<And>i. Round1 G (draw i) 0 (NewParticipant (target_id i) 3 5) = (Ret (fst (cp i)), snd (cp i), 3)"
    "\<And>i. p_ID (snd (cp i)) = target_id i" "\<And>i. p_polynomial (snd (cp i)) = Some (map (draw i) [0..<3])"
    "\<And>i. commits_to G (fst (cp i)) (map (draw i) [0..<3])" by metis
  have "\<forall>i j. \<exists>pkg. j < n \<longrightarrow> Round2 G (snd (cp i)) (target_id j) = Ret pkg \<and>
      share_ok G i j (map (draw i) [0..<3]) pkg"
    using round2_deals [OF G cp(2,3)] n by fastforce
  then obtain pkg where pkg: "\<And>i j. j < n \<Longrightarrow> Round2 G (snd (cp i)) (target_id j) = Ret (pkg i j)"
    "\<And>i j. j < n \<Longrightarrow> share_ok G i j (map (draw i) [0..<3]) (pkg i j)" by metis
  have key: "ComputeGroupPublicKey G (map (\<lambda>i. Some (fst (cp i))) [0..<n]) = Ret (base_mul G (\<Sum>i<n. draw i 0))"
    using group_key_real [OF G, of "map (\<lambda>i. fst (cp i)) [0..<n]" fs] fs cp(4) sum by (simp add: o_def)
  have fin: "\<forall>j < n. \<forall>cs vk. Finalize G (snd (cp j)) (map (\<lambda>i. Some (pkg i j)) (filter (\<lambda>i. i \<noteq> j) [0..<n])) cs vk =
     Ret \<lparr>Secret = dealt fs (of_nat (j + 1)), VerificationKey = vk,
          PubShare = \<lparr>PublicKey = base_mul G (dealt fs (of_nat (j + 1))), PubID = target_id j\<rparr>\<rparr>"
  proof (intro allI impI)
    fix j cs vk assume j: "j < n"
    show "Finalize G (snd (cp j)) (map (\<lambda>i. Some (pkg i j)) (filter (\<lambda>i. i \<noteq> j) [0..<n])) cs vk =
     Ret \<lparr>Secret = dealt fs (of_nat (j + 1)), VerificationKey = vk,
          PubShare = \<lparr>PublicKey = base_mul G (dealt fs (of_nat (j + 1))), PubID = target_id j\<rparr>\<rparr>"
      by (rule finalize_others [OF G cp(2)]) (use j n fs cp(3) pkg(2) in auto)
  qed
  have "interpolate3 (of_nat (a + 1)) (of_nat (b + 1)) (of_nat (c + 1))
      (dealt fs (of_nat (a + 1))) (dealt fs (of_nat (b + 1))) (dealt fs (of_nat (c + 1))) = (\<Sum>i<n. draw i 0)"
    using interpolate3_dealt [OF abc(4-6) fs(2)] sum by simp
  with cp(1) pkg(1) key fin show ?thesis
    by (intro exI [of _ "\<lambda>i. fst (cp i)"] exI [of _ "\<lambda>i. snd (cp i)"] exI [of _ pkg]
        exI [of _ "\<lambda>j. dealt fs (of_nat (j + 1))"]) blast
qed

definition toy_package :: "nat \<Rightarrow> nat \<Rightarrow> gf7 list \<Rightarrow> SharePackage" where
  "toy_package i j f =
     \<lparr>FromID = target_id i, ToID = target_id j,
      PkgShare = hex_EncodeToString [char_of (gf7_val (poly_value f (of_nat (j + 1))))]\<rparr>"

definition toy_commitment :: "nat \<Rightarrow> gf7 list \<Rightarrow> DkgCommitment" where
  "toy_commitment i f =
     \<lparr>ParticipantID = target_id i,
      CoeffCommitments = map (\<lambda>a. hex_EncodeToString [char_of (gf7_val a)]) f\<rparr>"

lemma toy_package_ok: "share_ok toy_group i j f (toy_package i j f)"
  by (simp add: share_ok_def toy_package_def open_share_def hex_decode_encode toy_group_def
      del: hex_EncodeToString.simps)

lemma toy_commitment_ok: "commits_to toy_group (toy_commitment i f) f"
  by (simp add: commits_to_def toy_commitment_def open_commitment_def hex_decode_encode toy_group_def
      list_all2_map1 list_all2_same del: hex_EncodeToString.simps)

definition toy_fs :: "gf7 list list" where
  "toy_fs = [[3, 1, 2], [5, 0, 4], [6, 2, 2]]"

theorem dkg_protocol_correct_witness:
  "\<exists>p pkg secret. (\<forall>i < 3. \<forall>j < 3. Round2 toy_group (p i) (target_id j) = Ret (pkg i j)) \<and>
     interpolate3 (of_nat (0 + 1)) (of_nat (1 + 1)) (of_nat (2 + 1))
       (secret (0 :: nat)) (secret 1) (secret 2) = (\<Sum>i<3. toy_fs ! i ! 0)"
proof -
  have d: "(of_nat (0 + 1) :: gf7) \<noteq> of_nat (1 + 1)" "(of_nat (0 + 1) :: gf7) \<noteq> of_nat (2 + 1)"
      "(of_nat (1 + 1) :: gf7) \<noteq> of_nat (2 + 1)"
    unfolding gf7_eq gf7_val_of_nat by simp_all
  from dkg_protocol_correct [OF toy_group_lawful _ _ _ _ d, of 3 "\<lambda>i k. toy_fs ! i ! k"]
  show ?thesis by fastforce
qed

text \<open>
  C15. \<open>Finalize\<close> gets everybody's commitments and checks no share against them: its result does not
  depend on them, and whoever sends the last share can, knowing the values of the others, make the
  participant accept any secret at all with a well-formed package from any sender.
\<close>

theorem finalize_checks_nothing:
  assumes G: "dkg_lawful G" and p: "p_polynomial p = Some f" "f \<noteq> []"
    and pkgs: "list_all2 (\<lambda>pkg v. ToID pkg = p_ID p \<and> open_share G pkg = Ret v) pkgs vs"
  shows "(\<forall>received cs cs'. Finalize G p received cs vk = Finalize G p received cs' vk) \<and>
    (\<forall>sender target. \<exists>pkg. FromID pkg = sender \<and> ToID pkg = p_ID p \<and>
      (\<forall>cs. Finalize G p (map Some (pkgs @ [pkg])) cs vk =
       Ret \<lparr>Secret = target, VerificationKey = vk,
            PubShare = \<lparr>PublicKey = base_mul G target, PubID = p_ID p\<rparr>\<rparr>))"
proof (intro conjI allI)
  fix received cs cs' show "Finalize G p received cs vk = Finalize G p received cs' vk"
    by (simp add: Finalize_def)
next
  fix sender target
  let ?s = "target - (poly_value f (of_nat (unat (p_ID p))) + sum_list vs)"
  obtain b where b: "scalar_Unmarshal G b = Ret ?s" using G unfolding dkg_lawful_def by blast
  let ?pkg = "\<lparr>FromID = sender, ToID = p_ID p, PkgShare = hex_EncodeToString b\<rparr>"
  have "open_share G ?pkg = Ret ?s" by (simp add: open_share_def hex_decode_encode b)
  then have "list_all2 (\<lambda>pkg v. ToID pkg = p_ID p \<and> open_share G pkg = Ret v) (pkgs @ [?pkg]) (vs @ [?s])"
    using pkgs by (intro list_all2_appendI) auto
  from Finalize_secret [OF G p this]
  have "\<forall>cs. Finalize G p (map Some (pkgs @ [?pkg])) cs vk =
      Ret \<lparr>Secret = target, VerificationKey = vk,
           PubShare = \<lparr>PublicKey = base_mul G target, PubID = p_ID p\<rparr>\<rparr>"
    by (simp add: Let_def)
  then show "\<exists>pkg. FromID pkg = sender \<and> ToID pkg = p_ID p \<and> (\<forall>cs. Finalize G p (map Some (pkgs @ [pkg])) cs vk =
      Ret \<lparr>Secret = target, VerificationKey = vk,
           PubShare = \<lparr>PublicKey = base_mul G target, PubID = p_ID p\<rparr>\<rparr>)"
    by (intro exI [of _ ?pkg]) simp
qed

theorem finalize_checks_nothing_witness:
  "\<exists>pkg. \<forall>cs. Finalize toy_group
     \<lparr>p_ID = target_id 2, p_Threshold = 3, p_MaxSigners = 5, p_polynomial = Some (toy_fs ! 2)\<rparr>
     (map Some ([toy_package 0 2 (toy_fs ! 0)] @ [pkg])) cs 6 =
     Ret \<lparr>Secret = 4, VerificationKey = 6, PubShare = \<lparr>PublicKey = 4, PubID = target_id 2\<rparr>\<rparr>"
proof -
  let ?p = "\<lparr>p_ID = target_id 2, p_Threshold = 3, p_MaxSigners = 5, p_polynomial = Some (toy_fs ! 2)\<rparr>"
  have p: "p_polynomial ?p = Some (toy_fs ! 2)" "toy_fs ! 2 \<noteq> []" by (simp_all add: toy_fs_def)
  have "list_all2 (\<lambda>pkg v. ToID pkg = p_ID ?p \<and> open_share toy_group pkg = Ret v)
      [toy_package 0 2 (toy_fs ! 0)] [poly_value (toy_fs ! 0) (of_nat (2 + 1))]"
    using toy_package_ok [of 0 2 "toy_fs ! 0"] by (simp add: share_ok_def)
  from conjunct2 [OF finalize_checks_nothing [OF toy_group_lawful p this, of 6], rule_format, of "target_id 1" 4]
  show ?thesis by (auto simp: toy_group_def [THEN arg_cong [where f = base_mul]])
qed

subsection \<open>The ceremony\<close>

lemma demo_ceremony_ok: "ceremony_ok toy_group demo_sites demo_states"
proof -
  have "dkg_id (demo_env (i + 1)) = target_id i" if "i < 5" for i
    using that by (simp add: dkg_id_def config_SignerID_def demo_env_def Atoi_show target_id_def)
  then have "\<forall>i < 5. se_G (site_env (demo_sites ! i)) = toy_group \<and>
      dkg_id (se_env (site_env (demo_sites ! i))) = target_id i"
    by (simp add: All_less_Suc numeral_eq_Suc demo_sites_def demo_site_def)
  then show ?thesis
    using demo_sites_ok toy_group_lawful by (simp add: ceremony_ok_def)
qed

text \<open>
  C4. The ceremony does not use the protocol that way: it sends every signer its own share along with
  the others, \<open>Finalize\<close> adds the own share by itself as well, and so what a signer computes is its
  share of the group's secret plus the value of its own polynomial, which is right only when that
  value is zero.
\<close>

theorem ceremony_double_counts:
  assumes "ceremony_ok G sites ws"
  shows "\<exists>fs m ws'. deal (real_client sites) (map site_addr sites) ws = (Ret m, ws') \<and>
    length fs = length sites \<and>
    (\<forall>j < length sites. \<exists>p ks. dkgParticipant (ws' ! j) = Some p \<and> p_polynomial p = Some (fs ! j) \<and>
       Finalize G p (map Some (m (target_id j))) (allCommitments (ws' ! j)) vk = Ret ks \<and>
       Secret ks = poly_value (fs ! j) (of_nat (j + 1)) + dealt fs (of_nat (j + 1)) \<and>
       (Secret ks = dealt fs (of_nat (j + 1)) \<longleftrightarrow> poly_value (fs ! j) (of_nat (j + 1)) = 0))"
proof -
  from deal_real [OF assms] obtain cs fs m ws' where
    d: "deal (real_client sites) (map site_addr sites) ws = (Ret m, ws')" "dealt_state G ws cs fs ws'"
      "\<forall>j < length sites. length (m (target_id j)) = length sites \<and>
         (\<forall>i < length sites. share_ok G i j (fs ! i) (m (target_id j) ! i))"
    by blast
  have n: "length fs = length sites" "length ws = length sites" "dkg_lawful G" "length sites < 2 ^ 16"
    using d(2) assms by (simp_all add: dealt_state_def ceremony_ok_def)
  have "\<exists>p ks. dkgParticipant (ws' ! j) = Some p \<and> p_polynomial p = Some (fs ! j) \<and>
       Finalize G p (map Some (m (target_id j))) (allCommitments (ws' ! j)) vk = Ret ks \<and>
       Secret ks = poly_value (fs ! j) (of_nat (j + 1)) + dealt fs (of_nat (j + 1)) \<and>
       (Secret ks = dealt fs (of_nat (j + 1)) \<longleftrightarrow> poly_value (fs ! j) (of_nat (j + 1)) = 0)"
    if j: "j < length sites" for j
  proof -
    have "dealer j (fs ! j) (ws' ! j)" using d(2) j n by (simp add: dealt_state_def)
    then obtain p where p: "dkgParticipant (ws' ! j) = Some p" "p_ID p = target_id j"
        "p_polynomial p = Some (fs ! j)" "length (fs ! j) = 3" unfolding dealer_def by auto
    have "j + 1 < 2 ^ 16" using j n(4) by simp
    from finalize_real [where pkgs = "m (target_id j)" and fs = fs, OF n(3) p(2-4) this] d(3) j n(1)
    show ?thesis using p by (simp add: Let_def)
  qed
  with d(1) n(1) show ?thesis by blast
qed

theorem ceremony_double_counts_witness:
  "\<exists>fs m ws'. deal (real_client demo_sites) (map site_addr demo_sites) demo_states = (Ret m, ws') \<and>
     length fs = 5 \<and> (\<exists>p ks. dkgParticipant (ws' ! 0) = Some p \<and>
       Finalize toy_group p (map Some (m (target_id 0))) (allCommitments (ws' ! 0)) 0 = Ret ks \<and>
       Secret ks = poly_value (fs ! 0) (of_nat (0 + 1)) + dealt fs (of_nat (0 + 1)))"
proof -
  from ceremony_double_counts [OF demo_ceremony_ok, of 0] obtain fs m ws' where
    d: "deal (real_client demo_sites) (map site_addr demo_sites) demo_states = (Ret m, ws')"
      "length fs = length demo_sites" and
    j: "\<forall>j < length demo_sites. \<exists>p ks. dkgParticipant (ws' ! j) = Some p \<and> p_polynomial p = Some (fs ! j) \<and>
       Finalize toy_group p (map Some (m (target_id j))) (allCommitments (ws' ! j)) 0 = Ret ks \<and>
       Secret ks = poly_value (fs ! j) (of_nat (j + 1)) + dealt fs (of_nat (j + 1)) \<and>
       (Secret ks = dealt fs (of_nat (j + 1)) \<longleftrightarrow> poly_value (fs ! j) (of_nat (j + 1)) = 0)"
    by blast
  have "0 < length demo_sites" "length fs = 5" using d(2) by simp_all
  with j d(1) show ?thesis by blast
qed

text \<open>
  C14. After round 2 the coordinator can compute the group's secret: the shares it holds for signers 1,
  2 and 3 add up to three values that interpolate to the secret of the group key every signer finds in
  its commitments.
\<close>

theorem coordinator_learns_secret:
  assumes "ceremony_ok (G :: ('s::field, 'e::ab_group_add) dkg_group) sites ws" "3 \<le> length sites"
    "(of_nat (0 + 1) :: 's) \<noteq> of_nat (1 + 1)" "(of_nat (0 + 1) :: 's) \<noteq> of_nat (2 + 1)"
    "(of_nat (1 + 1) :: 's) \<noteq> of_nat (2 + 1)"
  shows "\<exists>m ws' v vk. deal (real_client sites) (map site_addr sites) ws = (Ret m, ws') \<and>
    (\<forall>j < 3. traverse (open_share G) (m (target_id j)) = Ret (v j)) \<and>
    (\<forall>i < length sites. ComputeGroupPublicKey G (allCommitments (ws' ! i)) = Ret vk) \<and>
    base_mul G (interpolate3 (of_nat (0 + 1)) (of_nat (1 + 1)) (of_nat (2 + 1))
      (sum_list (v 0)) (sum_list (v 1)) (sum_list (v 2))) = vk"
proof -
  from deal_real [OF assms(1)] obtain cs fs m ws' where
    d: "deal (real_client sites) (map site_addr sites) ws = (Ret m, ws')" "dealt_state G ws cs fs ws'"
      "\<forall>i < length sites. allCommitments (ws' ! i) = map Some cs"
      "\<forall>j < length sites. length (m (target_id j)) = length sites \<and>
         (\<forall>i < length sites. share_ok G i j (fs ! i) (m (target_id j) ! i))"
    by blast
  have n: "length fs = length sites" "length cs = length fs" "dkg_lawful G"
    using d(2) assms(1) by (simp_all add: dealt_state_def ceremony_ok_def)
  have fs: "\<forall>i < length fs. commits_to G (cs ! i) (fs ! i) \<and> length (fs ! i) = 3"
    using d(2) by (auto simp: dealt_state_def dealer_def)
  then have len3: "\<forall>f \<in> set fs. length f = 3" by (auto simp: in_set_conv_nth)
  define v where "v j = map (\<lambda>f. poly_value f (of_nat (j + 1))) fs" for j :: nat
  have "traverse (open_share G) (m (target_id j)) = Ret (v j)" if "j < 3" for j
    using that assms(2) d(4) n(1)
    by (auto simp: traverse_eq_Ret list_all2_conv_all_nth v_def share_ok_def simp del: of_nat_Suc of_nat_add)
  moreover have "\<forall>i < length sites. ComputeGroupPublicKey G (allCommitments (ws' ! i)) =
      Ret (base_mul G (dealt fs 0))"
    using d(3) group_key_real [OF n(3,2) fs] by simp
  moreover have "interpolate3 (of_nat (0 + 1)) (of_nat (1 + 1)) (of_nat (2 + 1))
      (sum_list (v 0)) (sum_list (v 1)) (sum_list (v 2)) = dealt fs 0"
    using interpolate3_dealt [OF assms(3-5) len3] unfolding v_def dealt_def .
  ultimately show ?thesis using d(1) by metis
qed

theorem coordinator_learns_secret_witness:
  "\<exists>m ws' v vk. deal (real_client demo_sites) (map site_addr demo_sites) demo_states = (Ret m, ws') \<and>
     (\<forall>j < 3. traverse (open_share toy_group) (m (target_id j)) = Ret (v j)) \<and>
     ComputeGroupPublicKey toy_group (allCommitments (ws' ! 0)) = Ret vk \<and>
     base_mul toy_group (interpolate3 (of_nat (0 + 1)) (of_nat (1 + 1)) (of_nat (2 + 1))
       (sum_list (v (0 :: nat))) (sum_list (v 1)) (sum_list (v 2))) = vk"
proof -
  have d: "(of_nat (0 + 1) :: gf7) \<noteq> of_nat (1 + 1)" "(of_nat (0 + 1) :: gf7) \<noteq> of_nat (2 + 1)"
      "(of_nat (1 + 1) :: gf7) \<noteq> of_nat (2 + 1)"
    unfolding gf7_eq gf7_val_of_nat by simp_all
  have n: "3 \<le> length demo_sites" "0 < length demo_sites" by simp_all
  from coordinator_learns_secret [OF demo_ceremony_ok n(1) d] n(2) show ?thesis by blast
qed

text \<open>
  C13. A ceremony with five signers that are all up ends with success, and changes nothing about
  signing: every signer keeps the signer object and the published commitments it had, because the key
  share that \<open>Finalize\<close> computes is dropped.
\<close>

theorem ceremony_changes_no_key:
  assumes "ceremony_ok G sites ws"
    "\<forall>t \<in> set sites. \<forall>k. 16 \<le> length (KeyShare_Hex (se_F (site_env t)) k)"
  shows "\<exists>ws'. ceremony_main (real_client sites) (map site_addr sites) ws = (Ret (), ws') \<and>
    map st_Signer ws' = map st_Signer ws \<and> map st_Commitments ws' = map st_Commitments ws"
proof -
  from ceremony_real [OF assms] obtain ws' where
    "ceremony_main (real_client sites) (map site_addr sites) ws = (Ret (), ws')"
    "map signing_part ws' = map signing_part ws" by blast
  moreover from this(2) have "map (fst \<circ> signing_part) ws' = map (fst \<circ> signing_part) ws"
      "map (snd \<circ> signing_part) ws' = map (snd \<circ> signing_part) ws"
    by (metis map_map)+
  ultimately show ?thesis by (simp add: signing_part_def o_def)
qed

theorem ceremony_changes_no_key_witness:
  "\<exists>ws'. ceremony_main (real_client demo_sites) (map site_addr demo_sites) demo_states = (Ret (), ws') \<and>
     map st_Signer ws' = map st_Signer demo_states"
proof -
  have "\<forall>t \<in> set demo_sites. \<forall>k. 16 \<le> length (KeyShare_Hex (se_F (site_env t)) k)"
    by (simp add: demo_sites_def demo_site_def toy_frost_def number_text_def)
  from ceremony_changes_no_key [OF demo_ceremony_ok this] show ?thesis by blast
qed

text \<open>
  C33. The ceremony never looks at the answers to its POSTs, to the commitments and to the shares: when
  every POST gets some answer, any other answers of any status and content leave its result and what
  it does to the signers the same, and it reports success exactly when its calls up to round 2 went well.
\<close>

theorem ceremony_ignores_answers:
  assumes "\<forall>w url body. is_ret (fst (dc_Post C w url body))"
  shows "ceremony_main (answering f C) addrs w = ceremony_main C addrs w \<and>
    (is_ret (fst (ceremony_main C addrs w)) \<longleftrightarrow> is_ret (fst (deal C addrs w)))"
proof
  note post = postJSON_answering [of C f, OF assms [rule_format]]
  have "ask_round1 (answering f C) = ask_round1 C" "broadcast (answering f C) = broadcast C"
    "deliver_shares (answering f C) = deliver_shares C" "ask_round2 (answering f C) = ask_round2 C"
    by (simp_all add: fun_eq_iff ask_round1_def broadcast_def deliver_shares_def ask_round2_def post
        getJSON_answering)
  then show "ceremony_main (answering f C) addrs w = ceremony_main C addrs w"
    by (simp add: ceremony_main_def deal_def round2_row_def [abs_def])
  have "is_ret (fst (deliver_shares C m v ia))" for m v ia
    using postJSON_ignores_answer [of C] assms
    by (cases ia) (simp add: deliver_shares_def exit_with_def is_ret_iff)
  then have all: "is_ret (fst (traverse_w (deliver_shares C m) v xs))" for m v xs
    by (rule traverse_w_always)
  show "is_ret (fst (ceremony_main C addrs w)) \<longleftrightarrow> is_ret (fst (deal C addrs w))"
    unfolding ceremony_main_def
  proof (rule bind_w_always)
    fix m v
    have "is_ret (fst (bind_w (traverse_w (deliver_shares C m) v (enumerate 0 addrs)) (\<lambda>_ w. (Ret (), w))))
        \<longleftrightarrow> is_ret (fst (traverse_w (deliver_shares C m) v (enumerate 0 addrs)))"
      by (rule bind_w_always) simp
    with all show "is_ret (fst (bind_w (traverse_w (deliver_shares C m) v (enumerate 0 addrs))
        (\<lambda>_ w. (Ret (), w))))" by blast
  qed
qed

text \<open>A network where every GET gets an empty object and every POST an internal server error.\<close>

definition broken_client :: "unit dkg_client" where
  "broken_client =
     \<lparr>dc_Get = (\<lambda>w url. (Ret \<lparr>status = 200, content_type = [], resp_body = json_Encode (obj [])\<rparr>, w)),
      dc_Post = (\<lambda>w url body. (Ret \<lparr>status = 500, content_type = [], resp_body = ''error''\<rparr>, w))\<rparr>"

lemma broken_get:
  "getJSON broken_client into_DkgCommitment x w url = (Ret x, w)"
  "getJSON broken_client into_SharePackage y w url = (Ret y, w)"
  by (simp_all add: getJSON_def broken_client_def json_Unmarshal_Encode canonical_obj depth_obj
      into_DkgCommitment_def into_SharePackage_def into_struct_def obj_def json_max_depth_def)

theorem ceremony_ignores_answers_witness:
  "is_ret (fst (ceremony_main broken_client [''a'', ''b''] ())) \<and>
   ceremony_main (answering (\<lambda>_ _ _. \<lparr>status = 200, content_type = [], resp_body = []\<rparr>) broken_client)
     [''a'', ''b''] () = ceremony_main broken_client [''a'', ''b''] ()"
proof -
  have post: "\<forall>w url body. is_ret (fst (dc_Post broken_client w url body))"
    by (simp add: broken_client_def)
  have "is_ret (fst (deal broken_client [''a'', ''b''] ()))"
    by (simp add: deal_def ask_round1_def broken_get exit_with_def broadcast_def postJSON_def
        broken_client_def [THEN arg_cong [where f = dc_Post]] round2_row_def ask_round2_def
        upt_conv_Cons Let_def)
  with ceremony_ignores_answers [OF post] show ?thesis by simp
qed

end
