(* ===== verification/Http_Deployment.thy ===== *)
theory Http_Deployment
  imports Ceremony
begin

text \<open>
  The plain HTTP coordinator (\<open>cmd/coordinator\<close>) against three real signers on the local host: its two
  rounds, one signer after the other, each call changing that signer's state.
\<close>

definition local_addr :: "string \<Rightarrow> string" where
  "local_addr port = ''http://localhost:'' @ port"

definition local_coordinator ::
  "('s::field, 'e::ab_group_add, 'g) frost_lib \<Rightarrow> 'e Configuration \<Rightarrow> ('s, 'e, 'g) site list \<Rightarrow>
     ('s, 'e, 'g, ('s, 'e, 'g) signer_state list) coordinator" where
  "local_coordinator F cfg sites =
     \<lparr>co_F = F, co_Config = cfg,
      co_Post = (\<lambda>ws url body. reach {..<length sites} sites ws url body),
      co_Get = (\<lambda>ws url. reach {..<length sites} sites ws url [])\<rparr>"

text \<open>The three signers of \<open>signerPorts\<close>, all with the coordinator's library.\<close>

definition local_sites_ok ::
  "('s, 'e, 'g) frost_lib \<Rightarrow> ('s, 'e, 'g) site list \<Rightarrow> bool" where
  "local_sites_ok F sites \<longleftrightarrow>
     map site_addr sites = map local_addr signerPorts \<and> frost_codecs F \<and>
     (\<forall>t \<in> set sites. se_F (site_env t) = F)"

lemma local_ports_ok: "list_all addr_ok (map local_addr signerPorts)" "distinct (map local_addr signerPorts)"
  by (simp_all add: signerPorts_def local_addr_def addr_ok_def)

lemma local_sites:
  assumes "local_sites_ok F sites"
  shows "length sites = 3" "sites_ok sites"
    and "i < 3 \<Longrightarrow> site_addr (sites ! i) = local_addr (signerPorts ! i)"
    and "i < 3 \<Longrightarrow> se_F (site_env (sites ! i)) = F" and "frost_codecs F"
proof -
  have eq: "map site_addr sites = map local_addr signerPorts" and cod: "frost_codecs F"
    and lib: "\<forall>t \<in> set sites. se_F (site_env t) = F"
    using assms by (simp_all add: local_sites_ok_def)
  show len: "length sites = 3" using arg_cong [OF eq, of length] by simp
  show "sites_ok sites"
    using local_ports_ok unfolding eq [symmetric] sites_ok_def by (simp add: list_all_iff)
  show "i < 3 \<Longrightarrow> site_addr (sites ! i) = local_addr (signerPorts ! i)"
    using arg_cong [OF eq, of "\<lambda>xs. xs ! i"] len by simp
  show "i < 3 \<Longrightarrow> se_F (site_env (sites ! i)) = F" using lib len by simp
  show "frost_codecs F" by (rule cod)
qed

lemma traverse_w_map: "traverse_w f w (map g xs) = traverse_w (\<lambda>w x. f w (g x)) w xs"
  by (induction xs arbitrary: w) (simp_all split: prod.split go.split)

lemma traverse_ports:
  assumes "\<And>vs i. i < length ports \<Longrightarrow> length vs = length ports \<Longrightarrow> vs ! i = ws ! i \<Longrightarrow>
      f vs (ports ! i) = (Ret (h i), vs[i := g i])"
    and "length ws = length ports"
  shows "traverse_w f ws ports = (Ret (map h [0..<length ports]), map g [0..<length ports])"
proof -
  have "traverse_w f ws ports = traverse_w f ws (map snd (enumerate 0 ports))" by simp
  also have "\<dots> = traverse_w (\<lambda>w ia. f w (snd ia)) ws (enumerate 0 ports)" by (rule traverse_w_map)
  also have "\<dots> = (Ret (map h [0..<length ports]), map g [0..<length ports])"
    by (rule traverse_sites) (use assms in auto)
  finally show ?thesis .
qed

lemma ask_commitment_real:
  assumes "local_sites_ok F sites" "i < 3"
  shows "ask_commitment (local_coordinator F cfg sites) vs (signerPorts ! i) =
    (Ret (commitment_message F (commit_of F (vs ! i))),
     vs[i := snd (commitHandler (site_env (sites ! i)) (vs ! i))])"
proof -
  note l = local_sites [OF assms(1)]
  let ?E = "site_env (sites ! i)"
  obtain c sg where c: "Signer_Commit F (st_Signer (vs ! i)) = (c, sg)" by fastforce
  have url: "''http://localhost:'' @ signerPorts ! i @ ''/commit'' = site_addr (sites ! i) @ ''/commit''"
    by (simp add: l(3) [OF assms(2)] local_addr_def)
  have serve: "signer_serve ?E s \<lparr>req_path = ''/commit'', req_body = []\<rparr> = commitHandler ?E s" for s
    by (simp add: signer_serve_def)
  have "i < length sites" "i \<in> {..<length sites}" using l(1) assms(2) by simp_all
  from reach_up [OF l(2) this, of "''commit''" vs "[]"] commit_answer [of ?E "vs ! i", unfolded l(4) [OF assms(2)],
      OF l(5) c]
  show ?thesis
    unfolding ask_commitment_def url
    by (auto simp: local_coordinator_def serve commit_of_def c split: prod.splits)
qed

lemma ask_share_real:
  assumes "local_sites_ok F sites" "i < 3" "valid_utf8 m"
    and "Signer_Sign F (st_Signer (vs ! i)) m (CommitmentList_Sort F cs) = (Ret sh, sg)"
  shows "ask_share (local_coordinator F cfg sites) (json_Marshal (SignRequest_json
      \<lparr>Message = m, Commitments = map (commitment_message F) cs\<rparr>)) vs (signerPorts ! i) =
    (Ret (share_message F sh), vs[i := (vs ! i)\<lparr>st_Signer := sg\<rparr>])"
proof -
  note l = local_sites [OF assms(1)]
  let ?E = "site_env (sites ! i)" and ?body = "json_Marshal (SignRequest_json
      \<lparr>Message = m, Commitments = map (commitment_message F) cs\<rparr>)"
  have E: "se_F ?E = F" by (rule l(4) [OF assms(2)])
  have url: "''http://localhost:'' @ signerPorts ! i @ ''/sign'' = site_addr (sites ! i) @ ''/sign''"
    by (simp add: l(3) [OF assms(2)] local_addr_def)
  have serve: "signer_serve ?E s \<lparr>req_path = ''/sign'', req_body = b\<rparr> = signHandler ?E s b" for s b
    by (simp add: signer_serve_def)
  have wf: "wf_SignRequest \<lparr>Message = m, Commitments = map (commitment_message F) cs\<rparr>"
    using assms(3) wf_commitment_message [OF l(5)] by (simp add: wf_SignRequest_def list_all_iff)
  have "signHandler ?E (vs ! i) ?body =
      (json_reply (SignatureShareResponse_json (share_message F sh)), (vs ! i)\<lparr>st_Signer := sg\<rparr>)"
    using assms(4) by (simp add: signHandler_def E sign_request.dec_enc [OF wf] decode_commitment_messages [OF l(5)])
  moreover have "i < length sites" "i \<in> {..<length sites}" using l(1) assms(2) by simp_all
  note reach_up [OF l(2) this, of "''sign''" vs ?body]
  ultimately show ?thesis
    using share_response_stream.dec_enc [OF wf_share_message [OF l(5)]]
    unfolding ask_share_def url
    by (simp add: local_coordinator_def serve json_reply_body)
qed

text \<open>
  What FROST makes of a session of the three local signers: their shares of \<open>m\<close> under their commitments,
  and the signature these aggregate to.
\<close>

definition local_session ::
  "('s, 'e, 'g) frost_lib \<Rightarrow> 'e Configuration \<Rightarrow> ('s, 'e, 'g) signer_state list \<Rightarrow> bytes \<Rightarrow>
     's SignatureShare list \<Rightarrow> ('s, 'e) frost_signature \<Rightarrow> bool" where
  "local_session F cfg ws m ss z \<longleftrightarrow>
     (let L = CommitmentList_Sort F (map (\<lambda>j. commit_of F (ws ! j)) [0..<3]) in
      length ss = 3 \<and>
      (\<forall>i < 3. fst (Signer_Sign F (snd (Signer_Commit F (st_Signer (ws ! i)))) m L) = Ret (ss ! i)) \<and>
      Config_Aggregate F cfg m ss L True = Ret z)"

text \<open>Both rounds succeed: they collect what the signers make, and it aggregates.\<close>

lemma local_rounds:
  assumes ok: "local_sites_ok F sites" and ws: "length ws = 3"
    and complete: "frost_complete F cfg valid" and valid: "\<forall>j < 3. valid (st_Signer (ws ! j))"
    and ids: "inj_on (\<lambda>j. Signer_Identifier F (st_Signer (ws ! j))) {..<3}"
    and t: "cfg_Threshold cfg \<le> 3" and m: "valid_utf8 m"
  shows "\<exists>ws1 ws2 ss z. local_session F cfg ws m ss z \<and>
    collectCommitments (local_coordinator F cfg sites) ws =
      (Ret \<lparr>CollectedCommitments = map (\<lambda>j. commitment_message F (commit_of F (ws ! j))) [0..<3]\<rparr>, ws1) \<and>
    collectSignaturesWithCommitments (local_coordinator F cfg sites) ws1 m
      (map (\<lambda>j. commitment_message F (commit_of F (ws ! j))) [0..<3]) =
        (Ret \<lparr>Signatures = map (share_message F) ss\<rparr>, ws2) \<and>
    aggregateThresholdSignature (local_coordinator F cfg sites) m
      (map (\<lambda>j. commitment_message F (commit_of F (ws ! j))) [0..<3]) (map (share_message F) ss) = Ret z"
proof -
  let ?C = "local_coordinator F cfg sites"
  define cs where "cs = map (\<lambda>j. commit_of F (ws ! j)) [0..<3]"
  let ?L = "CommitmentList_Sort F cs"
  define g where "g i = snd (commitHandler (site_env (sites ! i)) (ws ! i))" for i
  define ws1 where "ws1 = map g [0..<3]"
  note l = local_sites [OF ok]
  have r1: "traverse_w (ask_commitment ?C) ws signerPorts = (Ret (map (commitment_message F) cs), ws1)"
    using traverse_ports [of signerPorts ws "ask_commitment ?C" "\<lambda>i. commitment_message F (commit_of F (ws ! i))" g]
      ask_commitment_real [OF ok] ws
    by (simp add: cs_def ws1_def g_def)
  have sg: "st_Signer (ws1 ! i) = snd (Signer_Commit F (st_Signer (ws ! i)))" if "i < 3" for i
    using that l(4) [OF that] by (simp add: ws1_def g_def commitHandler_signer)
  obtain ss where len: "length ss = 3"
    and ss: "\<And>i. i < 3 \<Longrightarrow> fst (Signer_Sign F (snd (Signer_Commit F (st_Signer (ws ! i)))) m ?L) = Ret (ss ! i)"
    and agg: "\<And>ss'. mset ss' = mset ss \<Longrightarrow> is_ret (Config_Aggregate F cfg m ss' ?L True)"
    using frost_session [OF complete, of "[0..<3]" ws m] valid ids t
    by (auto simp: cs_def atLeast0LessThan)
  let ?body = "json_Marshal (SignRequest_json \<lparr>Message = m, Commitments = map (commitment_message F) cs\<rparr>)"
  define h where "h i = (ws1 ! i)\<lparr>st_Signer := snd (Signer_Sign F (st_Signer (ws1 ! i)) m ?L)\<rparr>" for i
  have "ask_share ?C ?body vs (signerPorts ! i) = (Ret (share_message F (ss ! i)), vs[i := h i])"
    if "i < 3" "vs ! i = ws1 ! i" for vs i
  proof -
    have "fst (Signer_Sign F (st_Signer (vs ! i)) m ?L) = Ret (ss ! i)"
      using ss that by (simp add: sg)
    then have "Signer_Sign F (st_Signer (vs ! i)) m ?L =
        (Ret (ss ! i), snd (Signer_Sign F (st_Signer (ws1 ! i)) m ?L))"
      using that(2) by (simp add: prod_eq_iff)
    from ask_share_real [OF ok that(1) m this] show ?thesis using that(2) by (simp add: h_def)
  qed
  then have r2: "traverse_w (ask_share ?C ?body) ws1 signerPorts =
      (Ret (map (\<lambda>i. share_message F (ss ! i)) [0..<3]), map h [0..<3])"
    using traverse_ports [of signerPorts ws1 "ask_share ?C ?body" "\<lambda>i. share_message F (ss ! i)" h]
    by (simp add: ws1_def)
  have shares: "map (\<lambda>i. share_message F (ss ! i)) [0..<3] = map (share_message F) ss"
    using len by (auto intro: nth_equalityI)
  obtain z where z: "Config_Aggregate F cfg m ss ?L True = Ret z"
    using agg [OF refl] by (auto simp: is_ret_iff)
  have "aggregateThresholdSignature ?C m (map (commitment_message F) cs) (map (share_message F) ss) = Ret z"
    using z by (simp add: aggregateThresholdSignature_def local_coordinator_def
        decode_commitment_messages [OF l(5)] decode_share_messages [OF l(5)])
  moreover have "collectCommitments ?C ws = (Ret \<lparr>CollectedCommitments = map (commitment_message F) cs\<rparr>, ws1)"
    by (simp add: collectCommitments_def r1)
  moreover have "collectSignaturesWithCommitments ?C ws1 m (map (commitment_message F) cs) =
      (Ret \<lparr>Signatures = map (share_message F) ss\<rparr>, map h [0..<3])"
    by (simp add: collectSignaturesWithCommitments_def r2 shares)
  moreover have "local_session F cfg ws m ss z"
    using len ss z by (simp add: local_session_def cs_def)
  moreover have "map (commitment_message F) cs =
      map (\<lambda>j. commitment_message F (commit_of F (ws ! j))) [0..<3]" by (simp add: cs_def)
  ultimately show ?thesis by (metis (no_types, lifting))
qed

end
