(* ===== verification/Frostlab.thy ===== *)
theory Frostlab
  imports Keygen Deployment
begin

text \<open>
  \<open>cmd/frostlab\<close>: key generation by a dealer and one signing session in one process, reported on the
  standard output, which is the state \<open>out\<close>.  \<open>lab_Identifier\<close> is the method \<open>Identifier\<close> of a key
  share and \<open>lab_Group\<close> the text of a signature's group.  The pointers that the library returns are
  values here, so the comparisons with \<open>nil\<close> that the program prints are all true.
\<close>

record ('s, 'e, 'g) lab_env =
  lab_F :: "('s, 'e, 'g) frost_lib"
  lab_Identifier :: "('s, 'e) KeyShare \<Rightarrow> u16"
  lab_Group :: "('s, 'e) frost_signature \<Rightarrow> string"

definition nl :: string where "nl = [CHR 0x0A]"

definition show_id :: "u16 \<Rightarrow> string" where "show_id i = show_nat (unat i)"

text \<open>What is printed about the shares.\<close>

definition lab_report :: "('s, 'e, 'g) lab_env \<Rightarrow> ('s, 'e) KeyShare list \<Rightarrow> string" where
  "lab_report B shares =
     ''Generated '' @ show_nat (length shares) @ '' key shares'' @ nl @ nl @
     concat (map (\<lambda>share. ''Signer ID: '' @ show_id (lab_Identifier B share) @ nl) shares) @ nl @
     (let publicShares = map (KeyShare_Public (lab_F B)) shares in
      concat (map (\<lambda>publicShare. ''Public Share ID: '' @ show_id (PubID publicShare) @ nl) publicShares) @
      nl @ ''Collected '' @ show_nat (length publicShares) @ '' public key shares'' @ nl) @ nl @
     concat (map (\<lambda>share. ''ID='' @ show_id (lab_Identifier B share) @
       '' PublicExists=true SecretExists=true'' @ nl) shares) @ nl @
     concat (map (\<lambda>share. ''ID='' @ show_id (lab_Identifier B share) @
       '' VerificationKeyExists=true'' @ nl) shares) @ nl"

definition frostlab_message :: string where
  "frostlab_message = ''hello-frost-threshold-signing''"

text \<open>The bodies of the three loops: making a signer, a commitment, a signature share.\<close>

definition lab_signer ::
  "('s, 'e, 'g) lab_env \<Rightarrow> 'e Configuration \<Rightarrow> ('s, 'e) KeyShare list \<Rightarrow> string \<Rightarrow> int \<Rightarrow> 'g go \<times> string" where
  "lab_signer B config shares out i =
     bind_w (index shares i, out) (\<lambda>share out.
     bind_w (must (Config_Signer (lab_F B) config share), out) (\<lambda>s out.
     (Ret s, out @ ''Created FROST signer with ID '' @ show_id (Signer_Identifier (lab_F B) s) @ nl)))"

definition lab_commit ::
  "('s, 'e, 'g) lab_env \<Rightarrow> string \<Rightarrow> 'g \<Rightarrow> ('e frost_Commitment \<times> 'g) go \<times> string" where
  "lab_commit B out s =
     (let (c, s') = Signer_Commit (lab_F B) s
      in (Ret (c, s'), out @ ''Commitment generated by signer '' @ show_id (fc_SignerID c) @ nl @
            ''Commitment ID: '' @ show_nat (unat (fc_CommitmentID c)) @ nl))"

definition lab_sign ::
  "('s, 'e, 'g) lab_env \<Rightarrow> 'e frost_Commitment list \<Rightarrow> string \<Rightarrow> 'g \<Rightarrow> 's SignatureShare go \<times> string" where
  "lab_sign B commitments out s =
     bind_w (must (fst (Signer_Sign (lab_F B) s frostlab_message commitments)), out) (\<lambda>sigShare out.
     (Ret sigShare, out @ ''Signature Share generated by signer '' @ show_id (SignerIdentifier sigShare) @ nl))"

text \<open>The signers sign under the list as they made it; it is sorted only for the aggregation.\<close>

definition lab_finish ::
  "('s, 'e, 'g) lab_env \<Rightarrow> 'e Configuration \<Rightarrow> 'e frost_Commitment list \<Rightarrow> 's SignatureShare list \<Rightarrow>
     string \<Rightarrow> unit go \<times> string" where
  "lab_finish B config commitments sigShares out =
     (let out = out @ nl @ ''Total Signature Shares: '' @ show_nat (length sigShares) @ nl in
      bind_w (must (Config_Aggregate (lab_F B) config frostlab_message sigShares
                      (CommitmentList_Sort (lab_F B) commitments) True), out) (\<lambda>signature out.
      (Ret (), out @ nl @ ''Threshold signature generated successfully'' @ nl @
         ''Signature Group: '' @ lab_Group B signature @ nl)))"

definition frostlab_main ::
  "('s, 'e, 'g) lab_env \<Rightarrow> ('s, 'e) KeyShare list go \<Rightarrow> string \<Rightarrow> unit go \<times> string" where
  "frostlab_main B shard out =
     bind_w (must shard, out) (\<lambda>shares out.
     let out = out @ lab_report B shares in
     bind_w (index shares 0, out) (\<lambda>first out.
     bind_w (must (Config_Init (lab_F B) (new_config (lab_F B) first shares)), out) (\<lambda>config out.
     let out = out @ ''FROST configuration initialized successfully'' @ nl @ nl in
     bind_w (traverse_w (lab_signer B config shares) out [0, 1, 2]) (\<lambda>signers out.
     bind_w (traverse_w (lab_commit B) (out @ nl) signers) (\<lambda>committed out.
     let commitments = map fst committed;
         out = out @ nl @ ''Total Commitments: '' @ show_nat (length commitments) @ nl @ nl in
     bind_w (traverse_w (lab_sign B commitments) out (map snd committed)) (\<lambda>sigShares out.
     lab_finish B config commitments sigShares out))))))"

subsection \<open>A session in one process\<close>

text \<open>Documented behaviour of \<open>CommitmentList.Sort\<close> and \<open>Signer.Commit\<close>.\<close>

definition sorts_by_signer :: "('s, 'e, 'g) frost_lib \<Rightarrow> bool" where
  "sorts_by_signer F \<longleftrightarrow>
     (\<forall>cs. sorted (map (\<lambda>c. unat (fc_SignerID c)) cs) \<longrightarrow> CommitmentList_Sort F cs = cs) \<and>
     (\<forall>g. fc_SignerID (fst (Signer_Commit F g)) = Signer_Identifier F g)"

text \<open>The lines of a run that succeeds.\<close>

definition lab_transcript ::
  "('s, 'e, 'g) lab_env \<Rightarrow> ('s, 'e) KeyShare list \<Rightarrow> 'g list \<Rightarrow> 'e frost_Commitment list \<Rightarrow>
     's SignatureShare list \<Rightarrow> ('s, 'e) frost_signature \<Rightarrow> string list" where
  "lab_transcript B shares signers commitments sigShares signature =
     [''Generated '' @ show_nat (length shares) @ '' key shares'', []] @
     map (\<lambda>k. ''Signer ID: '' @ show_id (lab_Identifier B k)) shares @ [[]] @
     map (\<lambda>k. ''Public Share ID: '' @ show_id (PubID (KeyShare_Public (lab_F B) k))) shares @
     [[], ''Collected '' @ show_nat (length shares) @ '' public key shares'', []] @
     map (\<lambda>k. ''ID='' @ show_id (lab_Identifier B k) @ '' PublicExists=true SecretExists=true'') shares @ [[]] @
     map (\<lambda>k. ''ID='' @ show_id (lab_Identifier B k) @ '' VerificationKeyExists=true'') shares @ [[]] @
     [''FROST configuration initialized successfully'', []] @
     map (\<lambda>g. ''Created FROST signer with ID '' @ show_id (Signer_Identifier (lab_F B) g)) signers @ [[]] @
     concat (map (\<lambda>c. [''Commitment generated by signer '' @ show_id (fc_SignerID c),
       ''Commitment ID: '' @ show_nat (unat (fc_CommitmentID c))]) commitments) @
     [[], ''Total Commitments: '' @ show_nat (length commitments), []] @
     map (\<lambda>x. ''Signature Share generated by signer '' @ show_id (SignerIdentifier x)) sigShares @
     [[], ''Total Signature Shares: '' @ show_nat (length sigShares), [],
      ''Threshold signature generated successfully'', ''Signature Group: '' @ lab_Group B signature]"

definition print_lines :: "string list \<Rightarrow> string" where
  "print_lines ls = concat (map (\<lambda>l. l @ nl) ls)"

lemma print_lines_simps [simp]:
  "print_lines [] = []" "print_lines (l # ls) = l @ nl @ print_lines ls"
  "print_lines (xs @ ys) = print_lines xs @ print_lines ys"
  "print_lines (map f zs) = concat (map (\<lambda>z. f z @ nl) zs)"
  by (simp_all add: print_lines_def o_def)

lemma print_lines_pairs:
  "print_lines (concat (map (\<lambda>z. [f z, g z]) zs)) = concat (map (\<lambda>z. f z @ nl @ g z @ nl) zs)"
  by (induction zs) simp_all

lemma traverse_w_prints:
  assumes "\<And>x out. x \<in> set xs \<Longrightarrow> f out x = (Ret (g x), out @ txt x)"
  shows "traverse_w f out xs = (Ret (map g xs), out @ concat (map txt xs))"
  using assms by (induction xs arbitrary: out) auto

lemma frostlab_runs:
  assumes complete: "frost_complete (lab_F B) cfg valid" and sort: "sorts_by_signer (lab_F B)"
    and shard: "shard = Ret shares" "3 \<le> length shares"
    and config: "Config_Init (lab_F B) (new_config (lab_F B) (hd shares) shares) = Ret cfg"
      "cfg_Threshold cfg \<le> 3"
    and signers: "\<forall>i < 3. Config_Signer (lab_F B) cfg (shares ! i) = Ret (g i) \<and> valid (g i)"
    and ids: "sorted_wrt (<) (map (\<lambda>i. unat (Signer_Identifier (lab_F B) (g i))) [0, 1, 2])"
    and cs: "cs = map (\<lambda>i. fst (Signer_Commit (lab_F B) (g i))) [0, 1, 2]"
  shows "\<exists>ss z. length ss = 3 \<and>
    (\<forall>i < 3. fst (Signer_Sign (lab_F B) (snd (Signer_Commit (lab_F B) (g i))) frostlab_message cs) = Ret (ss ! i)) \<and>
    Config_Aggregate (lab_F B) cfg frostlab_message ss cs True = Ret z \<and>
    frostlab_main B shard out =
      (Ret (), out @ print_lines (lab_transcript B shares (map g [0, 1, 2]) cs ss z))"
proof -
  let ?F = "lab_F B" and ?gs = "map g [0, 1, 2]"
  have "sorted (map (\<lambda>c. unat (fc_SignerID c)) cs)"
    using ids sort by (simp add: sorts_by_signer_def cs)
  then have L: "CommitmentList_Sort ?F cs = cs" using sort unfolding sorts_by_signer_def by blast
  have "distinct (map (Signer_Identifier ?F) ?gs)" using ids by auto
  moreover have "\<forall>g \<in> set ?gs. valid g" using signers by simp
  moreover have "cfg_Threshold cfg \<le> length ?gs" using config(2) by simp
  moreover have "map (\<lambda>g. fst (Signer_Commit ?F g)) ?gs = cs" by (simp add: cs)
  ultimately obtain ss where
    ss: "list_all2 (\<lambda>g s. fst (Signer_Sign ?F (snd (Signer_Commit ?F g)) frostlab_message cs) = Ret s) ?gs ss"
    and agg: "is_ret (Config_Aggregate ?F cfg frostlab_message ss cs True)"
    using complete [unfolded frost_complete_def Let_def, rule_format, of ?gs frostlab_message] L by metis
  from agg obtain z where z: "Config_Aggregate ?F cfg frostlab_message ss cs True = Ret z"
    by (auto simp: is_ret_iff)
  define share where "share s = (case fst (Signer_Sign ?F s frostlab_message cs) of Ret x \<Rightarrow> x)" for s
  let ?com = "map (Signer_Commit ?F) ?gs"
  have shares: "map share (map snd ?com) = ss" using ss by (auto simp: share_def list_all2_Cons1)
  have signs: "\<forall>s \<in> set (map snd ?com). fst (Signer_Sign ?F s frostlab_message cs) = Ret (share s)"
    using ss by (auto simp: share_def list_all2_Cons1)
  define T1 where "T1 = (\<lambda>g. ''Created FROST signer with ID '' @ show_id (Signer_Identifier ?F g) @ nl)"
  define T2 where "T2 = (\<lambda>c. ''Commitment generated by signer '' @ show_id (fc_SignerID c) @ nl @
    ''Commitment ID: '' @ show_nat (unat (fc_CommitmentID (c :: 'b frost_Commitment))) @ nl)"
  define T3 where "T3 = (\<lambda>x :: 'a SignatureShare.
    ''Signature Share generated by signer '' @ show_id (SignerIdentifier x) @ nl)"
  have gs: "map (\<lambda>i. g (nat i)) [0, 1, 2] = ?gs" "map (\<lambda>i. T1 (g (nat i))) [0, 1, 2] = map T1 ?gs" by simp_all
  have "traverse_w (lab_signer B cfg shares) out [0, 1, 2] =
      (Ret (map (\<lambda>i. g (nat i)) [0, 1, 2]), out @ concat (map (\<lambda>i. T1 (g (nat i))) [0, 1, 2]))" for out
    by (rule traverse_w_prints) (use signers shard(2) in \<open>auto simp: lab_signer_def index_def T1_def\<close>)
  then have t1: "traverse_w (lab_signer B cfg shares) out [0, 1, 2] = (Ret ?gs, out @ concat (map T1 ?gs))" for out
    unfolding gs .
  have com: "map fst ?com = cs" "map (\<lambda>g. T2 (fst (Signer_Commit ?F g))) ?gs = map T2 cs" by (simp_all add: cs)
  have t2: "traverse_w (lab_commit B) out ?gs = (Ret ?com, out @ concat (map T2 cs))" for out
    unfolding com(2) [symmetric]
    by (rule traverse_w_prints) (simp add: lab_commit_def T2_def split_beta)
  have sh: "map (\<lambda>s. T3 (share s)) (map snd ?com) = map T3 ss" unfolding shares [symmetric] by simp
  have "traverse_w (lab_sign B cs) out (map snd ?com) =
      (Ret (map share (map snd ?com)), out @ concat (map (\<lambda>s. T3 (share s)) (map snd ?com)))" for out
    by (rule traverse_w_prints) (use signs in \<open>simp only: lab_sign_def T3_def must.simps bind_w.simps append_assoc\<close>)
  then have t3: "traverse_w (lab_sign B cs) out (map snd ?com) = (Ret ss, out @ concat (map T3 ss))" for out
    unfolding sh shares .
  have first: "index shares 0 = Ret (hd shares)" using shard(2) by (auto simp: index_def hd_conv_nth)
  have "frostlab_main B shard out = (Ret (), out @ print_lines (lab_transcript B shares ?gs cs ss z))"
    unfolding frostlab_main_def lab_finish_def shard(1) Let_def must.simps bind_w.simps first config(1)
      t1 t2 com(1) t3 L z lab_report_def lab_transcript_def T1_def T2_def T3_def
    by (simp only: print_lines_simps print_lines_pairs append_assoc append_Nil append_Nil2 length_map map_map o_def)
  moreover have "length ss = 3" "\<forall>i < 3. fst (Signer_Sign ?F (snd (Signer_Commit ?F (g i)))
      frostlab_message cs) = Ret (ss ! i)"
    using ss by (auto simp: list_all2_Cons1 less_Suc_eq numeral_eq_Suc)
  ultimately show ?thesis using z by blast
qed

end
