(* ===== verification/Coordinator_Properties.thy ===== *)
theory Coordinator_Properties
  imports Instances Http_Deployment Frostlab
begin

text \<open>
  The properties of the plain HTTP coordinator (\<open>cmd/coordinator\<close>) and of the legacy one
  (\<open>internal/coordinator\<close>).
\<close>

subsection \<open>Three local signers for the witnesses\<close>

definition local_demo_sites :: "(gf7, gf7, u16 \<times> u64) site list" where
  "local_demo_sites =
     [demo_site 1 ''http://localhost:8081'', demo_site 2 ''http://localhost:8082'',
      demo_site 3 ''http://localhost:8083'']"

definition local_demo_states :: "(gf7, gf7, u16 \<times> u64) signer_state list" where
  "local_demo_states = take 3 demo_states"

lemma local_demo_ok: "local_sites_ok toy_frost local_demo_sites"
  using toy_codecs
  by (simp add: local_sites_ok_def local_demo_sites_def demo_site_def local_addr_def signerPorts_def)

lemma local_demo_identifiers:
  "inj_on (\<lambda>j. Signer_Identifier toy_frost (st_Signer (local_demo_states ! j))) {..<3}"
proof -
  have "{..<3} \<subseteq> {..<5 :: nat}" by auto
  from demo_identifiers [OF this] show ?thesis
    by (simp add: local_demo_states_def inj_on_def)
qed

lemma jwt_input_utf8: "valid_utf8 (co_encodeBase64URL x @ ''.'' @ co_encodeBase64URL y)"
  using b64_encode_ascii by (intro ascii_valid_utf8) (auto simp: co_encodeBase64URL_def)

subsection \<open>Signing\<close>

text \<open>
  C27. End to end: with real signers behind its three ports, \<open>/threshold-sign\<close> answers with the JSON of
  its message, the three signers' commitments, their shares of the message, and the text of the FROST
  signature these aggregate to; and \<open>/sign-jwt\<close> answers with the token whose parts are the FROST
  header, the claims of the request, and the FROST signature of the first two by the three signers.
\<close>

theorem local_coordinator_signs:
  assumes "local_sites_ok F sites" "length ws = 3" "frost_complete F cfg valid"
    "\<forall>j < 3. valid (st_Signer (ws ! j))"
    "inj_on (\<lambda>j. Signer_Identifier F (st_Signer (ws ! j))) {..<3}" "cfg_Threshold cfg \<le> 3"
    "request_claims body = Some claims"
  shows "(\<exists>ss z. local_session F cfg ws ''hello-frost-threshold-signing'' ss z \<and>
      fst (coordinator_serve (local_coordinator F cfg sites) ws
        \<lparr>req_path = ''/threshold-sign'', req_body = b\<rparr>) = json_reply (ThresholdSignResponse_json
          \<lparr>tsr_Message = ''hello-frost-threshold-signing'',
           tsr_Commitments = map (\<lambda>j. commitment_message F (commit_of F (ws ! j))) [0..<3],
           tsr_Signatures = map (share_message F) ss, FinalSigHex = Signature_Hex F z\<rparr>)) \<and>
    (\<exists>ss z. local_session F cfg ws
        (b64_RawURL_encode frost_jwt_header @ ''.'' @ b64_RawURL_encode claims) ss z \<and>
      fst (coordinator_serve (local_coordinator F cfg sites) ws
        \<lparr>req_path = ''/sign-jwt'', req_body = body\<rparr>) = json_reply (SignJWTResponse_json
          \<lparr>JWTToken = b64_RawURL_encode frost_jwt_header @ ''.'' @ b64_RawURL_encode claims @ ''.'' @
             b64_RawURL_encode (Signature_Hex F z)\<rparr>))"
    (is "?sign \<and> ?jwt")
proof
  let ?C = "local_coordinator F cfg sites"
  let ?cs = "map (\<lambda>j. commitment_message F (commit_of F (ws ! j))) [0..<3]"
  have F: "co_F ?C = F" by (simp add: local_coordinator_def)
  have "valid_utf8 demo_message" by (rule ascii_valid_utf8) (simp add: demo_message_def)
  from local_rounds [OF assms(1-6) this] obtain ws1 ws2 ss z where run:
    "local_session F cfg ws demo_message ss z"
    "collectCommitments ?C ws = (Ret \<lparr>CollectedCommitments = ?cs\<rparr>, ws1)"
    "collectSignaturesWithCommitments ?C ws1 demo_message ?cs = (Ret \<lparr>Signatures = map (share_message F) ss\<rparr>, ws2)"
    "aggregateThresholdSignature ?C demo_message ?cs (map (share_message F) ss) = Ret z" by blast
  then show ?sign
    unfolding demo_message_def [symmetric] by (intro exI [of _ ss] exI [of _ z])
       (simp add: coordinator_serve_def thresholdSignHandler_def answer_with_def Let_def F)
next
  let ?C = "local_coordinator F cfg sites"
  let ?cs = "map (\<lambda>j. commitment_message F (commit_of F (ws ! j))) [0..<3]"
  let ?m = "b64_RawURL_encode frost_jwt_header @ ''.'' @ b64_RawURL_encode claims"
  have F: "co_F ?C = F" by (simp add: local_coordinator_def)
  from local_rounds [OF assms(1-6) jwt_input_utf8 [of frost_jwt_header claims, unfolded co_encodeBase64URL_def]]
  obtain ws1 ws2 ss z where run: "local_session F cfg ws ?m ss z"
    "collectCommitments ?C ws = (Ret \<lparr>CollectedCommitments = ?cs\<rparr>, ws1)"
    "collectSignaturesWithCommitments ?C ws1 ?m ?cs = (Ret \<lparr>Signatures = map (share_message F) ss\<rparr>, ws2)"
    "aggregateThresholdSignature ?C ?m ?cs (map (share_message F) ss) = Ret z" by blast
  then show ?jwt
    using assms(7)
    by (intro exI [of _ ss] exI [of _ z])
       (simp add: coordinator_serve_def signJWTHandler_def answer_with_def generateThresholdJWT_def
          co_encodeBase64URL_def Let_def F)
qed

text \<open>
  C28. The token of \<open>generateThresholdJWT\<close>: three parts and two dots; the first decodes to the fixed
  FROST header, the second to the claims as given, the third to the text of a signature that FROST
  aggregation made, with every share checked, of three shares over the first two parts.
\<close>

theorem threshold_jwt_token:
  assumes "generateThresholdJWT C w claims = (Ret t, w')"
  shows "Token t = Header t @ ''.'' @ Payload t @ ''.'' @ Signature t \<and> count_list (Token t) (CHR ''.'') = 2 \<and>
    b64_RawURL_decode (Header t) = Ret frost_jwt_header \<and> b64_RawURL_decode (Payload t) = Ret claims \<and>
    (\<exists>cs ss z. length cs = 3 \<and> length ss = 3 \<and>
       aggregateThresholdSignature C (Header t @ ''.'' @ Payload t) cs ss = Ret z \<and>
       b64_RawURL_decode (Signature t) = Ret (Signature_Hex (co_F C) z))"
proof -
  obtain cc sc z w1 where
    g: "collectCommitments C w = (Ret cc, w1)"
    "collectSignaturesWithCommitments C w1 (SigningInput t) (CollectedCommitments cc) = (Ret sc, w')"
    "aggregateThresholdSignature C (SigningInput t) (CollectedCommitments cc) (Signatures sc) = Ret z"
    "Header t = co_encodeBase64URL frost_jwt_header" "Payload t = co_encodeBase64URL claims"
    "SigningInput t = Header t @ ''.'' @ Payload t"
    "Signature t = co_encodeBase64URL (Signature_Hex (co_F C) z)"
    "Token t = SigningInput t @ ''.'' @ Signature t"
    by (rule generateThresholdJWT_Ret [OF assms])
  have nodot: "count_list (co_encodeBase64URL x) (CHR ''.'') = 0" for x
    using b64_no_dot by (simp add: co_encodeBase64URL_def count_list_0_iff)
  have dec: "b64_RawURL_decode (co_encodeBase64URL x) = Ret x" for x
    by (simp add: co_encodeBase64URL_def b64_decode_encode)
  have tok: "Token t = Header t @ ''.'' @ Payload t @ ''.'' @ Signature t"
    unfolding g(8) g(6) by simp
  have dots: "count_list (Token t) (CHR ''.'') = 2"
    unfolding tok g(4,5,7) count_list_append nodot by simp
  have parts: "b64_RawURL_decode (Header t) = Ret frost_jwt_header"
    "b64_RawURL_decode (Payload t) = Ret claims"
    "b64_RawURL_decode (Signature t) = Ret (Signature_Hex (co_F C) z)"
    unfolding g(4,5,7) by (rule dec)+
  have "\<exists>cs ss z. length cs = 3 \<and> length ss = 3 \<and>
       aggregateThresholdSignature C (Header t @ ''.'' @ Payload t) cs ss = Ret z \<and>
       b64_RawURL_decode (Signature t) = Ret (Signature_Hex (co_F C) z)"
    by (intro exI conjI)
       (rule collected_lengths(1) [OF g(1)], rule collected_lengths(2) [OF g(2)],
         rule g(3) [unfolded g(6)], rule parts(3))
  with tok dots parts(1,2) show ?thesis by (intro conjI)
qed

lemma local_demo_jwt:
  "\<exists>t w'. generateThresholdJWT (local_coordinator toy_frost demo_config local_demo_sites) local_demo_states ''{}'' =
     (Ret t, w')"
proof -
  let ?C = "local_coordinator toy_frost demo_config local_demo_sites"
  let ?m = "co_encodeBase64URL frost_jwt_header @ ''.'' @ co_encodeBase64URL ''{}''"
  have m: "valid_utf8 ?m" by (rule jwt_input_utf8)
  have "length local_demo_states = 3" by (simp add: local_demo_states_def)
  from local_rounds [OF local_demo_ok this toy_complete _ local_demo_identifiers _ m, of demo_config]
  show ?thesis by (auto simp: demo_config_def generateThresholdJWT_def Let_def)
qed

theorem threshold_jwt_token_witness:
  "\<exists>t w'. generateThresholdJWT (local_coordinator toy_frost demo_config local_demo_sites) local_demo_states
       ''{}'' = (Ret t, w') \<and>
     b64_RawURL_decode (Payload t) = Ret ''{}'' \<and> count_list (Token t) (CHR ''.'') = 2"
proof -
  obtain t w' where t: "generateThresholdJWT (local_coordinator toy_frost demo_config local_demo_sites)
      local_demo_states ''{}'' = (Ret t, w')" using local_demo_jwt by blast
  from threshold_jwt_token [OF t] t show ?thesis by blast
qed

subsection \<open>Requests that are refused, calls that fail\<close>

text \<open>
  A request without claims, or whose body does not decode: \<open>/sign-jwt\<close> refuses it with status 400
  and contacts no signer, while \<open>/threshold-jwt\<close> signs the built-in claims.
\<close>

theorem claims_required:
  assumes "(\<exists>e. decode_ThresholdJWTRequest body = Err e) \<or>
    (\<exists>req. decode_ThresholdJWTRequest body = Ret req \<and> Claims req = [])"
  shows "coordinator_serve C w \<lparr>req_path = ''/sign-jwt'', req_body = body\<rparr> =
      (http_Error 400 ''claims are required'', w) \<and>
    coordinator_serve C w \<lparr>req_path = ''/threshold-jwt'', req_body = body\<rparr> =
      answer_with ThresholdJWTResponse_json (generateThresholdJWT C w default_claims)"
proof -
  have "request_claims body = None" using assms by (auto simp: request_claims_def)
  then show ?thesis
    by (simp add: coordinator_serve_def signJWTHandler_def thresholdJWTHandler_def StatusBadRequest_def)
qed

theorem claims_required_witness:
  "coordinator_serve (local_coordinator toy_frost demo_config local_demo_sites) local_demo_states
     \<lparr>req_path = ''/sign-jwt'', req_body = []\<rparr> = (http_Error 400 ''claims are required'', local_demo_states)"
proof -
  have "decode_ThresholdJWTRequest [] = Err io_EOF"
    by (simp add: decode_ThresholdJWTRequest_def json_Decode_empty)
  then have "(\<exists>e. decode_ThresholdJWTRequest [] = Err e) \<or>
      (\<exists>req. decode_ThresholdJWTRequest [] = Ret req \<and> Claims req = [])" by blast
  from claims_required [OF this] show ?thesis by (rule conjunct1)
qed

text \<open>
  This coordinator needs all of its three signers: when the call to the first one fails, or its
  answer does not decode, every signing request ends in status 500 with that failure's text, and no
  other signer is called.
\<close>

theorem first_failure_ends_request:
  assumes "ask_commitment C w ''8081'' = (Err e, w')"
    "path \<in> {''/collect-commitment'', ''/collect-signatures'', ''/threshold-sign'', ''/threshold-jwt''}"
  shows "coordinator_serve C w \<lparr>req_path = path, req_body = b\<rparr> = (http_Error 500 (err_text e), w')"
proof -
  have "collectCommitments C w = (Err e, w')"
    using assms(1) by (simp add: collectCommitments_def signerPorts_def)
  then show ?thesis
    using assms(2)
    by (auto simp: coordinator_serve_def collectCommitmentHandler_def collectSignaturesHandler_def
        thresholdSignHandler_def thresholdJWTHandler_def generateThresholdJWT_def answer_with_def
        StatusInternalServerError_def Let_def)
qed

definition dead_coordinator :: "(gf7, gf7, u16 \<times> u64, nat) coordinator" where
  "dead_coordinator =
     \<lparr>co_F = toy_frost, co_Config = demo_config,
      co_Post = (\<lambda>n url body. (Err unreachable, n + 1)), co_Get = (\<lambda>n url. (Err unreachable, n + 1))\<rparr>"

theorem first_failure_ends_request_witness:
  "coordinator_serve dead_coordinator 0 \<lparr>req_path = ''/threshold-sign'', req_body = []\<rparr> =
     (http_Error 500 ''dial tcp: connection refused'', 1)"
proof -
  have "ask_commitment dead_coordinator 0 ''8081'' = (Err unreachable, 1)"
    by (simp add: ask_commitment_def dead_coordinator_def)
  from first_failure_ends_request [OF this, of "''/threshold-sign''" "[]"] show ?thesis
    by (simp add: unreachable_def)
qed

text \<open>A request whose claims are the empty object.\<close>

definition empty_claims_request :: bytes where
  "empty_claims_request = json_Encode (obj [(''claims'', obj [])])"

lemma empty_claims: "request_claims empty_claims_request = Some ''{}''"
proof -
  have "valid_utf8 ''claims''" by (rule ascii_valid_utf8) simp
  then have "canonical (obj [(''claims'', obj [])])" by (simp add: canonical_obj)
  moreover have "depth (obj [(''claims'', obj [])]) \<le> Suc 1"
    by (rule depth_obj) (simp add: obj_def)
  ultimately have "decode_ThresholdJWTRequest empty_claims_request = Ret \<lparr>Claims = ''{}''\<rparr>"
    unfolding decode_ThresholdJWTRequest_def empty_claims_request_def
    by (intro json_Decode_Encode)
       (simp_all add: json_max_depth_def into_ThresholdJWTRequest_def into_obj_simps
          zero_ThresholdJWTRequest_def)
  then show ?thesis by (simp add: request_claims_def)
qed

theorem local_coordinator_signs_witness:
  "\<exists>ss z. local_session toy_frost demo_config local_demo_states
      (b64_RawURL_encode frost_jwt_header @ ''.'' @ b64_RawURL_encode ''{}'') ss z \<and>
    fst (coordinator_serve (local_coordinator toy_frost demo_config local_demo_sites) local_demo_states
        \<lparr>req_path = ''/sign-jwt'', req_body = empty_claims_request\<rparr>) = json_reply (SignJWTResponse_json
          \<lparr>JWTToken = b64_RawURL_encode frost_jwt_header @ ''.'' @ b64_RawURL_encode ''{}'' @ ''.'' @
             b64_RawURL_encode (Signature_Hex toy_frost z)\<rparr>)"
proof -
  have n: "length local_demo_states = 3" "cfg_Threshold demo_config \<le> 3"
    by (simp_all add: local_demo_states_def demo_config_def)
  from local_coordinator_signs [OF local_demo_ok n(1) toy_complete _ local_demo_identifiers n(2) empty_claims]
  show ?thesis by blast
qed

subsection \<open>One process\<close>

definition demo_lab :: "(gf7, gf7, u16 \<times> u64) lab_env" where
  "demo_lab = \<lparr>lab_F = toy_frost, lab_Identifier = (\<lambda>k. PubID (PubShare k)), lab_Group = (\<lambda>_. ''1'')\<rparr>"

text \<open>
  C29. \<open>cmd/frostlab\<close> runs one session from the dealt shares to the signature: with three signers whose
  numbers ascend, as a dealer makes them, each signs the message under the three commitments, the shares
  aggregate, and the program prints exactly the lines of \<open>lab_transcript\<close>: the report on the shares,
  each signer, each commitment, each signature share, the success, and the signature's group.
\<close>

theorem frostlab_signs:
  assumes "frost_complete (lab_F B) cfg valid" "sorts_by_signer (lab_F B)"
    and "shard = Ret shares" "3 \<le> length shares"
    and "Config_Init (lab_F B) (new_config (lab_F B) (hd shares) shares) = Ret cfg"
      "cfg_Threshold cfg \<le> 3"
    and "\<forall>i < 3. Config_Signer (lab_F B) cfg (shares ! i) = Ret (g i) \<and> valid (g i)"
    and "sorted_wrt (<) (map (\<lambda>i. unat (Signer_Identifier (lab_F B) (g i))) [0, 1, 2])"
    and "cs = map (\<lambda>i. fst (Signer_Commit (lab_F B) (g i))) [0, 1, 2]"
  shows "\<exists>ss z. length ss = 3 \<and>
    (\<forall>i < 3. fst (Signer_Sign (lab_F B) (snd (Signer_Commit (lab_F B) (g i))) ''hello-frost-threshold-signing'' cs) = Ret (ss ! i)) \<and>
    Config_Aggregate (lab_F B) cfg ''hello-frost-threshold-signing'' ss cs True = Ret z \<and>
    frostlab_main B shard out =
      (Ret (), out @ print_lines (lab_transcript B shares (map g [0, 1, 2]) cs ss z))"
  by (rule frostlab_runs [OF assms, unfolded frostlab_message_def])

theorem frostlab_signs_witness:
  "\<exists>cs ss z. frostlab_main demo_lab (Ret demo_shares) [] = (Ret (), print_lines
     (lab_transcript demo_lab demo_shares
        (map (\<lambda>i. (PubID (PubShare (demo_shares ! i)), 0)) [0, 1, 2]) cs ss z)) \<and> length ss = 3"
proof -
  let ?cfg = "new_config toy_frost (hd demo_shares) demo_shares"
  let ?g = "\<lambda>i. (PubID (PubShare (demo_shares ! i)), 0 :: u64)"
  have complete: "frost_complete (lab_F demo_lab) ?cfg (\<lambda>_. True)"
    by (simp add: demo_lab_def toy_complete)
  have sort: "sorts_by_signer (lab_F demo_lab)"
    by (auto simp: sorts_by_signer_def demo_lab_def toy_frost_def sort_key_id_if_sorted)
  have shares: "3 \<le> length demo_shares" by (simp add: demo_shares_def)
  have config: "Config_Init (lab_F demo_lab) (new_config (lab_F demo_lab) (hd demo_shares) demo_shares) = Ret ?cfg"
      "cfg_Threshold ?cfg \<le> 3"
    by (simp_all add: demo_lab_def toy_frost_def new_config_def)
  have signers: "\<forall>i < 3. Config_Signer (lab_F demo_lab) ?cfg (demo_shares ! i) = Ret (?g i) \<and> True"
    by (simp add: demo_lab_def toy_frost_def)
  have ids: "sorted_wrt (<) (map (\<lambda>i. unat (Signer_Identifier (lab_F demo_lab) (?g i))) [0, 1, 2])"
    by (simp add: demo_lab_def toy_frost_def demo_shares_def upt_conv_Cons)
  from frostlab_signs [OF complete sort refl shares config signers ids refl, of "[]"] show ?thesis
    by (simp only: append_Nil) blast
qed

end
