(* ===== verification/Legacy.thy ===== *)
theory Legacy
  imports Prelude
begin

text \<open>
  \<open>internal/coordinator\<close>, \<open>internal/signer\<close> and \<open>internal/types\<close>: the repository's first sketch, in which
  every signer holds an ECDSA key of its own and the coordinator collects whole signatures.  No
  program uses it any more.  ECDSA is the record \<open>asn1_std\<close>; \<open>rnd\<close> is what each operation reads from
  \<open>rand.Reader\<close>.
\<close>

record ('k, 'r) asn1_std =
  legacy_GenerateKey :: "'r \<Rightarrow> 'k go"
  SignASN1 :: "'r \<Rightarrow> 'k \<Rightarrow> bytes \<Rightarrow> bytes go"
  VerifyASN1 :: "'k \<Rightarrow> bytes \<Rightarrow> bytes \<Rightarrow> bool"
  legacy_Sum256 :: "bytes \<Rightarrow> bytes"

record PartialSignature =
  partial_SignerID :: string
  partial_Signature :: bytes

record FinalSignature =
  Participants :: "string list"
  Count :: nat

record 'k LegacySigner =
  legacy_ID :: string
  PrivateKey :: 'k

definition GenerateKeyPair :: "('k, 'r) asn1_std \<Rightarrow> 'r \<Rightarrow> 'k go" where
  "GenerateKeyPair S rnd = legacy_GenerateKey S rnd"

definition LegacySigner_New :: "('k, 'r) asn1_std \<Rightarrow> 'r \<Rightarrow> string \<Rightarrow> 'k LegacySigner go" where
  "LegacySigner_New S rnd ident =
     (case GenerateKeyPair S rnd of
        Ret key \<Rightarrow> Ret \<lparr>legacy_ID = ident, PrivateKey = key\<rparr>
      | _ \<Rightarrow> Panic)"

definition LegacySigner_Sign ::
  "('k, 'r) asn1_std \<Rightarrow> 'r \<Rightarrow> 'k LegacySigner \<Rightarrow> string \<Rightarrow> PartialSignature go" where
  "LegacySigner_Sign S rnd s message =
     (let hash = legacy_Sum256 S message in
      case SignASN1 S rnd (PrivateKey s) hash of
        Ret signature \<Rightarrow> Ret \<lparr>partial_SignerID = legacy_ID s, partial_Signature = signature\<rparr>
      | _ \<Rightarrow> Panic)"

definition LegacySigner_Verify ::
  "('k, 'r) asn1_std \<Rightarrow> 'k LegacySigner \<Rightarrow> string \<Rightarrow> bytes \<Rightarrow> bool" where
  "LegacySigner_Verify S s message signature =
     (let hash = legacy_Sum256 S message in VerifyASN1 S (PrivateKey s) hash signature)"

record 'k LegacyCoordinator =
  Signers :: "'k LegacySigner list"
  legacy_Threshold :: int

definition Aggregate :: "PartialSignature list \<Rightarrow> FinalSignature" where
  "Aggregate signatures =
     (let participants = map partial_SignerID signatures
      in \<lparr>Participants = participants, Count = length participants\<rparr>)"

text \<open>
  The loop of \<open>Sign\<close>: it stops after the signature that reaches the threshold.  The second component
  is what it prints about each signature, the result of checking it.
\<close>

fun sign_loop ::
  "('k, 'r) asn1_std \<Rightarrow> (nat \<Rightarrow> 'r) \<Rightarrow> int \<Rightarrow> string \<Rightarrow> PartialSignature list \<Rightarrow> bool list \<Rightarrow>
     'k LegacySigner list \<Rightarrow> (PartialSignature list \<times> bool list) go" where
  "sign_loop S rnd t message acc shown [] = Ret (acc, shown)"
| "sign_loop S rnd t message acc shown (s # ss) =
     bind_go (LegacySigner_Sign S (rnd (length acc)) s message) (\<lambda>p.
       let signatures = acc @ [p];
           valid = LegacySigner_Verify S s message (partial_Signature p)
       in if t \<le> int (length signatures) then Ret (signatures, shown @ [valid])
          else sign_loop S rnd t message signatures (shown @ [valid]) ss)"

definition LegacyCoordinator_Sign ::
  "('k, 'r) asn1_std \<Rightarrow> (nat \<Rightarrow> 'r) \<Rightarrow> 'k LegacyCoordinator \<Rightarrow> string \<Rightarrow>
     (FinalSignature \<times> bool list) go" where
  "LegacyCoordinator_Sign S rnd c message =
     bind_go (sign_loop S rnd (legacy_Threshold c) message [] [] (Signers c))
       (\<lambda>(signatures, shown). Ret (Aggregate signatures, shown))"

subsection \<open>What it collects\<close>

text \<open>
  The number of signatures the loop ends with: as many as the threshold asks for, at least one, and
  never more than there are signers.
\<close>

lemma sign_loop_participants:
  "sign_loop S rnd t m acc shown ss = Ret (acc', shown') \<Longrightarrow>
     map partial_SignerID acc' =
       map partial_SignerID acc @ take (max 1 (nat t - length acc)) (map legacy_ID ss)"
proof (induction ss arbitrary: acc shown)
  case Nil
  then show ?case by simp
next
  case (Cons s ss)
  then obtain p where p: "LegacySigner_Sign S (rnd (length acc)) s m = Ret p"
    by (auto simp: bind_go_eq_Ret)
  then have id: "partial_SignerID p = legacy_ID s"
    by (auto simp: LegacySigner_Sign_def Let_def split: go.splits)
  show ?case
  proof (cases "t \<le> int (length acc) + 1")
    case True
    then have "acc' = acc @ [p]" "max 1 (nat t - length acc) = 1" using Cons.prems p by auto
    with id show ?thesis by simp
  next
    case False
    with Cons.prems p have rest: "sign_loop S rnd t m (acc @ [p])
        (shown @ [LegacySigner_Verify S s m (partial_Signature p)]) ss = Ret (acc', shown')"
      by (simp add: Let_def)
    have "max 1 (nat t - length acc) = Suc (max 1 (nat t - length (acc @ [p])))" using False by auto
    with Cons.IH [OF rest] id show ?thesis by simp
  qed
qed

end
