(* ===== verification/Storage_Properties.thy ===== *)
theory Storage_Properties
  imports Instances Signer_Server Legacy
begin

text \<open>
  The properties of key storage and start-up (\<open>internal/keystore\<close>, \<open>internal/froststate\<close>,
  \<open>internal/coordinatorstate\<close>, \<open>cmd/keygen\<close>, \<open>cmd/encrypt-keys\<close>), of the signature format and of the
  legacy packages.
\<close>

subsection \<open>Keys at rest\<close>

text \<open>
  C25. What \<open>Decrypt\<close> returns, on every input: exactly the text whose sealing under the password's key
  the store holds, and a panic exactly when the store parses but its nonce has not twelve bytes; the
  deployed copy returns and panics alike.  So a wrong password or a changed store never gives a key
  file other than the one that was sealed, and a damaged nonce takes the process down.
\<close>

theorem decrypt_characterised:
  assumes "aead_lawful A"
  shows "(Decrypt A t pw = Ret d \<longleftrightarrow>
      (\<exists>s n. json_Unmarshal into_EncryptedStore zero_EncryptedStore t = Ret s \<and>
         hex_DecodeString (Nonce s) = Ret n \<and> length n = 12 \<and>
         hex_DecodeString (Ciphertext s) = Ret (Seal A (deriveKey A pw) n d))) \<and>
    (Decrypt A t pw = Panic \<longleftrightarrow>
      (\<exists>s n c. json_Unmarshal into_EncryptedStore zero_EncryptedStore t = Ret s \<and>
         hex_DecodeString (Nonce s) = Ret n \<and> hex_DecodeString (Ciphertext s) = Ret c \<and> length n \<noteq> 12)) \<and>
    (deploy_Decrypt A t pw = Ret d \<longleftrightarrow> Decrypt A t pw = Ret d) \<and>
    (deploy_Decrypt A t pw = Panic \<longleftrightarrow> Decrypt A t pw = Panic) \<and>
    deploy_SaveEncryptedKeys A rnd kf ef pw fs = SaveEncryptedKeys A rnd kf ef pw fs"
proof (intro conjI)
  show "Decrypt A t pw = Ret d \<longleftrightarrow>
      (\<exists>s n. json_Unmarshal into_EncryptedStore zero_EncryptedStore t = Ret s \<and>
         hex_DecodeString (Nonce s) = Ret n \<and> length n = 12 \<and>
         hex_DecodeString (Ciphertext s) = Ret (Seal A (deriveKey A pw) n d))"
    unfolding Decrypt_def
    by (auto elim!: Decrypt_with_authentic [OF assms] simp: gcm_NonceSize_def
        Decrypt_with_store [OF assms] gcm_Open_def assms [unfolded aead_lawful_def])
  show "Decrypt A t pw = Panic \<longleftrightarrow>
      (\<exists>s n c. json_Unmarshal into_EncryptedStore zero_EncryptedStore t = Ret s \<and>
         hex_DecodeString (Nonce s) = Ret n \<and> hex_DecodeString (Ciphertext s) = Ret c \<and> length n \<noteq> 12)"
    by (auto simp: Decrypt_def Decrypt_with_panic [OF assms] gcm_NonceSize_def)
  show "deploy_Decrypt A t pw = Ret d \<longleftrightarrow> Decrypt A t pw = Ret d"
    "deploy_Decrypt A t pw = Panic \<longleftrightarrow> Decrypt A t pw = Panic"
    by (simp_all add: deploy_Decrypt_eq Decrypt_def Decrypt_with_Ret_message Decrypt_with_panic [OF assms])
  show "deploy_SaveEncryptedKeys A rnd kf ef pw fs = SaveEncryptedKeys A rnd kf ef pw fs"
    by (rule deploy_SaveEncryptedKeys_eq)
qed

definition demo_nonce :: bytes where
  "demo_nonce = ''twelve bytes''"

definition demo_sealed :: bytes where
  "demo_sealed = json_Marshal (EncryptedStore_json
     \<lparr>Nonce = hex_EncodeToString demo_nonce,
      Ciphertext = hex_EncodeToString (Seal toy_aead (deriveKey toy_aead ''pw'') demo_nonce ''secret'')\<rparr>)"

lemma demo_sealed_store:
  "json_Unmarshal into_EncryptedStore zero_EncryptedStore demo_sealed = Ret
     \<lparr>Nonce = hex_EncodeToString demo_nonce,
      Ciphertext = hex_EncodeToString (Seal toy_aead (deriveKey toy_aead ''pw'') demo_nonce ''secret'')\<rparr>"
  unfolding demo_sealed_def by (rule store.dec_enc) simp

theorem decrypt_characterised_witness:
  "Decrypt toy_aead demo_sealed ''pw'' = Ret ''secret''"
proof -
  have "length demo_nonce = 12" by (simp add: demo_nonce_def)
  then show ?thesis
    using decrypt_characterised [OF toy_aead_lawful, of demo_sealed "''pw''" "''secret''"]
    by (simp add: demo_sealed_store hex_decode_encode)
qed

text \<open>
  C26. Encrypting the key file and starting from the result: after \<open>encrypt-keys\<close> has run, a signer
  with the same password, and no share in Vault, loads the very bytes of the plain file, also when the
  plain file has been removed since, and \<open>encrypt-keys\<close> changed no other file.
\<close>

theorem encrypted_file_loads:
  assumes "aead_lawful A" "encrypt_keys_main A (Ret nonce) env fs = (Ret u, fs')" "length nonce = 12"
    and "env ''VAULT_ADDR'' = [] \<or> env ''VAULT_TOKEN'' = []"
    and "entries fs'' ''data/frost-keys.enc'' = entries fs' ''data/frost-keys.enc''"
  shows "\<exists>data. ReadFile ''data/frost-keys.json'' fs = Ret data \<and>
    loadKeysData A V env fs'' i = Ret (data, []) \<and>
    (\<forall>p. p \<noteq> ''data/frost-keys.enc'' \<longrightarrow> entries fs' p = entries fs p)"
proof -
  from assms(2) have save: "SaveEncryptedKeys A (Ret nonce) ''data/frost-keys.json''
      ''data/frost-keys.enc'' (key_password env) fs = (Ret u, fs')"
    by (simp add: encrypt_keys_main_def key_password_def Let_def)
  from SaveEncryptedKeys_Ret [OF save] obtain data c where
    d: "ReadFile ''data/frost-keys.json'' fs = Ret data" "Encrypt A (Ret nonce) data (key_password env) = Ret c"
      "ReadFile ''data/frost-keys.enc'' fs' = Ret c" by blast
  have "ReadFile ''data/frost-keys.enc'' fs'' = Ret c"
    using d(3) assms(5) by (simp add: ReadFile_def)
  moreover have "Decrypt A c (key_password env) = Ret data"
    unfolding Decrypt_def
    using Decrypt_with_Encrypt [OF assms(1) d(2)] assms(3) by (simp add: gcm_NonceSize_def)
  ultimately have "load_local A env fs'' = Ret data"
    by (simp add: load_local_encrypted)
  with assms(4) have "loadKeysData A V env fs'' i = Ret (data, [])"
    by (auto simp: loadKeysData_def Let_def)
  with d(1) SaveEncryptedKeys_other [OF save] show ?thesis by blast
qed

definition no_vault :: vault where
  "no_vault =
     \<lparr>vault_NewRequest = (\<lambda>_. None), vault_Do = (\<lambda>_ _. Err (Msg ''dial tcp: connection refused''))\<rparr>"

theorem encrypted_file_loads_witness:
  "\<exists>fs' data. encrypt_keys_main toy_aead (Ret demo_nonce) (\<lambda>_. []) demo_fs = (Ret (), fs') \<and>
     ReadFile ''data/frost-keys.json'' demo_fs = Ret data \<and>
     loadKeysData toy_aead no_vault (\<lambda>_. []) fs' 1 = Ret (data, [])"
proof -
  have n: "length demo_nonce = 12" by (simp add: demo_nonce_def)
  obtain fs' where e: "encrypt_keys_main toy_aead (Ret demo_nonce) (\<lambda>_. []) demo_fs = (Ret (), fs')"
    using SaveEncryptedKeys_ok [OF toy_aead_lawful demo_key_file]
    by (fastforce simp: encrypt_keys_main_def demo_fs_def)
  from encrypted_file_loads [OF toy_aead_lawful e n, of fs'] e show ?thesis by fastforce
qed

subsection \<open>Start-up\<close>

text \<open>
  C37. With a share from Vault a signer still reads everybody's shares: it takes its own from Vault, and
  the secrets of all the others from the key file on its disk, each under its own number.
\<close>

theorem vault_signer_reads_all_shares:
  assumes "prepare F A V env fs = Ret (i, ks, cfg)"
    and "env ''VAULT_ADDR'' \<noteq> []" "env ''VAULT_TOKEN'' \<noteq> []"
    and "loadShareFromVault V (env ''VAULT_ADDR'') (env ''VAULT_TOKEN'') i = Ret share"
    and "ReadFile ''data/frost-keys.json'' fs = Ret data" "unmarshal_stored data = Ret stored"
    and "1 \<le> i" "i \<le> int (length (stored_Shares stored))"
  shows "parse_signer_id env = Ret i \<and> length ks = length (stored_Shares stored) \<and>
    KeyShare_DecodeHex F share = Ret (ks ! nat (i - 1)) \<and>
    (\<forall>j < length ks. int j \<noteq> i - 1 \<longrightarrow> KeyShare_DecodeHex F (stored_Shares stored ! j) = Ret (ks ! j))"
proof -
  have ne: "share \<noteq> []" using assms(4) by (rule loadShareFromVault_nonempty)
  have id: "parse_signer_id env = Ret i"
    using assms(1) by (auto simp: prepare_def bind_go_eq_Ret)
  have "loadKeysData A V env fs i = Ret ([], share)"
    by (rule loadKeysData_vault [OF assms(2-4)])
  moreover have "stored_keys A env fs i [] share =
      Ret (stored\<lparr>stored_Shares := (stored_Shares stored)[nat (i - 1) := share]\<rparr>)"
    using assms(5-8) ne by (simp add: stored_keys_def Let_def)
  ultimately have "decode_shares F ((stored_Shares stored)[nat (i - 1) := share]) = Ret ks"
    using assms(1) id by (auto simp: prepare_def bind_go_eq_Ret)
  then have dec: "list_all2 (\<lambda>h k. KeyShare_DecodeHex F h = Ret k)
      ((stored_Shares stored)[nat (i - 1) := share]) ks"
    by (simp add: decode_shares_def traverse_eq_Ret)
  then have len: "length ks = length (stored_Shares stored)" by (auto dest: list_all2_lengthD)
  have at: "KeyShare_DecodeHex F ((stored_Shares stored)[nat (i - 1) := share] ! j) = Ret (ks ! j)"
    if "j < length ks" for j
    using dec that by (auto simp: list_all2_conv_all_nth)
  show ?thesis
  proof (intro conjI allI impI)
    show "KeyShare_DecodeHex F share = Ret (ks ! nat (i - 1))"
      using at [of "nat (i - 1)"] assms(7,8) len by simp
    fix j assume j: "j < length ks" "int j \<noteq> i - 1"
    then have "j \<noteq> nat (i - 1)" using assms(7) by linarith
    with at [OF j(1)] show "KeyShare_DecodeHex F (stored_Shares stored ! j) = Ret (ks ! j)" by simp
  qed (use id len in simp_all)
qed

definition vault_env :: environment where
  "vault_env =
     (\<lambda>k. if k = ''SIGNER_ID'' then ''2'' else if k = ''VAULT_ADDR'' then ''http://vault''
          else if k = ''VAULT_TOKEN'' then ''token'' else [])"

definition vault_share :: string where
  "vault_share = KeyShare_Hex toy_frost (demo_shares ! 1)"

definition demo_vault :: vault where
  "demo_vault =
     \<lparr>vault_NewRequest = (\<lambda>_. None),
      vault_Do = (\<lambda>_ _. Ret (json_Marshal (obj [(''data'', obj [(''data'', obj
        [(''share'', JStr vault_share)])])])))\<rparr>"

lemma vault_share_ascii: "valid_utf8 vault_share"
  using toy_share_codec by (simp add: vault_share_def share_codec_def ascii_def ascii_valid_utf8)

lemma demo_vault_share:
  "loadShareFromVault demo_vault (vault_env ''VAULT_ADDR'') (vault_env ''VAULT_TOKEN'') 2 = Ret vault_share"
proof -
  let ?share = "obj [(''share'', JStr vault_share)]"
  let ?j = "obj [(''data'', obj [(''data'', ?share)])]"
  have tags: "valid_utf8 ''data''" by (rule ascii_valid_utf8) simp
  then have can: "canonical ?j" using vault_share_ascii by (simp add: canonical_obj)
  have "depth ?j \<le> Suc (Suc (Suc 0))" by (intro depth_obj) (auto intro!: depth_obj)
  then have deep: "depth ?j \<le> json_max_depth" by (simp add: json_max_depth_def)
  have into: "into_vault_share [] ?j = Some vault_share"
    by (simp add: into_vault_share_def into_obj_simps)
  have reads: "json_Unmarshal into_vault_share [] (json_Marshal ?j) = Ret vault_share"
    by (rule json_Unmarshal_Marshal) (rule can deep into)+
  have "vault_share \<noteq> []" by (simp add: vault_share_def toy_frost_def number_text_def)
  then show ?thesis
    by (simp add: loadShareFromVault_def Let_def demo_vault_def reads)
qed

lemma demo_stored_back:
  "unmarshal_stored (json_Encode (StoredKeys_json
     \<lparr>stored_Config = [], stored_Shares = map (KeyShare_Hex toy_frost) demo_shares\<rparr>)) =
   Ret \<lparr>stored_Config = [], stored_Shares = map (KeyShare_Hex toy_frost) demo_shares\<rparr>"
  using keygen_stored_back [OF toy_share_codec, of "\<lambda>_. []"] by (simp add: ascii_def)

lemma demo_shares_length [simp]: "length demo_shares = 5"
  by (simp add: demo_shares_def)

lemma show_nat_2: "show_nat 2 = ''2''"
  by (simp add: show_nat.simps [of 2] digit_def char_of_eq_iff)

lemma demo_vault_prepare:
  "prepare toy_frost toy_aead demo_vault vault_env demo_fs = Ret (2, demo_shares, demo_config)"
proof -
  have "config_SignerID vault_env = show_nat 2"
    by (simp add: config_SignerID_def vault_env_def show_nat_2)
  then have id: "parse_signer_id vault_env = Ret 2"
    using Atoi_show [of 2] by (simp add: parse_signer_id_def)
  have keys: "loadKeysData toy_aead demo_vault vault_env demo_fs 2 = Ret ([], vault_share)"
    by (rule loadKeysData_vault [OF _ _ demo_vault_share]) (simp_all add: vault_env_def)
  have same: "(map (KeyShare_Hex toy_frost) demo_shares)[1 := vault_share] =
      map (KeyShare_Hex toy_frost) demo_shares"
    unfolding vault_share_def by (rule list_update_same_conv [THEN iffD2]) simp_all
  have "vault_share \<noteq> []" by (simp add: vault_share_def toy_frost_def number_text_def)
  then have "stored_keys toy_aead vault_env demo_fs 2 [] vault_share =
      Ret \<lparr>stored_Config = [], stored_Shares = map (KeyShare_Hex toy_frost) demo_shares\<rparr>"
    using same by (simp add: stored_keys_def Let_def demo_key_file demo_stored_back)
  then show ?thesis
    by (simp add: prepare_def id keys decode_shares_Hex [OF toy_share_codec] demo_config_of)
qed

theorem vault_signer_reads_all_shares_witness:
  "prepare toy_frost toy_aead demo_vault vault_env demo_fs = Ret (2, demo_shares, demo_config) \<and>
   KeyShare_DecodeHex toy_frost vault_share = Ret (demo_shares ! 1) \<and>
   KeyShare_DecodeHex toy_frost (KeyShare_Hex toy_frost (demo_shares ! 4)) = Ret (demo_shares ! 4)"
  using vault_signer_reads_all_shares [OF demo_vault_prepare _ _ demo_vault_share demo_key_file
      demo_stored_back] demo_vault_prepare
  by (simp add: vault_env_def)

text \<open>
  C21. Start-up is all or nothing.  If it succeeds, the configuration is the one built from all the
  shares that were loaded, the signer and every one of the twenty signers of the pool hold the share
  under \<open>SIGNER_ID\<close>, which is between one and the number of shares; if it fails or panics, no global
  variable has changed.
\<close>

theorem init_all_or_nothing:
  "(\<exists>i ks cfg s. frost_Init F A V env fs g = (Ret (), g\<lparr>g_Signer := Some s, g_Config := Some cfg,
        g_Pool := Some \<lparr>chan_cap = 20, chan_buf = replicate 20 s\<rparr>\<rparr>) \<and>
      prepare F A V env fs = Ret (i, ks, cfg) \<and> parse_signer_id env = Ret i \<and>
      1 \<le> i \<and> i \<le> int (length ks) \<and> config_of F ks = Ret cfg \<and>
      Config_Signer F cfg (ks ! nat (i - 1)) = Ret s) \<or>
   (\<not> is_ret (fst (frost_Init F A V env fs g)) \<and> snd (frost_Init F A V env fs g) = g)"
proof (cases "prepare F A V env fs")
  case (Ret x)
  obtain i ks cfg where x: "x = (i, ks, cfg)" by (cases x)
  have pre: "parse_signer_id env = Ret i" "config_of F ks = Ret cfg"
    using Ret x by (auto simp: prepare_def bind_go_eq_Ret)
  have run: "frost_Init F A V env fs g = install F (i - 1) ks cfg g"
    using Ret x by (simp add: frost_Init_def)
  show ?thesis
  proof (cases "is_ret (fst (install F (i - 1) ks cfg g))")
    case True
    then obtain g' where g': "install F (i - 1) ks cfg g = (Ret (), g')"
      by (cases "install F (i - 1) ks cfg g") (auto simp: is_ret_iff)
    from install_Ret [OF g'] Ret x pre run g' show ?thesis
      by (intro disjI1) (auto simp: PoolSize_def)
  next
    case False
    then show ?thesis using install_failed [OF False] by (simp add: run)
  qed
qed (simp_all add: frost_Init_def)


definition two_env :: "string \<Rightarrow> environment" where
  "two_env ident = (\<lambda>k. if k = ''SIGNER_ID'' then ident else [])"

text \<open>
  C38. \<open>SIGNER_ID\<close>.  A text that \<open>Atoi\<close> refuses ends start-up with the error that quotes it, before any
  file is read and without touching a global, while the key generation of the same process takes a text
  that is not a number as the number 0; a number outside the shares that were loaded, once everything
  else has succeeded, is an index out of range: a panic, not an error.  Either way the process dies.
\<close>

theorem signer_id_errors:
  "(\<forall>e. snd (Atoi (config_SignerID env)) = Some e \<longrightarrow>
      frost_Init F A V env fs g =
        (Err (Wrap ''parse signer id'' (Msg (num_error_text ''Atoi'' (config_SignerID env) e))), g) \<and>
      signer_main F A V env fs = Panic) \<and>
   (snd (Atoi (config_SignerID env)) = Some BadSyntax \<longrightarrow> dkg_id env = 0) \<and>
   (\<forall>i ks cfg. prepare F A V env fs = Ret (i, ks, cfg) \<longrightarrow> i < 1 \<or> int (length ks) < i \<longrightarrow>
      frost_Init F A V env fs g = (Panic, g) \<and> signer_main F A V env fs = Panic)"
proof (intro conjI allI impI)
  fix e assume e: "snd (Atoi (config_SignerID env)) = Some e"
  then have "parse_signer_id env =
      Err (Wrap ''parse signer id'' (Msg (num_error_text ''Atoi'' (config_SignerID env) e)))"
    unfolding parse_signer_id_def by (cases "Atoi (config_SignerID env)") simp
  then have init: "frost_Init F A V env fs h =
      (Err (Wrap ''parse signer id'' (Msg (num_error_text ''Atoi'' (config_SignerID env) e))), h)" for h
    by (simp add: frost_Init_def prepare_def)
  show "frost_Init F A V env fs g =
      (Err (Wrap ''parse signer id'' (Msg (num_error_text ''Atoi'' (config_SignerID env) e))), g)" by (rule init)
  show "signer_main F A V env fs = Panic" by (simp add: signer_main_def init)
next
  assume "snd (Atoi (config_SignerID env)) = Some BadSyntax"
  then have "Atoi (config_SignerID env) = (fst (Atoi (config_SignerID env)), Some BadSyntax)"
    by (simp add: prod_eq_iff)
  from Atoi_BadSyntax [OF this] show "dkg_id env = 0" by (simp add: dkg_id_def)
next
  fix i ks cfg assume "prepare F A V env fs = Ret (i, ks, cfg)" "i < 1 \<or> int (length ks) < i"
  then have init: "frost_Init F A V env fs h = (Panic, h)" for h
    by (auto simp: frost_Init_def install_out_of_range)
  show "frost_Init F A V env fs g = (Panic, g)" by (rule init)
  show "signer_main F A V env fs = Panic" by (simp add: signer_main_def init)
qed

theorem signer_id_errors_witness:
  "frost_Init toy_frost toy_aead no_vault (two_env ''x'') demo_fs no_globals =
     (Err (Wrap ''parse signer id'' (Msg (num_error_text ''Atoi'' ''x'' BadSyntax))), no_globals) \<and>
   dkg_id (two_env ''x'') = 0 \<and>
   frost_Init toy_frost toy_aead no_vault (two_env ''9'') demo_fs no_globals = (Panic, no_globals)"
proof -
  have c: "config_SignerID (two_env i) = i" if "i \<noteq> []" for i
    using that by (simp add: config_SignerID_def two_env_def)
  have x: "snd (Atoi (config_SignerID (two_env ''x''))) = Some BadSyntax"
    using Atoi_not_a_number [of "CHR ''x''" "[]"] by (simp add: c digit_val_def)
  have nine: "show_nat 9 = ''9''" by (simp add: show_nat.simps [of 9] digit_def char_of_eq_iff)
  have vault: "two_env ''9'' ''VAULT_ADDR'' = []" by (simp add: two_env_def)
  have enc: "entries demo_fs ''data/frost-keys.enc'' = None" by (simp add: demo_fs_def)
  have "config_SignerID (two_env ''9'') = show_nat 9" by (simp add: c nine)
  then have id: "parse_signer_id (two_env ''9'') = Ret 9"
    using Atoi_show [of 9] by (simp add: parse_signer_id_def)
  have key: "ReadFile ''data/frost-keys.json'' demo_fs = Ret (json_Encode (StoredKeys_json
      \<lparr>stored_Config = (\<lambda>_ :: gf7 Configuration. []) demo_config, stored_Shares = map (KeyShare_Hex toy_frost) demo_shares\<rparr>))"
    by (simp only: demo_key_file)
  have "prepare toy_frost toy_aead no_vault (two_env ''9'') demo_fs = Ret (9, demo_shares, demo_config)"
    by (rule prepare_plain [of toy_frost "\<lambda>_. []", OF toy_share_codec _ vault enc key demo_config_of id])
       (simp add: ascii_def)
  moreover have "int (length demo_shares) < 9" by (simp add: demo_shares_def)
  ultimately have "frost_Init toy_frost toy_aead no_vault (two_env ''9'') demo_fs no_globals = (Panic, no_globals)"
    using signer_id_errors [of "two_env ''9''" toy_frost toy_aead no_vault demo_fs no_globals] by blast
  moreover have "config_SignerID (two_env ''x'') = ''x''" by (simp add: c)
  ultimately show ?thesis
    using signer_id_errors [of "two_env ''x''" toy_frost toy_aead no_vault demo_fs no_globals] x by simp
qed

text \<open>
  C16. Key generation configures everyone alike: after \<open>keygen\<close>, a coordinator and every signer without
  Vault and without an encrypted file load the same configuration and the shares that were dealt; the
  process with \<open>SIGNER_ID = i\<close> asks the library for the signer of the \<open>i\<close>-th share, and if it gets one
  serves its first request with it, and if not dies with the library's error and no global set.
\<close>

theorem keygen_configures_everyone:
  assumes "keygen_main F hex shard fs = (Ret u, fs')" "share_codec F" "\<forall>c. ascii (hex c)"
    and "env ''VAULT_ADDR'' = []" "entries fs ''data/frost-keys.enc'' = None"
    and "parse_signer_id env = Ret i" "1 \<le> i" "i \<le> 5"
    and "\<forall>shares. shard = Ret shares \<longrightarrow> length shares = 5"
  shows "\<exists>shares cfg. shard = Ret shares \<and>
    Config_Init F \<lparr>cfg_Threshold = 3, cfg_MaxSigners = 5, cfg_VerificationKey = VerificationKey (shares ! 0),
      cfg_SignerPublicKeyShares = map (KeyShare_Public F) shares\<rparr> = Ret cfg \<and>
    coordinator_Init F fs' None = (Ret (), Some cfg) \<and>
    frost_Init F A V env fs' no_globals =
      (case Config_Signer F cfg (shares ! nat (i - 1)) of
         Ret s \<Rightarrow> (Ret (), \<lparr>g_Config = Some cfg, g_Signer = Some s,
                           g_Pool = Some \<lparr>chan_cap = 20, chan_buf = replicate 20 s\<rparr>\<rparr>)
       | Err e \<Rightarrow> (Err (Wrap ''create signer'' e), no_globals)
       | Panic \<Rightarrow> (Panic, no_globals)) \<and>
    signer_main F A V env fs' =
      (case Config_Signer F cfg (shares ! nat (i - 1)) of
         Ret s \<Rightarrow> Ret (start_state s, signer_listener env fs')
       | _ \<Rightarrow> Panic)"
proof -
  obtain shares cfg where "shares \<noteq> []" and k: "shard = Ret shares" "config_of F shares = Ret cfg"
    "ReadFile ''data/frost-keys.json'' fs' =
       Ret (json_Encode (StoredKeys_json \<lparr>stored_Config = hex cfg, stored_Shares = map (KeyShare_Hex F) shares\<rparr>))"
    and other: "\<And>p. p \<noteq> ''data/frost-keys.json'' \<Longrightarrow> entries fs' p = entries fs p"
    by (rule keygen_main_Ret [OF assms(1)]) blast
  have enc: "entries fs' ''data/frost-keys.enc'' = None"
    using other [OF keygen_files_differ] assms(5) by simp
  have len: "length shares = 5" using assms(9) k(1) by blast
  have hex: "\<And>c. ascii (hex c)" using assms(3) by blast
  have "index shares (i - 1) = Ret (shares ! nat (i - 1))" using assms(7,8) len by (simp add: index_def)
  moreover have "prepare F A V env fs' = Ret (i, shares, cfg)"
    by (rule prepare_plain [of F hex, OF assms(2) hex assms(4) enc k(3) k(2) assms(6)])
  ultimately have init: "frost_Init F A V env fs' no_globals =
      (case Config_Signer F cfg (shares ! nat (i - 1)) of
         Ret s \<Rightarrow> (Ret (), \<lparr>g_Config = Some cfg, g_Signer = Some s,
                           g_Pool = Some \<lparr>chan_cap = 20, chan_buf = replicate 20 s\<rparr>\<rparr>)
       | Err e \<Rightarrow> (Err (Wrap ''create signer'' e), no_globals)
       | Panic \<Rightarrow> (Panic, no_globals))"
    using fill_pool_new [of F cfg "shares ! nat (i - 1)"]
    by (simp add: frost_Init_def install_def Let_def no_globals_def PoolSize_def split: go.split)
  then have "signer_main F A V env fs' =
      (case Config_Signer F cfg (shares ! nat (i - 1)) of
         Ret s \<Rightarrow> Ret (start_state s, signer_listener env fs') | _ \<Rightarrow> Panic)"
    by (simp add: signer_main_def split: go.split)
  moreover have "coordinator_Init F fs' None = (Ret (), Some cfg)"
    using coordinator_config_plain [OF k(3) keygen_stored_back [of F hex cfg shares, OF assms(2) hex], of F] k(2)
    by (simp add: coordinator_Init_def decode_shares_Hex [OF assms(2)])
  moreover have "Config_Init F \<lparr>cfg_Threshold = 3, cfg_MaxSigners = 5, cfg_VerificationKey = VerificationKey (shares ! 0),
      cfg_SignerPublicKeyShares = map (KeyShare_Public F) shares\<rparr> = Ret cfg"
    using k(2) \<open>shares \<noteq> []\<close> by (simp add: config_of_Ret hd_conv_nth)
  ultimately show ?thesis using k(1) init by blast
qed

definition empty_fs :: file_system where
  "empty_fs = \<lparr>entries = (\<lambda>_. None), creatable = (\<lambda>_. True), disk_ok = (\<lambda>_. True)\<rparr>"

theorem keygen_configures_everyone_witness:
  "\<exists>fs' g. keygen_main toy_frost (\<lambda>_. []) (Ret demo_shares) empty_fs = (Ret (), fs') \<and>
     coordinator_Init toy_frost fs' None = (Ret (), Some demo_config) \<and>
     frost_Init toy_frost toy_aead no_vault (two_env ''2'') fs' no_globals = (Ret (), g) \<and>
     g_Config g = Some demo_config \<and> g_Signer g = Some (2, 0)"
proof -
  have "config_SignerID (two_env ''2'') = show_nat 2"
    by (simp add: config_SignerID_def two_env_def show_nat_2)
  then have id: "parse_signer_id (two_env ''2'') = Ret 2"
    using Atoi_show [of 2] by (simp add: parse_signer_id_def)
  have init: "Config_Init toy_frost (new_config toy_frost (demo_shares ! 0) demo_shares) = Ret demo_config"
    by (simp add: new_config_def toy_frost_def demo_config_def demo_shares_def upt_conv_Cons)
  obtain fs' where k: "keygen_main toy_frost (\<lambda>_. []) (Ret demo_shares) empty_fs = (Ret (), fs')"
    using index_in [of 0 demo_shares] init
    by (auto simp: keygen_main_def Let_def empty_fs_def Create_def write_file_def must_w_def)
  have vault: "two_env ''2'' ''VAULT_ADDR'' = []" by (simp add: two_env_def)
  have enc: "entries empty_fs ''data/frost-keys.enc'' = None" by (simp add: empty_fs_def)
  have "\<forall>c :: gf7 Configuration. ascii []" by (simp add: ascii_def)
  from keygen_configures_everyone [OF k toy_share_codec this vault enc id, of toy_aead no_vault]
  obtain cfg where r: "Config_Init toy_frost \<lparr>cfg_Threshold = 3, cfg_MaxSigners = 5,
      cfg_VerificationKey = VerificationKey (demo_shares ! 0),
      cfg_SignerPublicKeyShares = map (KeyShare_Public toy_frost) demo_shares\<rparr> = Ret cfg"
    "coordinator_Init toy_frost fs' None = (Ret (), Some cfg)"
    "frost_Init toy_frost toy_aead no_vault (two_env ''2'') fs' no_globals =
      (case Config_Signer toy_frost cfg (demo_shares ! 1) of
         Ret s \<Rightarrow> (Ret (), \<lparr>g_Config = Some cfg, g_Signer = Some s,
                           g_Pool = Some \<lparr>chan_cap = 20, chan_buf = replicate 20 s\<rparr>\<rparr>)
       | Err e \<Rightarrow> (Err (Wrap ''create signer'' e), no_globals)
       | Panic \<Rightarrow> (Panic, no_globals))" by (auto simp: demo_shares_def)
  have "cfg = demo_config" using r(1) init by (simp add: new_config_def)
  moreover have "Config_Signer toy_frost cfg (demo_shares ! 1) = Ret (2, 0)"
    by (simp add: toy_frost_def demo_shares_def)
  ultimately show ?thesis using k r(2,3) by auto
qed

subsection \<open>Messages and signatures\<close>

text \<open>
  The signature of a token by a P-256 key is the encoding that RFC 7518 asks for: 64 bytes, the two
  numbers of the ECDSA signature as big-endian octet strings of exactly 32 bytes each, leading zeros
  included.
\<close>

theorem es256_encoding:
  assumes "p256_key E k" "ecdsa_Sign E rnd k (Sum256 E m) = Ret (r, s)"
  shows "\<exists>sig. SignES256 E rnd k m = Ret sig \<and> b64_RawURL_decode sig = Ret (i2osp 32 r @ i2osp 32 s)"
proof -
  have "r < 2 ^ 256" "s < 2 ^ 256" using assms unfolding p256_key_def by blast+
  then have "r < 256 ^ 32" "s < 256 ^ 32" by simp_all
  then have "padLeft (big_Bytes r) 32 = i2osp 32 r" "padLeft (big_Bytes s) 32 = i2osp 32 s"
    using padLeft_i2osp by blast+
  then show ?thesis using assms(2) by (simp add: SignES256_def Let_def b64_decode_encode)
qed

theorem es256_encoding_witness:
  "\<exists>sig. SignES256 toy_ecdsa 9 77 ''hello'' = Ret sig \<and>
     b64_RawURL_decode sig = Ret (i2osp 32 82 @ i2osp 32 5)"
  by (rule es256_encoding) (simp_all add: toy_p256_key, simp add: toy_ecdsa_def)

text \<open>
  C39. The curve of a key file is not checked: whatever key the file holds is taken as it is, the file
  stays, and the key signs without an error, but the signature is accepted as ES256 exactly when both
  of its numbers fit into 32 bytes.  With a key on a larger curve the service hands out tokens whose
  signature has the wrong length, and nobody accepts them.
\<close>

theorem key_curve_unchecked:
  assumes "ecdsa_lawful E" "load_ecdsa E path fs = Some k" "ecdsa_Sign E rnd k (Sum256 E m) = Ret (r, s)"
  shows "NewECDSAKey E seed path fs = (Ret k, fs) \<and>
    (\<exists>sig. SignES256 E rnd k m = Ret sig \<and> (es256_accepts E k m sig \<longleftrightarrow> r < 2 ^ 256 \<and> s < 2 ^ 256))"
  using NewECDSAKey_loads [OF assms(2)] SignES256_accepted_iff [OF assms(1,3)] by blast

theorem key_curve_unchecked_witness:
  "\<exists>sig. NewECDSAKey toy_ecdsa 5 ''k.pem''
      (demo_fs\<lparr>entries := [''k.pem'' \<mapsto> Readable (CHR ''P'' # big_Bytes (2 ^ 384))]\<rparr>) =
      (Ret (2 ^ 384), demo_fs\<lparr>entries := [''k.pem'' \<mapsto> Readable (CHR ''P'' # big_Bytes (2 ^ 384))]\<rparr>) \<and>
     SignES256 toy_ecdsa 9 (2 ^ 384) ''hello'' = Ret sig \<and> \<not> es256_accepts toy_ecdsa (2 ^ 384) ''hello'' sig"
proof -
  define k :: nat where "k = 2 ^ 384"
  let ?fs = "demo_fs\<lparr>entries := [''k.pem'' \<mapsto> Readable (CHR ''P'' # big_Bytes k)]\<rparr>"
  have "k \<noteq> 0" by (simp add: k_def)
  then have "big_Bytes k \<noteq> []" by (simp add: big_Bytes.simps [of k])
  then have "load_ecdsa toy_ecdsa ''k.pem'' ?fs = Some k"
    by (simp add: load_ecdsa_def ReadFile_def toy_ecdsa_def)
  moreover have "ecdsa_Sign toy_ecdsa 9 k (Sum256 toy_ecdsa ''hello'') = Ret (k + 5, 5)"
    by (simp add: toy_ecdsa_def)
  moreover have "\<not> k + 5 < 2 ^ 256" by (simp add: k_def)
  ultimately show ?thesis
    using key_curve_unchecked [OF toy_ecdsa_lawful, of "''k.pem''" ?fs k 9 "''hello''" "k + 5" 5 5]
    unfolding k_def by blast
qed

subsection \<open>The signer pool\<close>





lemma vault_init:
  "frost_Init toy_frost toy_aead demo_vault vault_env demo_fs no_globals =
     (Ret (), no_globals\<lparr>g_Signer := Some (2, 0), g_Config := Some demo_config,
        g_Pool := Some \<lparr>chan_cap = PoolSize, chan_buf = replicate PoolSize (2, 0)\<rparr>\<rparr>)"
proof -
  have "Config_Signer toy_frost demo_config (demo_shares ! nat 1) = Ret (2, 0)"
    by (simp add: toy_frost_def demo_shares_def)
  from install_signer [OF _ _ this, of no_globals] show ?thesis
    by (simp add: frost_Init_def demo_vault_prepare)
qed

theorem init_all_or_nothing_witness:
  "\<exists>i s. parse_signer_id vault_env = Ret i \<and>
     Config_Signer toy_frost demo_config (demo_shares ! nat (i - 1)) = Ret s \<and>
     g_Signer (snd (frost_Init toy_frost toy_aead demo_vault vault_env demo_fs no_globals)) = Some s"
proof -
  let ?run = "frost_Init toy_frost toy_aead demo_vault vault_env demo_fs no_globals"
  have "is_ret (fst ?run)" by (simp add: vault_init)
  with init_all_or_nothing [of toy_frost toy_aead demo_vault vault_env demo_fs no_globals]
  obtain i ks cfg s where f: "?run = (Ret (), no_globals\<lparr>g_Signer := Some s, g_Config := Some cfg,
        g_Pool := Some \<lparr>chan_cap = 20, chan_buf = replicate 20 s\<rparr>\<rparr>)"
    "prepare toy_frost toy_aead demo_vault vault_env demo_fs = Ret (i, ks, cfg)"
    "parse_signer_id vault_env = Ret i" "Config_Signer toy_frost cfg (ks ! nat (i - 1)) = Ret s" by blast
  have "ks = demo_shares" "cfg = demo_config" using f(2) by (simp_all add: demo_vault_prepare)
  then show ?thesis using f by auto
qed


subsection \<open>The legacy coordinator\<close>

text \<open>
  The first sketch's \<open>Sign\<close>: a run that returns has asked the first signers in order, as many as the
  threshold but at least one and at most all of them; the result names them and counts them, whether
  or not their signatures verify, and whether or not the threshold was reached.
\<close>

theorem legacy_sign_participants:
  assumes "LegacyCoordinator_Sign S rnd c message = Ret (final, shown)"
  shows "Participants final = take (max 1 (nat (legacy_Threshold c))) (map legacy_ID (Signers c)) \<and>
    Count final = min (length (Signers c)) (max 1 (nat (legacy_Threshold c)))"
proof -
  from assms obtain sigs where
    "sign_loop S rnd (legacy_Threshold c) message [] [] (Signers c) = Ret (sigs, shown)"
    "final = Aggregate sigs"
    by (auto simp: LegacyCoordinator_Sign_def bind_go_eq_Ret)
  from sign_loop_participants [OF this(1)] this(2) show ?thesis
    by (simp add: Aggregate_def Let_def flip: length_map [of partial_SignerID])
qed

definition blank_asn1 :: "(unit, unit) asn1_std" where
  "blank_asn1 =
     \<lparr>legacy_GenerateKey = (\<lambda>_. Ret ()), SignASN1 = (\<lambda>_ _ _. Ret ''sig''),
      VerifyASN1 = (\<lambda>_ _ _. False), legacy_Sum256 = (\<lambda>m. m)\<rparr>"

theorem legacy_sign_participants_witness:
  "\<exists>final. LegacyCoordinator_Sign blank_asn1 (\<lambda>_. ())
       \<lparr>Signers = [\<lparr>legacy_ID = ''a'', PrivateKey = ()\<rparr>, \<lparr>legacy_ID = ''b'', PrivateKey = ()\<rparr>],
        legacy_Threshold = 3\<rparr> ''hello'' = Ret (final, [False, False]) \<and>
     Participants final = [''a'', ''b''] \<and> Count final = 2"
proof -
  let ?c = "\<lparr>Signers = [\<lparr>legacy_ID = ''a'', PrivateKey = ()\<rparr>, \<lparr>legacy_ID = ''b'', PrivateKey = ()\<rparr>],
        legacy_Threshold = 3\<rparr>"
  obtain final where f: "LegacyCoordinator_Sign blank_asn1 (\<lambda>_. ()) ?c ''hello'' = Ret (final, [False, False])"
    by (simp add: LegacyCoordinator_Sign_def blank_asn1_def LegacySigner_Sign_def LegacySigner_Verify_def Let_def)
  from legacy_sign_participants [OF f] f show ?thesis by (simp add: numeral_eq_Suc)
qed

end

