(* ===== verification/Spec2Isabelle.thy ===== *)
theory Spec2Isabelle
  imports Proxy_Properties Signer_Properties Concurrency_Properties Dkg_Properties Coordinator_Properties
    Storage_Properties
begin

text \<open>
  FROST threshold signing for Kubernetes service-account tokens.

  The program.  Five signers (\<open>cmd/signer\<close>) hold one FROST key share each and answer HTTP requests: a
  commitment, a signature share under given commitments, and the rounds of a distributed key
  generation.  A proxy (\<open>cmd/grpc-proxy\<close> with \<open>internal/grpcserver\<close>) answers the API server's gRPC
  call \<open>Sign\<close>: it asks all signers for commitments at the same time, goes on with three of those that
  answered, collects their shares, checks that they aggregate to a FROST signature, and then signs the
  token with an ECDSA key of its own (\<open>internal/signing\<close>).  A second coordinator (\<open>cmd/coordinator\<close>)
  does the same over HTTP with three local signers, one after the other, and puts the FROST signature
  itself into the token.  \<open>cmd/dkg-coordinator\<close> leads a key generation (\<open>internal/dkg\<close>) among the
  signers.  \<open>cmd/keygen\<close> deals shares into a file, which \<open>cmd/encrypt-keys\<close> encrypts
  (\<open>internal/keystore\<close>) and signers and coordinators read at start-up (\<open>internal/froststate\<close>,
  \<open>internal/coordinatorstate\<close>).  Three older packages (\<open>internal/types\<close>, \<open>internal/signer\<close>,
  \<open>internal/coordinator\<close>) are used by no program.

  Conventions (\<open>Prelude\<close>).  A Go call that returns a value and an error is a value of type \<open>go\<close>: \<open>Ret\<close>,
  \<open>Err\<close> with the error, or \<open>Panic\<close>.  Mutable state is passed in and returned; a handler is a function
  from the state and the request to the outcome and the new state; that requests which are served at the
  same time add up to such functions applied one after the other is proved in \<open>Signer_Threads\<close>, from the
  handlers' use of their two mutexes.  Strings and byte slices are lists of
  characters, one per byte; \<open>uint16\<close> and \<open>uint64\<close> are words of that width; \<open>big.Int\<close> is \<open>nat\<close>.  A map is
  a partial function.  What the servers print on the terminal is left out.

  The Go library the code uses, modelled as far as it is used: \<open>Go_Strconv\<close> (\<open>Itoa\<close>, \<open>Atoi\<close>,
  \<open>ParseUint\<close>), \<open>Go_Encoding\<close> (hex, unpadded base64url), \<open>Go_Json\<close>, \<open>Go_Json_Laws\<close> and
  \<open>Go_Json_Struct\<close> (\<open>encoding/json\<close>: text, values and structs, both directions; the parser's fuel is twice
  the length of the text, and the laws show that every printed value is read back with it), \<open>Go_Os\<close>
  (environment and files), \<open>Go_Http\<close> (what a client sees of a handler's outcome, with redirects followed), \<open>Go_Chan\<close> (buffered
  channels).

  Parameters.  Code that is not in the repository is an argument of the model, and what the program
  relies on is a predicate: the FROST library (\<open>Frost_Lib\<close>: \<open>frost_codecs\<close>, \<open>frost_complete\<close> in
  \<open>Deployment\<close>, \<open>frost_concurrent\<close> in \<open>Concurrent_Sessions\<close>, \<open>share_codec\<close> in \<open>Keygen\<close>, \<open>sorts_by_signer\<close>
  in \<open>Frostlab\<close>), the prime-order group of the key generation (\<open>Dkg\<close>:
  \<open>dkg_lawful\<close>), ECDSA with X.509 and PEM (\<open>ecdsa_lawful\<close>, and \<open>p256_key\<close> where a
  key has to be on P-256: the code loads keys on any curve), SHA-256 with AES-GCM (\<open>aead_lawful\<close>), TLS,
  Vault and the network.  \<open>Instances\<close> has instances of all of them, over a field of seven elements; the
  witnesses run on these.

  Components.
  \<^item> \<open>Api\<close>, \<open>Frost_Wire\<close>: the messages (\<open>internal/api\<close>) and the hex strings in them.
  \<^item> \<open>Config\<close>: \<open>internal/config\<close> and the three copies of \<open>getEnv\<close> with the signers' addresses.
  \<^item> \<open>Ecdsa_Signing\<close>: \<open>internal/signing\<close>, \<open>cmd/genkey\<close>.
  \<^item> \<open>Keystore\<close>: \<open>internal/keystore\<close>, \<open>cmd/encrypt-keys\<close>, and their copies under \<open>deploy\<close>.
  \<^item> \<open>Frost_State\<close>, \<open>Coordinator_State\<close>: \<open>internal/froststate\<close>, \<open>internal/coordinatorstate\<close>.
  \<^item> \<open>Dkg\<close>: \<open>internal/dkg\<close>, with polynomials as lists of coefficients.
  \<^item> \<open>Signer_Server\<close>: \<open>cmd/signer\<close>; \<open>signer_state\<close> has the globals of \<open>froststate\<close> and of \<open>main.go\<close>,
    \<open>signer_serve\<close> is the multiplexer.  \<open>Signer_Laws\<close> has the reachable states, their invariant and what
    each request answers.
  \<^item> \<open>Signer_Threads\<close>: the requests of a signer as goroutines.  A goroutine waits for the mutex of its
    handler, works inside on the globals as it found them, and writes them back when it leaves; one whose
    client does not send the body stays inside.
  \<^item> \<open>Grpc_Proxy\<close>, \<open>Grpc_Server\<close>: \<open>cmd/grpc-proxy\<close>, \<open>internal/grpcserver\<close>, \<open>internal/mtls\<close>.  A run is
    described by the answers to the calls and the order in which results arrive.  \<open>proxy_main\<close> builds the
    service, \<open>proxy_serve\<close> listens, \<open>proxy_run\<close> is the whole program.
  \<^item> \<open>Proxy_Machine\<close>, \<open>Proxy_Refinement\<close>: the goroutines, the channel and the collector of a round as a
    step relation, and the proof that a finished run of it is one of the runs of \<open>Grpc_Proxy\<close>.
    \<open>Share_Machine\<close> is the same for the second round, whose collector returns at the first failure.
  \<^item> \<open>Http_Coordinator\<close>: \<open>cmd/coordinator\<close>.
  \<^item> \<open>Dkg_Coordinator\<close>: \<open>cmd/dkg-coordinator\<close>, over any HTTP client.
  \<^item> \<open>Keygen\<close>: \<open>cmd/keygen\<close>; \<open>Frostlab\<close>: \<open>cmd/frostlab\<close>, with its standard output as the state.
  \<^item> \<open>Legacy\<close>: the three older packages.
  \<^item> \<open>Deployment\<close>, \<open>Http_Deployment\<close>, \<open>Ceremony\<close>: signers, each in its own state, behind the clients of
    the proxy, of the HTTP coordinator and of the DKG coordinator.  \<open>Concurrent_Sessions\<close>: a session of the
    proxy while the signers serve others.

  Interfaces.  \<open>codec\<close> (\<open>Prelude\<close>) is the contract of an encoder and a decoder, interpreted on hex, on
  base64url and on every message; \<open>bounded_fifo\<close> (\<open>Go_Chan\<close>) is the contract of a bounded queue,
  interpreted on channels and on the signer pool; \<open>step_system\<close> and \<open>working_system\<close> (\<open>Step_Systems\<close>)
  are the contracts of a step relation with an invariant and with work that runs out, interpreted on the
  goroutines of both rounds, with all calls returning and with one that never does, and on the requests
  of a signer.

  Properties.
  \<^item> \<open>Proxy_Properties\<close>: end to end against real signers; what a token that is handed out guarantees; that
    three signers are necessary; that one bad signer among those chosen is fatal; progress of the
    goroutines and their refinement of the sequential collection; where one silent signer leaves a request;
    the published key and restarts.
  \<^item> \<open>Signer_Properties\<close>: the invariant of a signer's states; what each request does, answers and refuses;
    the type of every answer.
  \<^item> \<open>Concurrency_Properties\<close>: serving at the same time is serving one after the other; progress, and what
    a client that stalls does; overlapping signing sessions; the second round against its machine.
  \<^item> \<open>Dkg_Properties\<close>: the protocol is correct when it is used as intended; what the ceremony does
    instead, and what nobody checks.
  \<^item> \<open>Coordinator_Properties\<close>: the HTTP coordinator end to end, its token, its failures; \<open>cmd/frostlab\<close>.
  \<^item> \<open>Storage_Properties\<close>: keys at rest, start-up, key generation to start-up, the
    signature format and the curve it needs, the signer pool and the legacy coordinator.

  Bounds.  Round 1 draws three coefficients and the pool has twenty signers, as in the code.  Statements
  about key generation are for any number of signers below \<open>2 ^ 16\<close>, except that the polynomials have the
  degree of the code.  No recursion has fuel other than the JSON parser.

  Not modelled.  The generated protobuf and gRPC stubs (their messages are records in \<open>Grpc_Server\<close>); the
  transport below an HTTP call (a call of the proxy that never returns and a body that never arrives are
  in the model), timeouts, and the moment at which a connection fails; the inside of
  the parameters, in particular that FROST signatures cannot be forged and where nonces come from; what the
  servers print; the scripts, container files and cluster configuration.
\<close>

end
